(* ===== verification/Dbaas_Prelude.thy ===== *)
theory Dbaas_Prelude
  imports Main "HOL-Library.AList" "HOL-Library.Multiset"
begin

text \<open>
  Shared vocabulary of the development: Go errors, calls that thread the state of the
  outside world, Go maps, and the rules by which properties of a sequence of calls are put
  together.  Nothing here is about one component; the components import this theory.

  A \<^emph>\<open>call\<close> takes the world and returns a Go result pair \<open>(value, err)\<close>, as a sum with
  \<open>Inl\<close> the error, and the world after it.  The world type is a parameter everywhere: what the
  API servers behind the client libraries do with it is not under \<open>src/\<close>.
\<close>

named_theorems call_simps \<open>unfold the sequencing of calls\<close>
named_theorems keeps_intros \<open>a program leaves a view of the world as it was\<close>
named_theorems keeps_facts \<open>calls that are already known to leave a view as it was\<close>

section \<open>Errors\<close>

text \<open>
  The errors of the API servers as the code classifies them: \<open>apierrors.IsNotFound\<close>,
  \<open>apierrors.IsAlreadyExists\<close>, and every other error.
\<close>

datatype api_error = NotFound | AlreadyExists | ApiFailure string

text \<open>
  An error value of the program: an API error passed on, or the value of
  \<open>fmt.Errorf\<close>/\<open>errors.New\<close> with its format, its arguments and the error it wraps.
\<close>

datatype go_error =
    ApiErr api_error
  | Errorf string "string list" "go_error option"

definition errorf :: "string \<Rightarrow> string list \<Rightarrow> go_error" where
  "errorf fmt args = Errorf fmt args None"

definition wrapf :: "string \<Rightarrow> string list \<Rightarrow> go_error \<Rightarrow> go_error" where
  "wrapf fmt args e = Errorf fmt args (Some e)"

definition wrap_api :: "string \<Rightarrow> string list \<Rightarrow> api_error \<Rightarrow> go_error" where
  "wrap_api fmt args e = Errorf fmt args (Some (ApiErr e))"

section \<open>Calls\<close>

type_synonym ('w, 'e, 'a) call = "'w \<Rightarrow> ('e + 'a) \<times> 'w"

type_synonym ('w, 'a) prog = "('w, go_error, 'a) call"

definition ret :: "'a \<Rightarrow> ('w, 'e, 'a) call" where
  "ret x = (\<lambda>w. (Inr x, w))"

definition fail :: "'e \<Rightarrow> ('w, 'e, 'a) call" where
  "fail e = (\<lambda>w. (Inl e, w))"

definition lift_sum :: "'e + 'a \<Rightarrow> ('w, 'e, 'a) call" where
  "lift_sum r = (\<lambda>w. (r, w))"

text \<open>Make a call, then go on with its result pair, whichever it is.\<close>

definition on_result ::
  "('w, 'e, 'a) call \<Rightarrow> ('e + 'a \<Rightarrow> ('w, 'f, 'b) call) \<Rightarrow> ('w, 'f, 'b) call" where
  "on_result m k = (\<lambda>w. case m w of (r, w') \<Rightarrow> k r w')"

text \<open>\<open>x, err := m(); if err != nil { return wrap(err) }\<close>, then the rest of the function.\<close>

definition or_fail ::
  "('w, 'e, 'a) call \<Rightarrow> ('e \<Rightarrow> 'f) \<Rightarrow> ('a \<Rightarrow> ('w, 'f, 'b) call) \<Rightarrow> ('w, 'f, 'b) call" where
  "or_fail m wrap k = on_result m (\<lambda>r. case r of Inl e \<Rightarrow> fail (wrap e) | Inr x \<Rightarrow> k x)"

text \<open>A loop over a slice that returns at the first error.\<close>

fun for_each :: "('a \<Rightarrow> ('w, 'e, unit) call) \<Rightarrow> 'a list \<Rightarrow> ('w, 'e, unit) call" where
  "for_each f [] = ret ()"
| "for_each f (x # xs) = or_fail (f x) (\<lambda>e. e) (\<lambda>_. for_each f xs)"

lemma ret_run [simp, call_simps]: "ret x w = (Inr x, w)"
  by (simp add: ret_def)

lemma fail_run [simp, call_simps]: "fail e w = (Inl e, w)"
  by (simp add: fail_def)

lemma lift_sum_run [simp, call_simps]: "lift_sum r w = (r, w)"
  by (simp add: lift_sum_def)

lemma on_result_run [call_simps]: "on_result m k w = (case m w of (r, w') \<Rightarrow> k r w')"
  by (simp add: on_result_def)

lemma or_fail_run [call_simps]:
  "or_fail m wrap k w =
     (case m w of (Inl e, w') \<Rightarrow> (Inl (wrap e), w') | (Inr x, w') \<Rightarrow> k x w')"
  by (auto simp: or_fail_def on_result_def split: prod.splits sum.splits)

lemma or_fail_Inr_iff:
  "or_fail m wrap k w = (Inr y, w') \<longleftrightarrow>
     (\<exists>x w1. m w = (Inr x, w1) \<and> k x w1 = (Inr y, w'))"
  by (auto simp: or_fail_run split: prod.splits sum.splits)

lemma or_fail_InrE:
  assumes "or_fail m wrap k w = (Inr y, w')"
  obtains x w1 where "m w = (Inr x, w1)" and "k x w1 = (Inr y, w')"
  using assms by (auto simp: or_fail_Inr_iff)

lemma or_fail_Inl_iff:
  "or_fail m wrap k w = (Inl f, w') \<longleftrightarrow>
     (\<exists>e. m w = (Inl e, w') \<and> f = wrap e) \<or>
     (\<exists>x w1. m w = (Inr x, w1) \<and> k x w1 = (Inl f, w'))"
  by (auto simp: or_fail_run split: prod.splits sum.splits)

lemma or_fail_cases [consumes 1, case_names failed went_on]:
  assumes "or_fail m wrap k w = (r, w')"
  obtains e where "m w = (Inl e, w')" and "r = Inl (wrap e)"
    | x w1 where "m w = (Inr x, w1)" and "k x w1 = (r, w')"
  using assms by (auto simp: or_fail_run split: prod.splits sum.splits)

lemma on_result_cases:
  assumes "on_result m k w = (r, w')"
  obtains x w1 where "m w = (x, w1)" and "k x w1 = (r, w')"
  using assms by (auto simp: on_result_run split: prod.splits)

lemma or_fail_ret [simp]: "or_fail (ret x) wrap k = k x"
  by (rule ext) (simp add: or_fail_run)

lemma or_fail_fail [simp]: "or_fail (fail e) wrap k = fail (wrap e)"
  by (rule ext) (simp add: or_fail_run)

lemma or_fail_lift [simp]:
  "or_fail (lift_sum (Inr x)) wrap k = k x" "or_fail (lift_sum (Inl e)) wrap k = fail (wrap e)"
  by (rule ext, simp add: or_fail_run)+

section \<open>Programs that only read\<close>

text \<open>\<open>keeps view m\<close>: whatever \<open>m\<close> returns, the part \<open>view\<close> of the world is unchanged.\<close>

definition keeps :: "('w \<Rightarrow> 'v) \<Rightarrow> ('w, 'e, 'a) call \<Rightarrow> bool" where
  "keeps view m \<longleftrightarrow> (\<forall>w. view (snd (m w)) = view w)"

lemma keepsI: "(\<And>w. view (snd (m w)) = view w) \<Longrightarrow> keeps view m"
  by (simp add: keeps_def)

lemma keepsD: "keeps view m \<Longrightarrow> m w = (r, w') \<Longrightarrow> view w' = view w"
  by (metis keeps_def snd_conv)

lemma keeps_ret [keeps_intros, simp]: "keeps view (ret x)"
  by (simp add: keeps_def)

lemma keeps_fail [keeps_intros, simp]: "keeps view (fail e)"
  by (simp add: keeps_def)

lemma keeps_lift_sum [keeps_intros, simp]: "keeps view (lift_sum r)"
  by (simp add: keeps_def)

lemma keeps_on_result [keeps_intros]:
  "keeps view m \<Longrightarrow> (\<And>r. keeps view (k r)) \<Longrightarrow> keeps view (on_result m k)"
  by (simp add: keeps_def on_result_run split: prod.splits) (metis snd_conv)

lemma keeps_or_fail [keeps_intros]:
  "keeps view m \<Longrightarrow> (\<And>x. keeps view (k x)) \<Longrightarrow> keeps view (or_fail m wrap k)"
  by (auto simp: or_fail_def intro!: keeps_on_result split: sum.splits)

lemma keeps_for_each [keeps_intros]:
  "(\<And>x. x \<in> set xs \<Longrightarrow> keeps view (f x)) \<Longrightarrow> keeps view (for_each f xs)"
  by (induction xs) (auto intro: keeps_or_fail)

lemma keeps_if [keeps_intros]:
  "(b \<Longrightarrow> keeps view m) \<Longrightarrow> (\<not> b \<Longrightarrow> keeps view n) \<Longrightarrow> keeps view (if b then m else n)"
  by simp

lemma keeps_part: "keeps view m \<Longrightarrow> keeps (\<lambda>w. f (view w)) m"
  by (simp add: keeps_def)

lemma keeps_sum [keeps_intros]:
  "(\<And>e. r = Inl e \<Longrightarrow> keeps view (k e)) \<Longrightarrow> (\<And>x. r = Inr x \<Longrightarrow> keeps view (l x)) \<Longrightarrow>
   keeps view (case r of Inl e \<Rightarrow> k e | Inr x \<Rightarrow> l x)"
  by (cases r) simp_all

lemma keeps_prod [keeps_intros]:
  "(\<And>a b. keeps view (k a b)) \<Longrightarrow> keeps view (case x of (a, b) \<Rightarrow> k a b)"
  by (cases x) simp

section \<open>Invariants of programs\<close>

text \<open>\<open>preserves P m\<close>: \<open>P\<close> survives every run of \<open>m\<close>, the failing ones included.\<close>

definition preserves :: "('w \<Rightarrow> bool) \<Rightarrow> ('w, 'e, 'a) call \<Rightarrow> bool" where
  "preserves P m \<longleftrightarrow> (\<forall>w. P w \<longrightarrow> P (snd (m w)))"

lemma preservesI: "(\<And>w r w'. P w \<Longrightarrow> m w = (r, w') \<Longrightarrow> P w') \<Longrightarrow> preserves P m"
  by (simp add: preserves_def) (metis prod.collapse)

lemma preservesD: "preserves P m \<Longrightarrow> P w \<Longrightarrow> m w = (r, w') \<Longrightarrow> P w'"
  by (metis preserves_def snd_conv)

lemma preserves_ret [simp]: "preserves P (ret x)"
  by (simp add: preserves_def)

lemma preserves_fail [simp]: "preserves P (fail e)"
  by (simp add: preserves_def)

lemma preserves_lift_sum [simp]: "preserves P (lift_sum r)"
  by (simp add: preserves_def)

lemma preserves_on_result:
  "preserves P m \<Longrightarrow> (\<And>r. preserves P (k r)) \<Longrightarrow> preserves P (on_result m k)"
  by (rule preservesI) (auto simp: on_result_run split: prod.splits dest: preservesD)

lemma preserves_or_fail:
  "preserves P m \<Longrightarrow> (\<And>x. preserves P (k x)) \<Longrightarrow> preserves P (or_fail m wrap k)"
  by (auto simp: or_fail_def intro!: preserves_on_result split: sum.splits)

lemma preserves_for_each:
  "(\<And>x. x \<in> set xs \<Longrightarrow> preserves P (f x)) \<Longrightarrow> preserves P (for_each f xs)"
  by (induction xs) (auto intro: preserves_or_fail)

lemma keeps_preserves: "keeps view m \<Longrightarrow> preserves (\<lambda>w. P (view w)) m"
  by (simp add: keeps_def preserves_def)

section \<open>The contract of an idempotent ensure step\<close>

text \<open>
  The program is level-triggered: it runs the same \<open>ensure...\<close> functions again and again, and each
  of them must reach its goal, change nothing outside its frame on any path, and write nothing
  once the goal is reached.  The components discharge the contract for their own functions.
\<close>

fun runs :: "nat \<Rightarrow> ('w, 'e, 'a) call \<Rightarrow> 'w \<Rightarrow> 'w" where
  "runs 0 m w = w"
| "runs (Suc n) m w = runs n m (snd (m w))"

locale ensure_step =
  fixes view :: "'w \<Rightarrow> 'v"
    and run :: "('w, 'e, unit) call"
    and goal :: "'v \<Rightarrow> bool"
    and frame :: "'v \<Rightarrow> 'v \<Rightarrow> bool"
  assumes frame_refl: "frame v v"
    and frame_trans: "frame v1 v2 \<Longrightarrow> frame v2 v3 \<Longrightarrow> frame v1 v3"
    and any_frame: "run w = (r, w') \<Longrightarrow> frame (view w) (view w')"
    and ok_goal: "run w = (Inr u, w') \<Longrightarrow> goal (view w')"
    and goal_stable: "run w = (r, w') \<Longrightarrow> goal (view w) \<Longrightarrow> view w' = view w"
begin

lemma runs_frame: "frame (view w) (view (runs n run w))"
proof (induction n arbitrary: w)
  case (Suc n)
  have "frame (view w) (view (snd (run w)))" by (rule any_frame) (rule surjective_pairing)
  with Suc.IH [of "snd (run w)"] show ?case by (auto intro: frame_trans)
qed (simp add: frame_refl)

lemma runs_settled: "goal (view w) \<Longrightarrow> view (runs n run w) = view w"
proof (induction n arbitrary: w)
  case (Suc n)
  have "view (snd (run w)) = view w" using Suc.prems by (rule goal_stable [OF surjective_pairing])
  with Suc show ?case by simp
qed simp

text \<open>Once a run has succeeded, however many follow change nothing more.\<close>

lemma runs_after_success: "run w = (Inr u, w') \<Longrightarrow> view (runs n run w') = view w'"
  by (rule runs_settled) (rule ok_goal)

lemma goal_keeps: "goal (view w) \<Longrightarrow> goal (view (runs n run w))"
  by (simp add: runs_settled)

end

section \<open>Go maps\<close>

text \<open>
  A Go map with string keys is an association list with distinct keys, so that a \<open>range\<close> loop
  can visit it; \<open>None\<close> is the nil map where the code tells the two apart.  Reading a missing key
  of a \<open>map[string]string\<close> gives the empty string.
\<close>

type_synonym 'v gomap = "(string \<times> 'v) list"

definition gm_string :: "string gomap option \<Rightarrow> string \<Rightarrow> string" where
  "gm_string m k =
     (case m of None \<Rightarrow> [] | Some al \<Rightarrow> (case map_of al k of None \<Rightarrow> [] | Some v \<Rightarrow> v))"

definition gm_get :: "'v gomap option \<Rightarrow> string \<Rightarrow> 'v option" where
  "gm_get m k = (case m of None \<Rightarrow> None | Some al \<Rightarrow> map_of al k)"

lemma gm_string_get: "gm_string m k = (case gm_get m k of None \<Rightarrow> [] | Some v \<Rightarrow> v)"
  by (simp add: gm_string_def gm_get_def split: option.splits)

text \<open>\<open>if m == nil { m = map[string]string{} }; m[k] = v\<close>\<close>

definition gm_put :: "'v gomap option \<Rightarrow> string \<Rightarrow> 'v \<Rightarrow> 'v gomap option" where
  "gm_put m k v = Some (AList.update k v (case m of None \<Rightarrow> [] | Some al \<Rightarrow> al))"

lemma gm_get_put [simp]: "gm_get (gm_put m k v) k' = (if k' = k then Some v else gm_get m k')"
  by (auto simp: gm_get_def gm_put_def update_conv' split: option.splits)

lemma gm_string_put [simp]:
  "gm_string (gm_put m k v) k' = (if k' = k then v else gm_string m k')"
  by (auto simp: gm_string_def gm_put_def update_conv' split: option.splits)

lemma gm_put_idem:
  "m = Some al \<Longrightarrow> map_of al k = Some v \<Longrightarrow> gm_put m k v = m"
proof -
  have "map_of al k = Some v \<Longrightarrow> AList.update k v al = al"
    by (induction al) (auto split: if_splits)
  then show "m = Some al \<Longrightarrow> map_of al k = Some v \<Longrightarrow> gm_put m k v = m"
    by (simp add: gm_put_def)
qed

end
