(* ===== verification/Go_Strings.thy ===== *)
theory Go_Strings
  imports Dbaas_Prelude
begin

text \<open>
  What the program uses of the Go standard library's \<open>strings\<close> package.  A Go string is a
  sequence of bytes; an Isabelle \<open>char\<close> is one byte.
\<close>

section \<open>Prefixes, suffixes, substrings\<close>

fun has_prefix :: "string \<Rightarrow> string \<Rightarrow> bool" where
  "has_prefix s [] = True"
| "has_prefix [] (p # ps) = False"
| "has_prefix (c # s) (p # ps) = (c = p \<and> has_prefix s ps)"

definition has_suffix :: "string \<Rightarrow> string \<Rightarrow> bool" where
  "has_suffix s p = has_prefix (rev s) (rev p)"

definition trim_prefix :: "string \<Rightarrow> string \<Rightarrow> string" where
  "trim_prefix s p = (if has_prefix s p then drop (length p) s else s)"

definition trim_suffix :: "string \<Rightarrow> string \<Rightarrow> string" where
  "trim_suffix s p = (if has_suffix s p then take (length s - length p) s else s)"

fun contains :: "string \<Rightarrow> string \<Rightarrow> bool" where
  "contains [] sub = (sub = [])"
| "contains (c # s) sub = (has_prefix (c # s) sub \<or> contains s sub)"

lemma has_prefix_iff: "has_prefix s p \<longleftrightarrow> (\<exists>t. s = p @ t)"
  by (induction s p rule: has_prefix.induct) auto

lemma has_prefix_append [simp]: "has_prefix (p @ t) p"
  by (simp add: has_prefix_iff)

lemma has_suffix_iff: "has_suffix s p \<longleftrightarrow> (\<exists>t. s = t @ p)"
proof -
  have "(\<exists>t. rev s = rev p @ t) \<longleftrightarrow> (\<exists>t. s = t @ p)"
    by (metis rev_append rev_rev_ident)
  then show ?thesis by (simp add: has_suffix_def has_prefix_iff)
qed

lemma has_suffix_append [simp]: "has_suffix (t @ p) p"
  by (auto simp: has_suffix_iff)

lemma trim_prefix_append [simp]: "trim_prefix (p @ t) p = t"
  by (simp add: trim_prefix_def)

lemma trim_suffix_append [simp]: "trim_suffix (t @ p) p = t"
  by (simp add: trim_suffix_def)

lemma trim_suffix_other: "\<not> has_suffix s p \<Longrightarrow> trim_suffix s p = s"
  by (simp add: trim_suffix_def)

lemma contains_iff: "contains s sub \<longleftrightarrow> (\<exists>a b. s = a @ sub @ b)"
proof (induction s)
  case Nil
  then show ?case by auto
next
  case (Cons c s)
  have "(\<exists>a b. c # s = a @ sub @ b) \<longleftrightarrow>
        (\<exists>b. c # s = sub @ b) \<or> (\<exists>a b. s = a @ sub @ b)" (is "?L \<longleftrightarrow> ?R")
  proof
    assume ?L
    then obtain a b where ab: "c # s = a @ sub @ b" by blast
    then show ?R by (cases a) auto
  next
    assume ?R
    then show ?L by (metis append_Cons append_Nil)
  qed
  then show ?case using Cons by (simp add: has_prefix_iff)
qed

lemma contains_middle [simp]: "contains (a @ sub @ b) sub"
  by (auto simp: contains_iff)

lemma contains_end [simp]: "contains (a @ sub) sub"
  using contains_middle [of a sub "[]"] by simp

section \<open>Cutting and splitting at one byte\<close>

text \<open>
  \<open>before, after, found := strings.Cut(s, sep)\<close> with a one-byte separator; without it \<open>before\<close> is
  \<open>s\<close> and \<open>after\<close> is empty.
\<close>

definition cut_byte :: "string \<Rightarrow> char \<Rightarrow> string \<times> string \<times> bool" where
  "cut_byte s c = (takeWhile (\<lambda>x. x \<noteq> c) s, drop 1 (dropWhile (\<lambda>x. x \<noteq> c) s), c \<in> set s)"

fun split_byte :: "string \<Rightarrow> char \<Rightarrow> string list" where
  "split_byte [] c = [[]]"
| "split_byte (x # s) c =
     (if x = c then [] # split_byte s c
      else (case split_byte s c of [] \<Rightarrow> [[x]] | f # fs \<Rightarrow> (x # f) # fs))"

text \<open>\<open>strings.SplitN(s, sep, n)\<close> for \<open>n > 0\<close>: at most \<open>n\<close> fields, the last one unsplit.\<close>

fun split_n :: "nat \<Rightarrow> string \<Rightarrow> char \<Rightarrow> string list" where
  "split_n 0 s c = []"
| "split_n (Suc 0) s c = [s]"
| "split_n (Suc (Suc n)) s c =
     (case cut_byte s c of (a, b, found) \<Rightarrow> if found then a # split_n (Suc n) b c else [s])"

lemma takeWhile_sep [simp]: "c \<notin> set a \<Longrightarrow> takeWhile (\<lambda>x. x \<noteq> c) (a @ c # b) = a"
  by (induction a) auto

lemma dropWhile_sep [simp]: "c \<notin> set a \<Longrightarrow> dropWhile (\<lambda>x. x \<noteq> c) (a @ c # b) = c # b"
  by (induction a) auto

lemma takeWhile_nosep [simp]: "c \<notin> set a \<Longrightarrow> takeWhile (\<lambda>x. x \<noteq> c) a = a"
  by (induction a) auto

lemma dropWhile_nosep [simp]: "c \<notin> set a \<Longrightarrow> dropWhile (\<lambda>x. x \<noteq> c) a = []"
  by (induction a) auto

lemma cut_byte_found [simp]: "c \<notin> set a \<Longrightarrow> cut_byte (a @ c # b) c = (a, b, True)"
  by (simp add: cut_byte_def)

lemma cut_byte_none [simp]: "c \<notin> set s \<Longrightarrow> cut_byte s c = (s, [], False)"
  by (simp add: cut_byte_def)

lemma cut_byte_found_iff: "snd (snd (cut_byte s c)) \<longleftrightarrow> c \<in> set s"
  by (simp add: cut_byte_def)

lemma cut_byte_join:
  assumes "cut_byte s c = (a, b, True)"
  shows "s = a @ c # b" "c \<notin> set a"
proof -
  from assms have "c \<in> set s" by (simp add: cut_byte_def)
  then obtain x y where s: "s = x @ c # y" and x: "c \<notin> set x" by (meson split_list_first)
  with assms show "s = a @ c # b" "c \<notin> set a" by auto
qed

lemma split_byte_nonempty: "split_byte s c \<noteq> []"
  by (induction s) (auto split: list.splits)

lemma split_byte_nosep [simp]: "c \<notin> set s \<Longrightarrow> split_byte s c = [s]"
  by (induction s) auto

lemma split_byte_sep [simp]: "c \<notin> set a \<Longrightarrow> split_byte (a @ c # b) c = a # split_byte b c"
  by (induction a) (auto split: list.splits)

text \<open>\<open>strings.Count(s, sep)\<close> for one byte.\<close>

text \<open>The inverse of \<open>split_byte\<close>: joining parts that do not hold the separator.\<close>

fun join_byte :: "string list \<Rightarrow> char \<Rightarrow> string" where
  "join_byte [] c = []"
| "join_byte [a] c = a"
| "join_byte (a # b # as) c = a @ c # join_byte (b # as) c"

lemma split_join_byte:
  "as \<noteq> [] \<Longrightarrow> \<forall>a \<in> set as. c \<notin> set a \<Longrightarrow> split_byte (join_byte as c) c = as"
  by (induction "as" c rule: join_byte.induct) auto

lemma set_join_byte: "x \<in> set (join_byte as c) \<Longrightarrow> x = c \<or> (\<exists>a \<in> set as. x \<in> set a)"
  by (induction "as" c rule: join_byte.induct) auto

definition count_byte :: "string \<Rightarrow> char \<Rightarrow> nat" where
  "count_byte s c = length (filter (\<lambda>x. x = c) s)"

lemma count_byte_0: "c \<notin> set s \<Longrightarrow> count_byte s c = 0"
  by (auto simp: count_byte_def filter_empty_conv)

text \<open>\<open>strings.LastIndex(s, sep)\<close> for one byte: the text before and after the last occurrence.\<close>

definition cut_last :: "string \<Rightarrow> char \<Rightarrow> (string \<times> string) option" where
  "cut_last s c =
     (if c \<in> set s
      then Some (rev (drop 1 (dropWhile (\<lambda>x. x \<noteq> c) (rev s))), rev (takeWhile (\<lambda>x. x \<noteq> c) (rev s)))
      else None)"

lemma cut_last_found [simp]: "c \<notin> set b \<Longrightarrow> cut_last (a @ c # b) c = Some (a, b)"
  by (simp add: cut_last_def)

lemma cut_last_Some:
  assumes "cut_last s c = Some (a, b)"
  shows "s = a @ c # b" "c \<notin> set b"
proof -
  have in_s: "c \<in> set s" using assms by (auto simp: cut_last_def split: if_splits)
  then obtain a' b' where s: "s = a' @ c # b'" "c \<notin> set b'" by (metis split_list_last)
  with assms show "s = a @ c # b" "c \<notin> set b" by auto
qed

lemma cut_last_none [simp]: "c \<notin> set s \<Longrightarrow> cut_last s c = None"
  by (simp add: cut_last_def)

section \<open>Trimming\<close>

text \<open>\<open>strings.Trim(s, cutset)\<close> for a cutset of ASCII bytes.\<close>

definition trim_cutset :: "string \<Rightarrow> string \<Rightarrow> string" where
  "trim_cutset s cs =
     rev (dropWhile (\<lambda>c. c \<in> set cs) (rev (dropWhile (\<lambda>c. c \<in> set cs) s)))"

lemma trim_cutset_id [simp]:
  "s = [] \<or> hd s \<notin> set cs \<Longrightarrow> s = [] \<or> last s \<notin> set cs \<Longrightarrow> trim_cutset s cs = s"
proof (cases "s = []")
  case False
  assume "s = [] \<or> hd s \<notin> set cs" and "s = [] \<or> last s \<notin> set cs"
  with False have "dropWhile (\<lambda>c. c \<in> set cs) s = s"
    and "dropWhile (\<lambda>c. c \<in> set cs) (rev s) = rev s"
    by (auto simp: dropWhile_eq_self_iff hd_rev)
  then show ?thesis by (simp add: trim_cutset_def)
qed (simp add: trim_cutset_def)

text \<open>
  \<open>strings.TrimSpace\<close> removes the runes of \<open>unicode.IsSpace\<close> at both ends; here are their UTF-8
  encodings.
\<close>

definition space_seqs :: "string list" where
  "space_seqs =
     [[CHR 0x09], [CHR 0x0A], [CHR 0x0B], [CHR 0x0C], [CHR 0x0D], [CHR 0x20],
      [CHR 0xC2, CHR 0x85], [CHR 0xC2, CHR 0xA0], [CHR 0xE1, CHR 0x9A, CHR 0x80],
      [CHR 0xE2, CHR 0x80, CHR 0x80], [CHR 0xE2, CHR 0x80, CHR 0x81],
      [CHR 0xE2, CHR 0x80, CHR 0x82], [CHR 0xE2, CHR 0x80, CHR 0x83],
      [CHR 0xE2, CHR 0x80, CHR 0x84], [CHR 0xE2, CHR 0x80, CHR 0x85],
      [CHR 0xE2, CHR 0x80, CHR 0x86], [CHR 0xE2, CHR 0x80, CHR 0x87],
      [CHR 0xE2, CHR 0x80, CHR 0x88], [CHR 0xE2, CHR 0x80, CHR 0x89],
      [CHR 0xE2, CHR 0x80, CHR 0x8A], [CHR 0xE2, CHR 0x80, CHR 0xA8],
      [CHR 0xE2, CHR 0x80, CHR 0xA9], [CHR 0xE2, CHR 0x80, CHR 0xAF],
      [CHR 0xE2, CHR 0x81, CHR 0x9F], [CHR 0xE3, CHR 0x80, CHR 0x80]]"

text \<open>The length of the sequence of \<open>qs\<close> that starts \<open>s\<close>, 0 if there is none.\<close>

fun lead_len :: "string list \<Rightarrow> string \<Rightarrow> nat" where
  "lead_len [] s = 0"
| "lead_len (q # qs) s = (if has_prefix s q then length q else lead_len qs s)"

lemma lead_len_Nil: "lead_len qs [] = 0"
  by (induction qs) (auto simp: has_prefix_iff)

function trim_seqs :: "string list \<Rightarrow> string \<Rightarrow> string" where
  "trim_seqs qs s = (if lead_len qs s = 0 then s else trim_seqs qs (drop (lead_len qs s) s))"
  by pat_completeness auto
termination
proof (relation "measure (\<lambda>(qs, s). length s)", goal_cases)
  case (2 qs s)
  then have "s \<noteq> []" by (auto simp: lead_len_Nil)
  with 2 show ?case by simp
qed simp

declare trim_seqs.simps [simp del]

definition trim_space :: "string \<Rightarrow> string" where
  "trim_space s = rev (trim_seqs (map rev space_seqs) (rev (trim_seqs space_seqs s)))"

lemma trim_seqs_id: "lead_len qs s = 0 \<Longrightarrow> trim_seqs qs s = s"
  by (simp add: trim_seqs.simps)

text \<open>Every byte that starts or ends the encoding of a space.\<close>

definition space_edge :: "char \<Rightarrow> bool" where
  "space_edge c = (c \<in> set (map hd space_seqs) \<or> c \<in> set (map last space_seqs))"

lemma lead_len_0:
  assumes "\<forall>q \<in> set qs. q \<noteq> []" and "s = [] \<or> hd s \<notin> set (map hd qs)"
  shows "lead_len qs s = 0"
  using assms
proof (induction qs)
  case (Cons q qs)
  then have "\<not> has_prefix s q"
    by (cases s; cases q) auto
  with Cons show ?case by auto
qed simp

lemma space_seqs_nonempty: "\<forall>q \<in> set space_seqs. q \<noteq> []"
  by (simp add: space_seqs_def)

lemma trim_space_id:
  assumes "s = [] \<or> \<not> space_edge (hd s) \<and> \<not> space_edge (last s)"
  shows "trim_space s = s"
proof -
  have "lead_len space_seqs s = 0"
    using assms by (intro lead_len_0) (auto simp: space_seqs_nonempty space_edge_def)
  moreover have "lead_len (map rev space_seqs) (rev s) = 0"
  proof (rule lead_len_0)
    show "\<forall>q \<in> set (map rev space_seqs). q \<noteq> []" by (simp add: space_seqs_def)
    have "set (map hd (map rev space_seqs)) = set (map last space_seqs)"
      by (simp add: space_seqs_def)
    then show "rev s = [] \<or> hd (rev s) \<notin> set (map hd (map rev space_seqs))"
      using assms by (auto simp: space_edge_def hd_rev)
  qed
  ultimately show ?thesis by (simp add: trim_space_def trim_seqs_id)
qed

section \<open>Letter case\<close>

definition byte :: "char \<Rightarrow> nat" where
  "byte c = of_char c"

definition is_upper :: "char \<Rightarrow> bool" where
  "is_upper c = (65 \<le> byte c \<and> byte c \<le> 90)"

definition is_lower :: "char \<Rightarrow> bool" where
  "is_lower c = (97 \<le> byte c \<and> byte c \<le> 122)"

definition is_digit :: "char \<Rightarrow> bool" where
  "is_digit c = (48 \<le> byte c \<and> byte c \<le> 57)"

definition is_alnum :: "char \<Rightarrow> bool" where
  "is_alnum c = (is_lower c \<or> is_upper c \<or> is_digit c)"

definition lower_byte :: "char \<Rightarrow> char" where
  "lower_byte c = (if is_upper c then char_of (byte c + 32) else c)"

definition to_lower :: "string \<Rightarrow> string" where
  "to_lower s = map lower_byte s"

lemma to_lower_id: "\<forall>c \<in> set s. \<not> is_upper c \<Longrightarrow> to_lower s = s"
  by (induction s) (auto simp: to_lower_def lower_byte_def)

text \<open>
  \<open>strings.EqualFold(s, t)\<close> where \<open>t\<close> is ASCII and holds neither \<open>k\<close> nor \<open>s\<close> in a place where a
  longer encoding could fold to it: comparison of the lower-cased bytes.
\<close>

definition equal_fold :: "string \<Rightarrow> string \<Rightarrow> bool" where
  "equal_fold s t = (to_lower s = to_lower t)"

lemma equal_fold_refl [simp]: "equal_fold s s"
  by (simp add: equal_fold_def)

text \<open>\<open>firstNonEmpty\<close>-style choice is in the components; \<open>strings\<close> itself ends here.\<close>

end
