(* ===== verification/Go_Net.thy ===== *)
theory Go_Net
  imports Go_Strings
begin

text \<open>
  What the program uses of Go's \<open>net\<close> package (\<open>SplitHostPort\<close>, \<open>JoinHostPort\<close>) and, for the
  bracketed hosts of URLs, whether \<open>net/netip.ParseAddr\<close> accepts a string as an IPv6 address.
\<close>

section \<open>Host and port\<close>

definition join_host_port :: "string \<Rightarrow> string \<Rightarrow> string" where
  "join_host_port host port =
     (if CHR '':'' \<in> set host then ''['' @ host @ '']:'' @ port else host @ '':'' @ port)"

definition split_host_port :: "string \<Rightarrow> go_error + string \<times> string" where
  "split_host_port hp =
     (case cut_last hp (CHR '':'') of
        None \<Rightarrow> Inl (errorf ''missing port in address'' [hp])
      | Some (pre, port) \<Rightarrow>
          if has_prefix hp ''['' then
            (case cut_byte hp (CHR '']'') of (a, b, found) \<Rightarrow>
               if \<not> found then Inl (errorf ''missing ']' in address'' [hp])
               else if b = [] then Inl (errorf ''missing port in address'' [hp])
               else if length pre \<noteq> length a + 1 then
                 (if has_prefix b '':'' then Inl (errorf ''too many colons in address'' [hp])
                  else Inl (errorf ''missing port in address'' [hp]))
               else if CHR ''['' \<in> set (drop 1 hp) then Inl (errorf ''unexpected '[' in address'' [hp])
               else if CHR '']'' \<in> set b then Inl (errorf ''unexpected ']' in address'' [hp])
               else Inr (drop 1 a, port))
          else if CHR '':'' \<in> set pre then Inl (errorf ''too many colons in address'' [hp])
          else if CHR ''['' \<in> set hp then Inl (errorf ''unexpected '[' in address'' [hp])
          else if CHR '']'' \<in> set hp then Inl (errorf ''unexpected ']' in address'' [hp])
          else Inr (pre, port))"

lemma has_prefix_single: "has_prefix s [c] \<longleftrightarrow> s \<noteq> [] \<and> hd s = c"
  by (cases s) auto

text \<open>A host without brackets survives joining and splitting, colons or not.\<close>

lemma split_join_host_port:
  assumes "CHR ''['' \<notin> set host" "CHR '']'' \<notin> set host"
    and "CHR ''['' \<notin> set port" "CHR '']'' \<notin> set port" "CHR '':'' \<notin> set port"
  shows "split_host_port (join_host_port host port) = Inr (host, port)"
proof (cases "CHR '':'' \<in> set host")
  case True
  let ?hp = "CHR ''['' # host @ CHR '']'' # CHR '':'' # port"
  have "cut_last ?hp (CHR '':'') = Some (CHR ''['' # host @ '']'', port)"
    using cut_last_found [of "CHR '':''" port "CHR ''['' # host @ '']''"] assms(5) by simp
  moreover have "cut_byte ?hp (CHR '']'') = (CHR ''['' # host, CHR '':'' # port, True)"
    using cut_byte_found [of "CHR '']''" "CHR ''['' # host"] assms(2) by simp
  ultimately show ?thesis
    using True assms by (simp add: split_host_port_def join_host_port_def)
next
  case False
  have "cut_last (host @ CHR '':'' # port) (CHR '':'') = Some (host, port)"
    using assms(5) by simp
  moreover have "\<not> has_prefix (host @ CHR '':'' # port) ''[''"
    using assms(1) by (cases host) (auto simp: has_prefix_single)
  ultimately show ?thesis
    using False assms by (simp add: split_host_port_def join_host_port_def)
qed

section \<open>IPv6 literals\<close>

definition is_hex :: "char \<Rightarrow> bool" where
  "is_hex c = (is_digit c \<or> (97 \<le> byte c \<and> byte c \<le> 102) \<or> (65 \<le> byte c \<and> byte c \<le> 70))"

text \<open>One decimal field of an embedded IPv4 address: 1 to 3 digits, at most 255, no leading 0.\<close>

definition ip4_field :: "string \<Rightarrow> bool" where
  "ip4_field f =
     (f \<noteq> [] \<and> length f \<le> 3 \<and> (\<forall>c \<in> set f. is_digit c) \<and>
      (length f = 1 \<or> hd f \<noteq> CHR ''0'') \<and>
      foldl (\<lambda>acc c. acc * 10 + (byte c - 48)) 0 f \<le> 255)"

definition ip4_fields :: "string \<Rightarrow> bool" where
  "ip4_fields s =
     (let fs = split_byte s (CHR ''.'') in length fs = 4 \<and> list_all ip4_field fs)"

text \<open>
  The loop of \<open>netip.parseIPv6\<close>: \<open>left\<close> is the number of 16-bit groups still unread (the code's
  \<open>(16 - i) / 2\<close>), \<open>ell\<close> whether an ellipsis was seen.
\<close>

fun ip6_groups :: "nat \<Rightarrow> bool \<Rightarrow> string \<Rightarrow> bool" where
  "ip6_groups 0 ell s = (s = [] \<and> \<not> ell)"
| "ip6_groups (Suc left) ell s =
     (let d = takeWhile is_hex s; r = dropWhile is_hex s in
      if d = [] \<or> length d > 4 then False
      else if has_prefix r ''.'' then
        (if \<not> ell \<and> Suc left \<noteq> 2 then False
         else if Suc left < 2 then False
         else ip4_fields s \<and> (if Suc left = 2 then \<not> ell else ell))
      else if r = [] then (if left = 0 then \<not> ell else ell)
      else if \<not> has_prefix r '':'' then False
      else (case drop 1 r of
              [] \<Rightarrow> False
            | c # t \<Rightarrow>
                if c = CHR '':'' then
                  (if ell then False
                   else if t = [] then left \<noteq> 0
                   else ip6_groups left True t)
                else ip6_groups left ell (c # t)))"

definition parse_ip6 :: "string \<Rightarrow> bool" where
  "parse_ip6 a =
     (case cut_byte a (CHR ''%'') of (s, zone, found) \<Rightarrow>
        if found \<and> zone = [] then False
        else if has_prefix s ''::'' then
          (let t = drop 2 s in t = [] \<or> ip6_groups 8 True t)
        else ip6_groups 8 False s)"

text \<open>
  \<open>netip.ParseAddr\<close> decides by the first of \<open>.\<close>, \<open>:\<close> and \<open>%\<close>; only the IPv6 answer matters here.
\<close>

definition is_ip6 :: "string \<Rightarrow> bool" where
  "is_ip6 a =
     (case dropWhile (\<lambda>c. c \<notin> set ''.:%'') a of
        [] \<Rightarrow> False | c # _ \<Rightarrow> c = CHR '':'' \<and> parse_ip6 a)"

lemma is_ip6_examples:
  "is_ip6 ''::1''" "is_ip6 ''fe80::1%en0''" "is_ip6 ''2001:db8::10.0.0.1''"
  "\<not> is_ip6 ''127.0.0.1''" "\<not> is_ip6 ''1::2::3''" "\<not> is_ip6 ''1:2:3:4:5:6:7''"
  by code_simp+

end
