(* ===== verification/Go_Url.thy ===== *)
theory Go_Url
  imports Go_Net
begin

text \<open>
  What the program uses of Go's \<open>net/url\<close>: \<open>Parse\<close>, \<open>URL.String\<close>, \<open>URL.EscapedPath\<close>,
  \<open>QueryEscape\<close> and \<open>Query().Get\<close>, as of the Go release \<open>go.mod\<close> names (1.26.1: strict
  colons in hosts, IPv6 literals only at the start of the host and validated).
\<close>

section \<open>Percent encoding\<close>

datatype enc_mode =
  EncPath | EncUserPassword | EncQueryComponent | EncHost | EncZone | EncFragment

definition should_escape :: "enc_mode \<Rightarrow> char \<Rightarrow> bool" where
  "should_escape m c =
     (if is_alnum c then False
      else if m \<in> {EncHost, EncZone} \<and> c \<in> set (CHR 0x27 # ''!$&()*+,;=:[]<>'' @ [CHR 0x22]) then False
      else if c \<in> set ''-_.~'' then False
      else if c \<in> set ''$&+,/:;=?@'' \<and> m \<notin> {EncHost, EncZone} then
        (case m of
           EncPath \<Rightarrow> c = CHR ''?''
         | EncUserPassword \<Rightarrow> c \<in> set ''@/?:''
         | EncQueryComponent \<Rightarrow> True
         | _ \<Rightarrow> False)
      else if m = EncFragment \<and> c \<in> set ''!()*'' then False
      else True)"

definition hex_digit :: "nat \<Rightarrow> char" where
  "hex_digit n = (if n < 10 then char_of (48 + n) else char_of (55 + n))"

definition unhex :: "char \<Rightarrow> nat" where
  "unhex c = (if is_digit c then byte c - 48
              else if 97 \<le> byte c \<and> byte c \<le> 102 then byte c - 87 else byte c - 55)"

fun escape :: "enc_mode \<Rightarrow> string \<Rightarrow> string" where
  "escape m [] = []"
| "escape m (c # s) =
     (if should_escape m c then
        (if c = CHR '' '' \<and> m = EncQueryComponent then CHR ''+'' # escape m s
         else CHR ''%'' # hex_digit (byte c div 16) # hex_digit (byte c mod 16) # escape m s)
      else c # escape m s)"

fun unescape :: "enc_mode \<Rightarrow> string \<Rightarrow> go_error + string" where
  "unescape m [] = Inr []"
| "unescape m (c # s) =
     (if c = CHR ''%'' then
        (case s of
           a # b # t \<Rightarrow>
             let v = 16 * unhex a + unhex b in
             if \<not> (is_hex a \<and> is_hex b) then Inl (errorf ''invalid URL escape %q'' [[c, a, b]])
             else if m = EncHost \<and> unhex a < 8 \<and> [a, b] \<noteq> ''25'' then
               Inl (errorf ''invalid URL escape %q'' [[c, a, b]])
             else if m = EncZone \<and> [a, b] \<noteq> ''25'' \<and> char_of v \<noteq> CHR '' '' \<and>
                     should_escape EncHost (char_of v) then
               Inl (errorf ''invalid URL escape %q'' [[c, a, b]])
             else (case unescape m t of Inl e \<Rightarrow> Inl e | Inr r \<Rightarrow> Inr (char_of v # r))
         | _ \<Rightarrow> Inl (errorf ''invalid URL escape %q'' [c # s]))
      else if c = CHR ''+'' then
        (case unescape m s of
           Inl e \<Rightarrow> Inl e
         | Inr r \<Rightarrow> Inr ((if m = EncQueryComponent then CHR '' '' else c) # r))
      else if m \<in> {EncHost, EncZone} \<and> byte c < 128 \<and> should_escape m c then
        Inl (errorf ''invalid character %q in host name'' [[c]])
      else (case unescape m s of Inl e \<Rightarrow> Inl e | Inr r \<Rightarrow> Inr (c # r)))"

definition valid_encoded :: "enc_mode \<Rightarrow> string \<Rightarrow> bool" where
  "valid_encoded m s =
     list_all (\<lambda>c. c \<in> set (CHR 0x27 # ''!$&()*+,;=:@[]%'') \<or> \<not> should_escape m c) s"

lemma byte_less [simp]: "byte c < 256"
  by (simp add: byte_def)

lemma byte_char_of [simp]: "byte (char_of n) = n mod 256"
  by (simp add: byte_def)

lemma char_of_byte [simp]: "char_of (byte c) = c"
  by (simp add: byte_def)

lemma byte_inject [simp]: "byte c = byte d \<longleftrightarrow> c = d"
  by (metis char_of_byte)

lemma hex_digit_props:
  assumes "n < 16"
  shows "is_hex (hex_digit n)" "unhex (hex_digit n) = n"
  using assms by (auto simp: hex_digit_def is_hex_def unhex_def is_digit_def)

lemma not_escaped_special:
  "\<not> should_escape m c \<Longrightarrow> c \<noteq> CHR ''%''"
  "\<not> should_escape EncQueryComponent c \<Longrightarrow> c \<noteq> CHR ''+''"
  by (auto simp: should_escape_def is_alnum_def is_lower_def is_upper_def is_digit_def byte_def
      split: if_splits)

lemma byte_split: "16 * (byte c div 16) + byte c mod 16 = byte c"
  by simp

text \<open>Decoding undoes encoding in every mode that may encode any byte.\<close>

lemma unescape_escape:
  assumes "m \<notin> {EncHost, EncZone}"
  shows "unescape m (escape m s) = Inr s"
proof (induction s)
  case (Cons c s)
  have lt: "byte c div 16 < 16" "byte c mod 16 < 16"
    using byte_less [of c] by (auto simp del: byte_less)
  note hx = hex_digit_props [OF lt(1)] hex_digit_props [OF lt(2)]
  show ?case
  proof (cases "should_escape m c")
    case True
    show ?thesis
    proof (cases "c = CHR '' '' \<and> m = EncQueryComponent")
      case True
      with \<open>should_escape m c\<close> Cons assms show ?thesis by simp
    next
      case False
      with True Cons assms show ?thesis
        by (auto simp: hx Let_def byte_split)
    qed
  next
    case False
    with Cons assms not_escaped_special show ?thesis
      by auto
  qed
qed simp

lemma escape_id: "\<forall>c \<in> set s. \<not> should_escape m c \<Longrightarrow> escape m s = s"
  by (induction s) auto

text \<open>A string of bytes that a host may hold unescaped is its own decoding.\<close>

lemma unescape_id:
  assumes "\<forall>c \<in> set s. \<not> should_escape m c" and "m \<noteq> EncQueryComponent"
  shows "unescape m s = Inr s"
  using assms by (induction s) (auto dest: not_escaped_special)

section \<open>The URL record and its parser\<close>

record userinfo =
  ui_username :: string
  ui_password :: "string option"

record url =
  u_scheme :: string
  u_opaque :: string
  u_user :: "userinfo option"
  u_host :: string
  u_path :: string
  u_raw_path :: string
  u_omit_host :: bool
  u_force_query :: bool
  u_raw_query :: string
  u_fragment :: string
  u_raw_fragment :: string

definition empty_url :: url where
  "empty_url = \<lparr>u_scheme = [], u_opaque = [], u_user = None, u_host = [], u_path = [],
     u_raw_path = [], u_omit_host = False, u_force_query = False, u_raw_query = [],
     u_fragment = [], u_raw_fragment = []\<rparr>"

definition is_ctl :: "char \<Rightarrow> bool" where
  "is_ctl c = (byte c < 32 \<or> byte c = 127)"

definition is_letter :: "char \<Rightarrow> bool" where
  "is_letter c = (is_lower c \<or> is_upper c)"

text \<open>\<open>getScheme\<close>: \<open>i\<close> tells whether a byte was already consumed, \<open>acc\<close> holds them reversed.\<close>

fun get_scheme_from :: "string \<Rightarrow> string \<Rightarrow> string \<Rightarrow> go_error + string \<times> string" where
  "get_scheme_from raw acc [] = Inr ([], raw)"
| "get_scheme_from raw acc (c # s) =
     (if is_letter c then get_scheme_from raw (c # acc) s
      else if is_digit c \<or> c \<in> set ''+-.'' then
        (if acc = [] then Inr ([], raw) else get_scheme_from raw (c # acc) s)
      else if c = CHR '':'' then
        (if acc = [] then Inl (errorf ''missing protocol scheme'' []) else Inr (rev acc, s))
      else Inr ([], raw))"

definition get_scheme :: "string \<Rightarrow> go_error + string \<times> string" where
  "get_scheme raw = get_scheme_from raw [] raw"

definition valid_optional_port :: "string \<Rightarrow> bool" where
  "valid_optional_port p =
     (case p of [] \<Rightarrow> True | c # ds \<Rightarrow> c = CHR '':'' \<and> list_all is_digit ds)"

definition valid_userinfo :: "string \<Rightarrow> bool" where
  "valid_userinfo s =
     list_all (\<lambda>c. is_alnum c \<or> c \<in> set (CHR 0x27 # ''-._:~!$&()*+,;=%@'')) s"

text \<open>\<open>strings.Index(s, "%25")\<close>, as the text before and from the first occurrence.\<close>

fun cut_zone :: "string \<Rightarrow> (string \<times> string) option" where
  "cut_zone [] = None"
| "cut_zone (c # s) =
     (if has_prefix (c # s) ''%25'' then Some ([], c # s)
      else map_option (\<lambda>(a, b). (c # a, b)) (cut_zone s))"

definition parse_host :: "string \<Rightarrow> go_error + string" where
  "parse_host h =
     (case cut_last h (CHR ''['') of
        Some (pre, rest) \<Rightarrow>
          if pre \<noteq> [] then Inl (errorf ''invalid IP-literal'' [])
          else (case cut_last h (CHR '']'') of
             None \<Rightarrow> Inl (errorf ''missing ']' in host'' [])
           | Some (inner, port) \<Rightarrow>
               if \<not> valid_optional_port port then Inl (errorf ''invalid port %q after host'' [port])
               else
                 let name = drop 1 inner;
                     decoded = (case cut_zone name of
                        None \<Rightarrow> unescape EncHost name
                      | Some (a, z) \<Rightarrow>
                          (case unescape EncHost a of
                             Inl e \<Rightarrow> Inl e
                           | Inr a' \<Rightarrow> (case unescape EncZone z of
                               Inl e \<Rightarrow> Inl e | Inr z' \<Rightarrow> Inr (a' @ z'))))
                 in (case decoded of
                       Inl e \<Rightarrow> Inl e
                     | Inr name' \<Rightarrow>
                         if is_ip6 name' then Inr (''['' @ name' @ '']'' @ port)
                         else Inl (errorf ''invalid host'' [name'])))
      | None \<Rightarrow>
          (case cut_byte h (CHR '':'') of (_, port, found) \<Rightarrow>
             if found \<and> \<not> list_all is_digit port
             then Inl (errorf ''invalid port %q after host'' [CHR '':'' # port])
             else unescape EncHost h))"

definition parse_authority :: "string \<Rightarrow> go_error + userinfo option \<times> string" where
  "parse_authority a =
     (case cut_last a (CHR ''@'') of
        None \<Rightarrow> (case parse_host a of Inl e \<Rightarrow> Inl e | Inr h \<Rightarrow> Inr (None, h))
      | Some (ui, h0) \<Rightarrow>
          (case parse_host h0 of
             Inl e \<Rightarrow> Inl e
           | Inr h \<Rightarrow>
               if \<not> valid_userinfo ui then Inl (errorf ''net/url: invalid userinfo'' [])
               else (case cut_byte ui (CHR '':'') of (n, p, found) \<Rightarrow>
                  (case unescape EncUserPassword n of
                     Inl e \<Rightarrow> Inl e
                   | Inr n' \<Rightarrow>
                       if \<not> found then
                         Inr (Some \<lparr>ui_username = n', ui_password = None\<rparr>, h)
                       else (case unescape EncUserPassword p of
                          Inl e \<Rightarrow> Inl e
                        | Inr p' \<Rightarrow>
                            Inr (Some \<lparr>ui_username = n', ui_password = Some p'\<rparr>, h))))))"

definition set_path :: "url \<Rightarrow> string \<Rightarrow> go_error + url" where
  "set_path u p =
     (case unescape EncPath p of
        Inl e \<Rightarrow> Inl e
      | Inr q \<Rightarrow> Inr (u\<lparr>u_path := q, u_raw_path := (if p = escape EncPath q then [] else p)\<rparr>))"

definition set_fragment :: "url \<Rightarrow> string \<Rightarrow> go_error + url" where
  "set_fragment u f =
     (case unescape EncFragment f of
        Inl e \<Rightarrow> Inl e
      | Inr q \<Rightarrow>
          Inr (u\<lparr>u_fragment := q, u_raw_fragment := (if f = escape EncFragment q then [] else f)\<rparr>))"

text \<open>The query is cut off first; \<open>ForceQuery\<close> records a lone trailing question mark.\<close>

definition cut_query :: "string \<Rightarrow> string \<times> bool \<times> string" where
  "cut_query rest =
     (if has_suffix rest ''?'' \<and> count_byte rest (CHR ''?'') = 1 then (butlast rest, True, [])
      else (case cut_byte rest (CHR ''?'') of (a, q, _) \<Rightarrow> (a, False, q)))"

definition parse_hier :: "string \<Rightarrow> string \<Rightarrow> bool \<Rightarrow> string \<Rightarrow> go_error + url" where
  "parse_hier sch rest fq q =
     (let u = empty_url\<lparr>u_scheme := sch, u_force_query := fq, u_raw_query := q\<rparr> in
      if \<not> has_prefix rest ''/'' \<and> sch \<noteq> [] then Inr (u\<lparr>u_opaque := rest\<rparr>)
      else if \<not> has_prefix rest ''/'' \<and> CHR '':'' \<in> set (fst (cut_byte rest (CHR ''/''))) then
        Inl (errorf ''first path segment in URL cannot contain colon'' [])
      else if (sch \<noteq> [] \<or> \<not> has_prefix rest ''///'') \<and> has_prefix rest ''//'' then
        (let auth = takeWhile (\<lambda>c. c \<noteq> CHR ''/'') (drop 2 rest);
             p = dropWhile (\<lambda>c. c \<noteq> CHR ''/'') (drop 2 rest) in
         case parse_authority auth of
           Inl e \<Rightarrow> Inl e
         | Inr (ui, h) \<Rightarrow> set_path (u\<lparr>u_user := ui, u_host := h\<rparr>) p)
      else set_path (u\<lparr>u_omit_host := (sch \<noteq> [] \<and> has_prefix rest ''/'')\<rparr>) rest)"

definition parse_no_fragment :: "string \<Rightarrow> go_error + url" where
  "parse_no_fragment raw =
     (if list_ex is_ctl raw then Inl (errorf ''net/url: invalid control character in URL'' [])
      else if raw = ''*'' then Inr (empty_url\<lparr>u_path := ''*''\<rparr>)
      else (case get_scheme raw of
         Inl e \<Rightarrow> Inl e
       | Inr (sch, rest0) \<Rightarrow>
           (case cut_query rest0 of (rest, fq, q) \<Rightarrow> parse_hier (to_lower sch) rest fq q)))"

definition url_parse :: "string \<Rightarrow> go_error + url" where
  "url_parse raw =
     (case cut_byte raw (CHR ''#'') of (body, frag, _) \<Rightarrow>
        (case parse_no_fragment body of
           Inl e \<Rightarrow> Inl (wrapf ''parse %q: %w'' [body] e)
         | Inr u \<Rightarrow>
             if frag = [] then Inr u
             else (case set_fragment u frag of
                Inl e \<Rightarrow> Inl (wrapf ''parse %q: %w'' [raw] e)
              | Inr u' \<Rightarrow> Inr u')))"

section \<open>Printing\<close>

definition escaped_path :: "url \<Rightarrow> string" where
  "escaped_path u =
     (if u_raw_path u \<noteq> [] \<and> valid_encoded EncPath (u_raw_path u) \<and>
         unescape EncPath (u_raw_path u) = Inr (u_path u) then u_raw_path u
      else if u_path u = ''*'' then ''*''
      else escape EncPath (u_path u))"

definition escaped_fragment :: "url \<Rightarrow> string" where
  "escaped_fragment u =
     (if u_raw_fragment u \<noteq> [] \<and> valid_encoded EncFragment (u_raw_fragment u) \<and>
         unescape EncFragment (u_raw_fragment u) = Inr (u_fragment u) then u_raw_fragment u
      else escape EncFragment (u_fragment u))"

definition userinfo_string :: "userinfo \<Rightarrow> string" where
  "userinfo_string ui =
     escape EncUserPassword (ui_username ui) @
     (case ui_password ui of None \<Rightarrow> [] | Some p \<Rightarrow> '':'' @ escape EncUserPassword p)"

definition url_authority :: "url \<Rightarrow> string" where
  "url_authority u =
     (if u_scheme u \<noteq> [] \<or> u_host u \<noteq> [] \<or> u_user u \<noteq> None then
        (if u_omit_host u \<and> u_host u = [] \<and> u_user u = None then []
         else
           (if u_host u \<noteq> [] \<or> u_path u \<noteq> [] \<or> u_user u \<noteq> None then ''//'' else []) @
           (case u_user u of None \<Rightarrow> [] | Some ui \<Rightarrow> userinfo_string ui @ ''@'') @
           escape EncHost (u_host u))
      else [])"

definition url_string :: "url \<Rightarrow> string" where
  "url_string u =
     (let sch = (if u_scheme u \<noteq> [] then u_scheme u @ '':'' else []);
          body = (if u_opaque u \<noteq> [] then u_opaque u
            else
              (let auth = url_authority u; p = escaped_path u;
                   slash = (if p \<noteq> [] \<and> hd p \<noteq> CHR ''/'' \<and> u_host u \<noteq> [] then ''/'' else []);
                   dot = (if sch @ auth @ slash = [] \<and> CHR '':'' \<in> set (fst (cut_byte p (CHR ''/'')))
                          then ''./'' else [])
               in auth @ slash @ dot @ p)) in
      sch @ body @
      (if u_force_query u \<or> u_raw_query u \<noteq> [] then ''?'' @ u_raw_query u else []) @
      (if u_fragment u \<noteq> [] then ''#'' @ escaped_fragment u else []))"

section \<open>URLs of servers\<close>

text \<open>
  A server URL has a scheme, a host that prints as it parses, and an optional path.  The lemma
  below computes its parse; the components use it for the kcp and workspace URLs.
\<close>

definition scheme_ok :: "string \<Rightarrow> bool" where
  "scheme_ok s = (s \<noteq> [] \<and> is_lower (hd s) \<and>
     list_all (\<lambda>c. is_lower c \<or> is_digit c \<or> c \<in> set ''+-.'') s)"

definition host_ok :: "string \<Rightarrow> bool" where
  "host_ok h = (h \<noteq> [] \<and> parse_host h = Inr h \<and> escape EncHost h = h \<and>
     list_all (\<lambda>c. c \<notin> set ''/?#@'' \<and> \<not> is_ctl c) h)"

lemma host_ok_char: "host_ok h \<Longrightarrow> c \<in> set h \<Longrightarrow> c \<notin> set ''/?#@'' \<and> \<not> is_ctl c"
  unfolding host_ok_def list_all_iff by blast

lemma host_ok_chars_absent:
  assumes "host_ok h"
  shows "CHR ''/'' \<notin> set h" "CHR ''?'' \<notin> set h" "CHR ''#'' \<notin> set h" "CHR ''@'' \<notin> set h"
  using host_ok_char [OF assms] by force+

definition path_char :: "char \<Rightarrow> bool" where
  "path_char c = (\<not> should_escape EncPath c \<and> c \<noteq> CHR ''?'' \<and> c \<noteq> CHR ''#'' \<and> \<not> is_ctl c)"

definition path_ok :: "string \<Rightarrow> bool" where
  "path_ok p = ((p = [] \<or> hd p = CHR ''/'') \<and> list_all path_char p)"

lemma get_scheme_from_ok:
  assumes "list_all (\<lambda>c. is_lower c \<or> is_digit c \<or> c \<in> set ''+-.'') s" and "acc \<noteq> []"
  shows "get_scheme_from raw acc (s @ CHR '':'' # t) = Inr (rev acc @ s, t)"
  using assms
  by (induction s arbitrary: acc) (auto simp: is_letter_def is_lower_def is_upper_def is_digit_def byte_def)

lemma get_scheme_ok:
  assumes "scheme_ok s"
  shows "get_scheme (s @ CHR '':'' # t) = Inr (s, t)"
proof -
  obtain c s' where s: "s = c # s'" using assms by (cases s) (auto simp: scheme_ok_def)
  with assms show ?thesis
    by (simp add: scheme_ok_def get_scheme_def get_scheme_from_ok is_letter_def)
qed

lemma scheme_ok_lower: "scheme_ok s \<Longrightarrow> to_lower s = s"
  by (rule to_lower_id)
    (auto simp: scheme_ok_def list_all_iff is_lower_def is_upper_def is_digit_def byte_def)

lemma scheme_ok_chars:
  assumes "scheme_ok s" "c \<in> set s"
  shows "\<not> is_ctl c" "c \<noteq> CHR ''#'' \<and> c \<noteq> CHR ''?'' \<and> c \<noteq> CHR '':'' \<and> c \<noteq> CHR ''*''"
  using assms
  by (auto simp: scheme_ok_def list_all_iff is_lower_def is_digit_def is_ctl_def byte_def)

lemma path_ok_unescape: "path_ok p \<Longrightarrow> unescape EncPath p = Inr p"
  by (rule unescape_id) (auto simp: path_ok_def path_char_def list_all_iff)

lemma path_ok_escape: "path_ok p \<Longrightarrow> escape EncPath p = p"
  by (rule escape_id) (auto simp: path_ok_def path_char_def list_all_iff)

lemma host_path_split:
  assumes "host_ok h" "path_ok p"
  shows "takeWhile (\<lambda>c. c \<noteq> CHR ''/'') (h @ p) = h" "dropWhile (\<lambda>c. c \<noteq> CHR ''/'') (h @ p) = p"
proof -
  have h: "CHR ''/'' \<notin> set h" using assms(1) by (rule host_ok_chars_absent)
  show "takeWhile (\<lambda>c. c \<noteq> CHR ''/'') (h @ p) = h" "dropWhile (\<lambda>c. c \<noteq> CHR ''/'') (h @ p) = p"
    using h assms(2) by (cases p; force simp: path_ok_def)+
qed

lemma has_suffix_single: "has_suffix s [c] \<longleftrightarrow> s \<noteq> [] \<and> last s = c"
  by (cases s rule: rev_cases) (auto simp: has_suffix_def)

lemma cut_query_none: "CHR ''?'' \<notin> set r \<Longrightarrow> cut_query r = (r, False, [])"
proof -
  assume "CHR ''?'' \<notin> set r"
  then have "\<not> has_suffix r ''?''" by (auto simp: has_suffix_iff)
  with \<open>CHR ''?'' \<notin> set r\<close> show ?thesis by (simp add: cut_query_def)
qed

definition server_url :: "string \<Rightarrow> string \<Rightarrow> string \<Rightarrow> url" where
  "server_url s h p = empty_url\<lparr>u_scheme := s, u_host := h, u_path := p\<rparr>"

lemma parse_server_url:
  assumes s: "scheme_ok s" and h: "host_ok h" and p: "path_ok p"
  shows "url_parse (s @ ''://'' @ h @ p) = Inr (server_url s h p)"
proof -
  let ?r = "''//'' @ h @ p"
  have raw: "s @ ''://'' @ h @ p = s @ CHR '':'' # ?r" by simp
  have hc: "\<forall>c \<in> set h. \<not> is_ctl c \<and> c \<noteq> CHR ''#'' \<and> c \<noteq> CHR ''?''"
    using host_ok_char [OF h] by auto
  have pc: "\<forall>c \<in> set p. \<not> is_ctl c \<and> c \<noteq> CHR ''#'' \<and> c \<noteq> CHR ''?''"
    using p by (auto simp: path_ok_def path_char_def list_all_iff)
  have sc: "\<forall>c \<in> set s. \<not> is_ctl c \<and> c \<noteq> CHR ''#''"
    using scheme_ok_chars [OF s] by blast
  have lit: "\<not> is_ctl (CHR ''/'')" "\<not> is_ctl (CHR '':'')" by (simp_all add: is_ctl_def byte_def)
  have chars: "\<forall>c \<in> set (s @ CHR '':'' # ?r). \<not> is_ctl c \<and> c \<noteq> CHR ''#''"
    using hc pc sc lit by (simp add: ball_Un)
  have "CHR ''?'' \<notin> set h" "CHR ''?'' \<notin> set p" using hc pc by auto
  then have q: "CHR ''?'' \<notin> set ?r" by simp
  have noctl: "\<not> list_ex is_ctl (s @ CHR '':'' # ?r)"
    unfolding list_ex_iff using chars by metis
  have nostar: "s @ CHR '':'' # ?r \<noteq> ''*''" using s by (cases s) (auto simp: scheme_ok_def)
  have "cut_last h (CHR ''@'') = None" using host_ok_chars_absent [OF h] by simp
  then have "parse_authority h = Inr (None, h)"
    using h by (simp add: parse_authority_def host_ok_def)
  then have "parse_hier s ?r False [] = Inr (server_url s h p)"
    using s p host_path_split [OF h p]
    by (auto simp: parse_hier_def Let_def scheme_ok_def set_path_def path_ok_unescape
        path_ok_escape server_url_def empty_url_def)
  then have "parse_no_fragment (s @ CHR '':'' # ?r) = Inr (server_url s h p)"
    using noctl nostar cut_query_none [OF q] get_scheme_ok [OF s] scheme_ok_lower [OF s]
    by (simp add: parse_no_fragment_def)
  moreover have "cut_byte (s @ CHR '':'' # ?r) (CHR ''#'') = (s @ CHR '':'' # ?r, [], False)"
    using chars by (intro cut_byte_none) blast
  ultimately show ?thesis unfolding raw url_parse_def by simp
qed

lemma string_server_url:
  assumes "scheme_ok s" and "host_ok h" and "path_ok p"
  shows "url_string (server_url s h p) = s @ ''://'' @ h @ p"
  using assms
  by (auto simp: server_url_def url_string_def url_authority_def empty_url_def escaped_path_def
      path_ok_escape host_ok_def scheme_ok_def Let_def path_ok_def)

text \<open>A plain DNS name or IPv4 address, with or without a numeric port, is a host of that kind.\<close>

definition plain_name :: "string \<Rightarrow> bool" where
  "plain_name n = (n \<noteq> [] \<and> list_all (\<lambda>c. is_alnum c \<or> c \<in> set ''-.'') n)"

definition plain_port :: "string \<Rightarrow> bool" where
  "plain_port p = (p \<noteq> [] \<and> list_all is_digit p)"

lemma plain_char:
  assumes "is_alnum c \<or> c \<in> set ''-.:''"
  shows "\<not> should_escape EncHost c" "c \<notin> set ''/?#@[]''" "\<not> is_ctl c"
  using assms
  by (auto simp: should_escape_def is_alnum_def is_lower_def is_upper_def is_digit_def is_ctl_def
      byte_def)

lemma plain_unescape:
  assumes "\<forall>c \<in> set h. is_alnum c \<or> c \<in> set ''-.:''"
  shows "unescape EncHost h = Inr h"
proof (rule unescape_id)
  show "\<forall>c \<in> set h. \<not> should_escape EncHost c"
    using assms plain_char(1) by blast
qed simp

lemma host_ok_chars:
  assumes "h \<noteq> []" "list_all (\<lambda>c. is_alnum c \<or> c \<in> set ''-.:'') h"
    and "parse_host h = Inr h"
  shows "host_ok h"
proof -
  have ch: "\<forall>c \<in> set h. is_alnum c \<or> c \<in> set ''-.:''" using assms(2) by (simp only: list_all_iff)
  have "escape EncHost h = h" using ch plain_char(1) by (intro escape_id) blast
  moreover have "c \<notin> set ''/?#@'' \<and> \<not> is_ctl c" if "c \<in> set h" for c
    using plain_char(2,3) [of c] ch that by auto
  ultimately show ?thesis using assms(1,3) unfolding host_ok_def list_all_iff by blast
qed

lemma host_ok_name:
  assumes "plain_name n"
  shows "host_ok n"
proof (rule host_ok_chars)
  have ch: "\<forall>c \<in> set n. is_alnum c \<or> c \<in> set ''-.''"
    using assms by (auto simp: plain_name_def list_all_iff)
  then have col: "CHR '':'' \<notin> set n" and br: "CHR ''['' \<notin> set n"
    by (auto simp: is_alnum_def is_lower_def is_upper_def is_digit_def byte_def)
  have "unescape EncHost n = Inr n"
    using ch by (intro plain_unescape) auto
  then show "parse_host n = Inr n" using col br by (simp add: parse_host_def)
  show "n \<noteq> []" using assms by (simp add: plain_name_def)
  show "list_all (\<lambda>c. is_alnum c \<or> c \<in> set ''-.:'') n" using ch by (auto simp: list_all_iff)
qed

lemma host_ok_name_port:
  assumes n: "plain_name n" and p: "plain_port p"
  shows "host_ok (n @ '':'' @ p)"
proof (rule host_ok_chars)
  have ch: "\<forall>c \<in> set n. is_alnum c \<or> c \<in> set ''-.''" and cp: "\<forall>c \<in> set p. is_digit c"
    using assms by (auto simp: plain_name_def plain_port_def list_all_iff)
  have col: "CHR '':'' \<notin> set n" and br: "CHR ''['' \<notin> set (n @ '':'' @ p)"
    using ch cp by (auto simp: is_alnum_def is_lower_def is_upper_def is_digit_def byte_def)
  show all: "list_all (\<lambda>c. is_alnum c \<or> c \<in> set ''-.:'') (n @ '':'' @ p)"
    using ch cp by (auto simp: list_all_iff is_alnum_def)
  then have "unescape EncHost (n @ '':'' @ p) = Inr (n @ '':'' @ p)"
    by (intro plain_unescape) (simp only: list_all_iff)
  then show "parse_host (n @ '':'' @ p) = Inr (n @ '':'' @ p)"
    using br col cut_byte_found [OF col, of p] cp by (simp add: parse_host_def list_all_iff)
qed (use n in \<open>simp add: plain_name_def\<close>)

end
