(* ===== verification/Kube_Types.thy ===== *)
theory Kube_Types
  imports Dbaas_Prelude
begin

text \<open>
  The objects the program reads and writes.  The types of \<open>api/v1alpha1\<close> are the repository's
  own; the others are the Kubernetes, kcp, Cluster API and client-go structs, with the fields the
  program uses.  A pointer field is an option, a possibly nil map an optional association list.
\<close>

section \<open>The tenant-facing Kubernetes API (api/v1alpha1)\<close>

record machine_count =
  mc_controlPlane :: int
  mc_worker :: int

record kubernetes_spec =
  ks_allowScheduling :: "bool option"
  ks_machineCount :: machine_count

record kubernetes_status =
  kst_phase :: string
  kst_ready :: bool
  kst_url :: string
  kst_mountedWorkspace :: string

datatype timestamp = ZeroTime | At nat

record kubernetes =
  ku_namespace :: string
  ku_name :: string
  ku_annotations :: "string gomap option"
  ku_finalizers :: "string list"
  ku_deletion :: "timestamp option"
  ku_spec :: kubernetes_spec
  ku_status :: kubernetes_status

section \<open>client-go configurations and kubeconfigs\<close>

record rest_config =
  rc_host :: string
  rc_bearerToken :: string
  rc_certData :: string
  rc_keyData :: string
  rc_caData :: string
  rc_certFile :: string
  rc_keyFile :: string
  rc_insecure :: bool

record kc_cluster =
  kcl_server :: string
  kcl_insecure :: bool
  kcl_caData :: string

record auth_info =
  au_token :: string
  au_certData :: string
  au_keyData :: string
  au_certFile :: string
  au_keyFile :: string

record kc_context =
  kcx_cluster :: string
  kcx_authInfo :: string

record kube_config =
  kc_clusters :: "kc_cluster gomap"
  kc_authInfos :: "auth_info gomap"
  kc_contexts :: "kc_context gomap"
  kc_current :: string

text \<open>\<open>clientcmdapi.NewCluster\<close>, \<open>NewAuthInfo\<close>, \<open>NewContext\<close>, \<open>NewConfig\<close>: the zero values.\<close>

definition new_cluster :: kc_cluster where
  "new_cluster = \<lparr>kcl_server = [], kcl_insecure = False, kcl_caData = []\<rparr>"

definition new_auth_info :: auth_info where
  "new_auth_info =
     \<lparr>au_token = [], au_certData = [], au_keyData = [], au_certFile = [], au_keyFile = []\<rparr>"

definition new_context :: kc_context where
  "new_context = \<lparr>kcx_cluster = [], kcx_authInfo = []\<rparr>"

definition new_config :: kube_config where
  "new_config = \<lparr>kc_clusters = [], kc_authInfos = [], kc_contexts = [], kc_current = []\<rparr>"

section \<open>kcp objects\<close>

record mount_ref =
  mr_apiVersion :: string
  mr_kind :: string
  mr_name :: string
  mr_namespace :: string

record workspace =
  ws_apiVersion :: string
  ws_kind :: string
  ws_name :: string
  ws_annotations :: "string gomap option"
  ws_deletion :: "timestamp option"
  ws_type :: "string option"
  ws_mount :: "mount_ref option"
  ws_cluster :: string
  ws_url :: string
  ws_phase :: string

record condition =
  cond_type :: string
  cond_status :: string
  cond_message :: string

record logical_cluster =
  lc_name :: string
  lc_deletion :: "timestamp option"
  lc_conditions :: "condition list"

record permission_claim =
  pc_resource :: string
  pc_verbs :: "string list"
  pc_matchAll :: bool
  pc_state :: string

record api_binding =
  ab_apiVersion :: string
  ab_kind :: string
  ab_name :: string
  ab_exportName :: string
  ab_exportPath :: string
  ab_claims :: "permission_claim list"

section \<open>Kubernetes objects\<close>

record namespace_obj =
  ns_name :: string

record service_account =
  sa_name :: string
  sa_namespace :: string

record secret =
  sec_name :: string
  sec_namespace :: string
  sec_annotations :: "string gomap option"
  sec_type :: string
  sec_data :: "string gomap option"

record role_ref =
  rr_apiGroup :: string
  rr_kind :: string
  rr_name :: string

record subject =
  su_kind :: string
  su_apiGroup :: string
  su_name :: string
  su_namespace :: string

record cluster_role_binding =
  crb_name :: string
  crb_roleRef :: role_ref
  crb_subjects :: "subject list"

end
