(* ===== verification/Kube_Api.thy ===== *)
theory Kube_Api
  imports Kube_Types Go_Strings
begin

text \<open>
  The interface to the API servers and client libraries, which are not under \<open>src/\<close>: the record
  \<open>platform\<close> is a parameter of every definition that uses them.  The locale \<open>resource_laws\<close>
  states what the Kubernetes API documents of the verbs get, list, create, update and delete for
  one kind of object; the locale \<open>api_server\<close> puts the kinds together over one view of the
  servers' state.
\<close>

section \<open>Clients\<close>

text \<open>
  Objects live at a server, named by the host of the client's configuration, under a namespace
  (empty for a cluster-scoped kind) and a name.
\<close>

type_synonym objkey = "string \<times> string"

type_synonym 'o store = "string \<times> objkey \<Rightarrow> 'o option"

record ('w, 'o) resource =
  rget :: "rest_config \<Rightarrow> objkey \<Rightarrow> ('w, api_error, 'o) call"
  rlist :: "rest_config \<Rightarrow> string \<Rightarrow> ('w, api_error, 'o list) call"
  rcreate :: "rest_config \<Rightarrow> string \<Rightarrow> 'o \<Rightarrow> ('w, api_error, 'o) call"
  rupdate :: "rest_config \<Rightarrow> string \<Rightarrow> 'o \<Rightarrow> ('w, api_error, 'o) call"
  rdelete :: "rest_config \<Rightarrow> objkey \<Rightarrow> ('w, api_error, unit) call"

text \<open>
  The platform: constants and functions of imported packages, the constructors of clients (which
  can refuse a configuration), and the servers.
\<close>

record 'w platform =
  c_saNameKey :: string \<comment> \<open>\<open>corev1.ServiceAccountNameKey\<close>\<close>
  c_saTokenType :: string \<comment> \<open>\<open>corev1.SecretTypeServiceAccountToken\<close>\<close>
  c_rbacGroup :: string \<comment> \<open>\<open>rbacv1.GroupName\<close>\<close>
  c_saKind :: string \<comment> \<open>\<open>rbacv1.ServiceAccountKind\<close>\<close>
  c_contentDeleted :: string \<comment> \<open>\<open>tenancyv1alpha1.WorkspaceContentDeleted\<close>\<close>
  c_lcName :: string \<comment> \<open>\<open>corev1alpha1.LogicalClusterName\<close>\<close>
  c_claimAccepted :: string \<comment> \<open>\<open>apisv1alpha2.ClaimAccepted\<close>\<close>
  kcp_new :: "rest_config \<Rightarrow> go_error option" \<comment> \<open>kcp \<open>versioned.NewForConfig\<close>\<close>
  kube_new :: "rest_config \<Rightarrow> go_error option" \<comment> \<open>\<open>kubernetes.NewForConfig\<close>\<close>
  dyn_new :: "rest_config \<Rightarrow> go_error option" \<comment> \<open>\<open>dynamic.NewForConfig\<close>\<close>
  kc_load :: "string \<Rightarrow> go_error + kube_config" \<comment> \<open>\<open>clientcmd.Load\<close>\<close>
  kc_write :: "kube_config \<Rightarrow> go_error + string" \<comment> \<open>\<open>clientcmd.Write\<close>\<close>
  p_workspaces :: "('w, workspace) resource"
  p_logicalclusters :: "('w, logical_cluster) resource"
  p_bindings :: "('w, api_binding) resource"
  p_namespaces :: "('w, namespace_obj) resource"
  p_accounts :: "('w, service_account) resource"
  p_secrets :: "('w, secret) resource"
  p_crbs :: "('w, cluster_role_binding) resource"
  p_listDatabases :: "rest_config \<Rightarrow> string \<times> string \<times> string \<Rightarrow> string \<Rightarrow> ('w, api_error, string list) call"
  p_patchDeployment :: "rest_config \<Rightarrow> objkey \<Rightarrow> string \<Rightarrow> ('w, api_error, unit) call"

definition client_or_error :: "go_error option \<Rightarrow> rest_config \<Rightarrow> go_error + rest_config" where
  "client_or_error e cfg = (case e of None \<Rightarrow> Inr cfg | Some err \<Rightarrow> Inl err)"

lemma client_or_error_Inr: "client_or_error e cfg = Inr c \<longleftrightarrow> e = None \<and> c = cfg"
  by (auto simp: client_or_error_def split: option.splits)

section \<open>The documented laws of one kind of object\<close>

text \<open>
  \<open>view\<close> is the state of all servers, \<open>sel\<close> and \<open>put\<close> read and replace the store of this kind.
  \<open>stored o o'\<close> says that the server may answer a write of \<open>o\<close> with \<open>o'\<close> (defaults, and fields
  other controllers fill in).  A failed write leaves the store alone or, when only the answer was
  lost, has happened; \<open>AlreadyExists\<close> and \<open>NotFound\<close> tell the truth about the store.  A delete
  removes the object or leaves it terminating (\<open>dying o o'\<close>: \<open>o'\<close> is \<open>o\<close> terminating).
\<close>

locale resource_laws =
  fixes R :: "('w, 'o) resource"
    and view :: "'w \<Rightarrow> 'v"
    and sel :: "'v \<Rightarrow> 'o store"
    and put :: "'o store \<Rightarrow> 'v \<Rightarrow> 'v"
    and name_of :: "'o \<Rightarrow> string"
    and stored :: "'o \<Rightarrow> 'o \<Rightarrow> bool"
    and dying :: "'o \<Rightarrow> 'o \<Rightarrow> bool"
  assumes sel_put: "sel (put m v) = m"
    and named: "sel (view w) (h, (ns, n)) = Some o1 \<Longrightarrow> name_of o1 = n"
    and get_reads: "rget R c k w = (r, w') \<Longrightarrow> view w' = view w"
    and get_found: "rget R c k w = (Inr o1, w') \<Longrightarrow> sel (view w) (rc_host c, k) = Some o1"
    and get_missing: "rget R c k w = (Inl NotFound, w') \<Longrightarrow> sel (view w) (rc_host c, k) = None"
    and list_reads: "rlist R c ns w = (l, w') \<Longrightarrow> view w' = view w"
    and list_sound: "rlist R c ns w = (Inr os, w') \<Longrightarrow> o1 \<in> set os \<Longrightarrow>
      \<exists>ns'. (ns = [] \<or> ns' = ns) \<and> sel (view w) (rc_host c, (ns', name_of o1)) = Some o1"
    and list_complete: "rlist R c ns w = (Inr os, w') \<Longrightarrow> ns = [] \<or> ns' = ns \<Longrightarrow>
      sel (view w) (rc_host c, (ns', n)) = Some o1 \<Longrightarrow> o1 \<in> set os"
    and create_ok: "rcreate R c ns o1 w = (Inr o2, w') \<Longrightarrow>
      sel (view w) (rc_host c, (ns, name_of o1)) = None \<and> stored o1 o2 \<and>
      view w' = put ((sel (view w))((rc_host c, (ns, name_of o1)) \<mapsto> o2)) (view w)"
    and create_exists: "rcreate R c ns o1 w = (Inl AlreadyExists, w') \<Longrightarrow>
      sel (view w) (rc_host c, (ns, name_of o1)) \<noteq> None \<and> view w' = view w"
    and create_error: "rcreate R c ns o1 w = (Inl e, w') \<Longrightarrow>
      view w' = view w \<or>
      sel (view w) (rc_host c, (ns, name_of o1)) = None \<and>
        (\<exists>o2. stored o1 o2 \<and>
          view w' = put ((sel (view w))((rc_host c, (ns, name_of o1)) \<mapsto> o2)) (view w))"
    and update_ok: "rupdate R c ns o1 w = (Inr o2, w') \<Longrightarrow>
      sel (view w) (rc_host c, (ns, name_of o1)) \<noteq> None \<and> stored o1 o2 \<and>
      view w' = put ((sel (view w))((rc_host c, (ns, name_of o1)) \<mapsto> o2)) (view w)"
    and update_error: "rupdate R c ns o1 w = (Inl e, w') \<Longrightarrow>
      view w' = view w \<or>
      sel (view w) (rc_host c, (ns, name_of o1)) \<noteq> None \<and>
        (\<exists>o2. stored o1 o2 \<and>
          view w' = put ((sel (view w))((rc_host c, (ns, name_of o1)) \<mapsto> o2)) (view w))"
    and delete_ok: "rdelete R c k w = (Inr u, w') \<Longrightarrow>
      sel (view w) (rc_host c, k) \<noteq> None \<and>
      (\<exists>x. (case x of None \<Rightarrow> True
         | Some o2 \<Rightarrow> \<exists>o1. sel (view w) (rc_host c, k) = Some o1 \<and> dying o1 o2) \<and>
        view w' = put ((sel (view w))((rc_host c, k) := x)) (view w))"
    and delete_missing: "rdelete R c k w = (Inl NotFound, w') \<Longrightarrow>
      sel (view w) (rc_host c, k) = None \<and> view w' = view w"
    and delete_error: "rdelete R c k w = (Inl e, w') \<Longrightarrow>
      view w' = view w \<or>
      (\<exists>x. (case x of None \<Rightarrow> True
         | Some o2 \<Rightarrow> \<exists>o1. sel (view w) (rc_host c, k) = Some o1 \<and> dying o1 o2) \<and>
        view w' = put ((sel (view w))((rc_host c, k) := x)) (view w))"
begin

text \<open>The store of this kind after a write, at any key.\<close>

lemma create_at:
  assumes "rcreate R c ns o1 w = (Inr o2, w')"
  shows "sel (view w') = (sel (view w))((rc_host c, (ns, name_of o1)) \<mapsto> o2)"
  using create_ok [OF assms] by (simp add: sel_put)

lemma update_at:
  assumes "rupdate R c ns o1 w = (Inr o2, w')"
  shows "sel (view w') = (sel (view w))((rc_host c, (ns, name_of o1)) \<mapsto> o2)"
  using update_ok [OF assms] by (simp add: sel_put)

lemma keeps_get: "keeps view (rget R c k)"
  by (rule keepsI) (metis get_reads prod.collapse)

lemma keeps_list: "keeps view (rlist R c ns)"
  by (rule keepsI) (metis list_reads prod.collapse)

end

section \<open>Get, and create if it is not there\<close>

text \<open>
  The shape three functions of \<open>credentials.go\<close> share: nothing to do when the object is there,
  create it when it is missing, and let a concurrent creator win.
\<close>

definition get_or_create ::
  "('w, 'o) resource \<Rightarrow> rest_config \<Rightarrow> objkey \<Rightarrow> 'o \<Rightarrow>
   (api_error \<Rightarrow> go_error) \<Rightarrow> (api_error \<Rightarrow> go_error) \<Rightarrow> ('w, unit) prog" where
  "get_or_create R c k o1 getErr createErr =
     on_result (rget R c k) (\<lambda>r. case r of
       Inr _ \<Rightarrow> ret ()
     | Inl e \<Rightarrow>
         if e \<noteq> NotFound then fail (getErr e)
         else on_result (rcreate R c (fst k) o1) (\<lambda>r'. case r' of
           Inl e' \<Rightarrow> if e' \<noteq> AlreadyExists then fail (createErr e') else ret ()
         | Inr _ \<Rightarrow> ret ()))"

context resource_laws
begin

text \<open>
  On success the object is there: the one that was there before, or one the server made of the
  object asked for.  On every path nothing else changes, and an object that was there stays.
\<close>

lemma get_or_create_ok:
  assumes run: "get_or_create R c (ns, name_of o1) o1 ge ce w = (Inr u, w')"
  shows "\<exists>o2. sel (view w') (rc_host c, (ns, name_of o1)) = Some o2 \<and>
    (view w' = view w \<or>
     sel (view w) (rc_host c, (ns, name_of o1)) = None \<and> stored o1 o2 \<and>
     view w' = put ((sel (view w))((rc_host c, (ns, name_of o1)) \<mapsto> o2)) (view w))"
proof -
  let ?k = "(rc_host c, (ns, name_of o1))"
  obtain r w1 where g: "rget R c (ns, name_of o1) w = (r, w1)" by (cases "rget R c (ns, name_of o1) w")
  have v1: "view w1 = view w" by (rule get_reads [OF g])
  show ?thesis
  proof (cases r)
    case (Inr x)
    with g run have "w' = w1" by (simp add: get_or_create_def on_result_run)
    with get_found [of c "(ns, name_of o1)" w x w1] g Inr v1 show ?thesis by auto
  next
    case (Inl e)
    with g run have e: "e = NotFound" by (auto simp: get_or_create_def on_result_run split: if_splits)
    obtain r' w2 where c: "rcreate R c ns o1 w1 = (r', w2)" by (cases "rcreate R c ns o1 w1")
    show ?thesis
    proof (cases r')
      case (Inr x)
      with g Inl e c run have w': "w' = w2" by (simp add: get_or_create_def on_result_run)
      show ?thesis
        using create_ok [of c ns o1 w1 x w2] c Inr w' v1 by (auto simp: sel_put)
    next
      case (Inl e')
      with g \<open>r = Inl e\<close> e c run have w': "w' = w2" "e' = AlreadyExists"
        by (auto simp: get_or_create_def on_result_run split: if_splits)
      show ?thesis
        using create_exists [of c ns o1 w1 w2] c Inl w' v1 by auto
    qed
  qed
qed

lemma get_or_create_any:
  assumes run: "get_or_create R c (ns, name_of o1) o1 ge ce w = (r, w')"
  shows "view w' = view w \<or>
     sel (view w) (rc_host c, (ns, name_of o1)) = None \<and>
     (\<exists>o2. stored o1 o2 \<and>
       view w' = put ((sel (view w))((rc_host c, (ns, name_of o1)) \<mapsto> o2)) (view w))"
proof -
  obtain r1 w1 where g: "rget R c (ns, name_of o1) w = (r1, w1)" by (cases "rget R c (ns, name_of o1) w")
  have v1: "view w1 = view w" by (rule get_reads [OF g])
  obtain r2 w2 where c: "rcreate R c ns o1 w1 = (r2, w2)" by (cases "rcreate R c ns o1 w1")
  have "w' = w1 \<or> w' = w2"
    using run g c by (auto simp: get_or_create_def on_result_run split: sum.splits if_splits)
  moreover have "view w2 = view w \<or>
     sel (view w) (rc_host c, (ns, name_of o1)) = None \<and>
     (\<exists>o2. stored o1 o2 \<and>
       view w2 = put ((sel (view w))((rc_host c, (ns, name_of o1)) \<mapsto> o2)) (view w))"
    using create_ok [of c ns o1 w1 _ w2] create_error [of c ns o1 w1 _ w2] c v1
    by (cases r2) auto
  ultimately show ?thesis using v1 by auto
qed

text \<open>A second run writes nothing.\<close>

lemma get_or_create_present:
  assumes there: "sel (view w) (rc_host c, (ns, name_of o1)) = Some o2"
    and run: "get_or_create R c (ns, name_of o1) o1 ge ce w = (r, w')"
  shows "view w' = view w"
  using get_or_create_any [OF run] there by auto

lemma present_preserves:
  assumes "sel (view w) (rc_host c, (ns, name_of o1)) \<noteq> None"
  shows "preserves (\<lambda>u. view u = view w) (get_or_create R c (ns, name_of o1) o1 ge ce)"
proof (rule preservesI)
  fix u r u'
  assume u: "view u = view w" and run: "get_or_create R c (ns, name_of o1) o1 ge ce u = (r, u')"
  from assms u obtain o2 where "sel (view u) (rc_host c, (ns, name_of o1)) = Some o2" by auto
  from get_or_create_present [OF this run] u show "view u' = view w" by simp
qed

end

section \<open>All servers\<close>

text \<open>Two stores that agree everywhere but at one key.\<close>

definition same_except :: "'k \<Rightarrow> ('k \<Rightarrow> 'a) \<Rightarrow> ('k \<Rightarrow> 'a) \<Rightarrow> bool" where
  "same_except k m m' \<longleftrightarrow> (\<forall>k'. k' \<noteq> k \<longrightarrow> m' k' = m k')"

lemma same_except_refl [simp]: "same_except k m m"
  by (simp add: same_except_def)

lemma same_except_upd [simp]: "same_except k m (m(k := x))"
  by (simp add: same_except_def)

lemma same_except_trans: "same_except k m m' \<Longrightarrow> same_except k m' m'' \<Longrightarrow> same_except k m m''"
  by (simp add: same_except_def)

lemma same_exceptD: "same_except k m m' \<Longrightarrow> k' \<noteq> k \<Longrightarrow> m' k' = m k'"
  by (simp add: same_except_def)

context resource_laws
begin

text \<open>However a write of one object ends, no other object of its kind and no other kind changes.\<close>

lemma create_any:
  assumes "rcreate R c ns o1 w = (r, w')"
  shows "\<exists>m. view w' = put m (view w) \<and> same_except (rc_host c, (ns, name_of o1)) (sel (view w)) m
    \<or> view w' = view w"
  using assms create_ok [of c ns o1 w _ w'] create_error [of c ns o1 w _ w'] by (cases r) auto

lemma update_any:
  assumes "rupdate R c ns o1 w = (r, w')"
  shows "\<exists>m. view w' = put m (view w) \<and> same_except (rc_host c, (ns, name_of o1)) (sel (view w)) m
    \<or> view w' = view w"
  using assms update_ok [of c ns o1 w _ w'] update_error [of c ns o1 w _ w'] by (cases r) auto

lemma delete_any:
  assumes "rdelete R c k w = (r, w')"
  shows "view w' = view w \<or>
    (\<exists>x. (case x of None \<Rightarrow> True
         | Some o2 \<Rightarrow> \<exists>o1. sel (view w) (rc_host c, k) = Some o1 \<and> dying o1 o2) \<and>
        view w' = put ((sel (view w))((rc_host c, k) := x)) (view w))"
  using assms delete_ok [of c k w _ w'] delete_error [of c k w _ w'] by (cases r) auto

lemma get_or_create_frame:
  assumes "get_or_create R c (ns, name_of o1) o1 ge ce w = (r, w')"
  shows "\<exists>m. view w' = put m (view w) \<and> same_except (rc_host c, (ns, name_of o1)) (sel (view w)) m
    \<or> view w' = view w"
  using get_or_create_any [OF assms] by (metis same_except_upd)

end

record cluster_view =
  v_workspaces :: "workspace store"
  v_logicalclusters :: "logical_cluster store"
  v_bindings :: "api_binding store"
  v_namespaces :: "namespace_obj store"
  v_accounts :: "service_account store"
  v_secrets :: "secret store"
  v_crbs :: "cluster_role_binding store"
  v_patches :: "string store" \<comment> \<open>the last merge patch of each Deployment\<close>

text \<open>What a server may add to an object it is asked to store.\<close>

definition extends :: "'v gomap option \<Rightarrow> 'v gomap option \<Rightarrow> bool" where
  "extends m m' \<longleftrightarrow> (\<forall>k v. gm_get m k = Some v \<longrightarrow> gm_get m' k = Some v)"

lemma extends_refl [simp]: "extends m m"
  by (simp add: extends_def)

lemma extends_get: "extends m m' \<Longrightarrow> gm_get m k = Some v \<Longrightarrow> gm_get m' k = Some v"
  by (simp add: extends_def)

lemma extends_put_string: "extends (gm_put m k v) m' \<Longrightarrow> gm_string m' k = v"
  by (simp add: extends_def gm_string_get)

text \<open>
  kcp keeps its own annotations on a workspace under keys of the \<open>kcp.io\<close> domain and passes the
  others through.
\<close>

definition server_key :: "string \<Rightarrow> bool" where
  "server_key k = contains k ''kcp.io/''"

definition ws_stored :: "workspace \<Rightarrow> workspace \<Rightarrow> bool" where
  "ws_stored o1 o2 \<longleftrightarrow> ws_name o2 = ws_name o1 \<and> ws_type o2 = ws_type o1 \<and>
     ws_mount o2 = ws_mount o1 \<and> extends (ws_annotations o1) (ws_annotations o2) \<and>
     (\<forall>k. \<not> server_key k \<longrightarrow> gm_get (ws_annotations o2) k = gm_get (ws_annotations o1) k)"

definition ws_dying :: "workspace \<Rightarrow> workspace \<Rightarrow> bool" where
  "ws_dying o1 o2 \<longleftrightarrow> (\<exists>t. o2 = o1\<lparr>ws_deletion := Some t\<rparr>)"

definition ab_stored :: "api_binding \<Rightarrow> api_binding \<Rightarrow> bool" where
  "ab_stored o1 o2 \<longleftrightarrow> ab_name o2 = ab_name o1 \<and> ab_exportName o2 = ab_exportName o1 \<and>
     ab_exportPath o2 = ab_exportPath o1 \<and> ab_claims o2 = ab_claims o1"

definition sec_stored :: "secret \<Rightarrow> secret \<Rightarrow> bool" where
  "sec_stored o1 o2 \<longleftrightarrow> sec_name o2 = sec_name o1 \<and> sec_type o2 = sec_type o1 \<and>
     extends (sec_annotations o1) (sec_annotations o2) \<and> extends (sec_data o1) (sec_data o2)"

locale api_server =
  ws: resource_laws "p_workspaces E" view v_workspaces "\<lambda>m. v_workspaces_update (\<lambda>_. m)"
    ws_name ws_stored ws_dying +
  lc: resource_laws "p_logicalclusters E" view v_logicalclusters
    "\<lambda>m. v_logicalclusters_update (\<lambda>_. m)" lc_name "(=)" "(=)" +
  ab: resource_laws "p_bindings E" view v_bindings "\<lambda>m. v_bindings_update (\<lambda>_. m)"
    ab_name ab_stored "(=)" +
  nso: resource_laws "p_namespaces E" view v_namespaces "\<lambda>m. v_namespaces_update (\<lambda>_. m)"
    ns_name "(=)" "(=)" +
  sa: resource_laws "p_accounts E" view v_accounts "\<lambda>m. v_accounts_update (\<lambda>_. m)"
    sa_name "(=)" "(=)" +
  sec: resource_laws "p_secrets E" view v_secrets "\<lambda>m. v_secrets_update (\<lambda>_. m)"
    sec_name sec_stored "(=)" +
  crb: resource_laws "p_crbs E" view v_crbs "\<lambda>m. v_crbs_update (\<lambda>_. m)"
    crb_name "(=)" "(=)"
  for E :: "'w platform" and view :: "'w \<Rightarrow> cluster_view" +
  assumes ws_scoped: "v_workspaces (view w) (h, (ns, n)) = Some o1 \<Longrightarrow> ns = []"
    and databases_read: "p_listDatabases E c g ns w = (r, w') \<Longrightarrow> view w' = view w"
    and patch_ok: "p_patchDeployment E c k b w = (Inr u, w') \<Longrightarrow>
      view w' = (view w)\<lparr>v_patches := (v_patches (view w))((rc_host c, k) \<mapsto> b)\<rparr>"
    and patch_error: "p_patchDeployment E c k b w = (Inl e, w') \<Longrightarrow>
      view w' = view w \<or>
      view w' = (view w)\<lparr>v_patches := (v_patches (view w))((rc_host c, k) \<mapsto> b)\<rparr>"
begin

lemma patch_any:
  assumes "p_patchDeployment E c k b w = (r, w')"
  shows "\<exists>m. view w' = (view w)\<lparr>v_patches := m\<rparr>"
  using assms patch_ok [of c k b w _ w'] patch_error [of c k b w _ w']
  by (cases r) (auto intro: exI [of _ "v_patches (view w)"])

lemmas server_reads = ws.keeps_get ws.keeps_list lc.keeps_get ab.keeps_get nso.keeps_get
  sa.keeps_get sec.keeps_get crb.keeps_get

end

end
