(* ===== verification/Prov_Core.thy ===== *)
theory Prov_Core
  imports Go_Url Kube_Api
begin

text \<open>
  \<open>internal/provisioner/provisioner.go\<close>: the provisioner's configuration and the REST
  configurations it derives from the kcp admin configuration.
\<close>

section \<open>Configuration\<close>

definition workspaceCredentialAnnotation :: string where
  "workspaceCredentialAnnotation = ''dbaas.mongodb.com/scoped-kubeconfig''"

definition workspaceServiceAccountName :: string where
  "workspaceServiceAccountName = ''workspace-admin''"

definition workspaceTokenSecretName :: string where
  "workspaceTokenSecretName = ''workspace-admin-token''"

definition workspaceClusterRoleBindName :: string where
  "workspaceClusterRoleBindName = ''workspace-service-account-admin''"

definition workspaceDefaultNamespace :: string where
  "workspaceDefaultNamespace = ''default''"

lemmas workspace_consts = workspaceCredentialAnnotation_def workspaceServiceAccountName_def
  workspaceTokenSecretName_def workspaceClusterRoleBindName_def workspaceDefaultNamespace_def

text \<open>\<open>mongodbDatabaseGVR\<close>: group, version, resource.\<close>

definition mongodbDatabaseGVR :: "string \<times> string \<times> string" where
  "mongodbDatabaseGVR = (''kro.run'', ''v1alpha1'', ''databases'')"

datatype credential_mode = CredentialsAdmin | CredentialsScoped

record workspace_binding =
  wb_name :: string
  wb_exportName :: string
  wb_claims :: "permission_claim list"

text \<open>The \<open>Provisioner\<close> struct; a nil \<open>K8sClient\<close> switches the Headlamp integration off.\<close>

record provisioner =
  pv_admin :: rest_config
  pv_provider :: string
  pv_bindings :: "workspace_binding list"
  pv_consumers :: string
  pv_k8s :: "rest_config option"
  pv_headlampNamespace :: string
  pv_headlampSecret :: string
  pv_headlampDeployment :: string

record workspace_info =
  wi_name :: string
  wi_phase :: string
  wi_status :: string
  wi_statusClass :: string
  wi_statusDetail :: string
  wi_transient :: bool
  wi_url :: string
  wi_databaseCount :: nat
  wi_headlampReady :: bool

section \<open>Addresses of workspaces\<close>

definition kcpBaseURL :: "string \<Rightarrow> go_error + string" where
  "kcpBaseURL server =
     (case url_parse server of
        Inl e \<Rightarrow> Inl (wrapf ''parsing kcp server URL %q: %w'' [server] e)
      | Inr u \<Rightarrow> Inr (url_string (u\<lparr>u_path := [], u_raw_query := [], u_fragment := []\<rparr>)))"

definition configForWorkspace :: "provisioner \<Rightarrow> string \<Rightarrow> go_error + rest_config" where
  "configForWorkspace p wsPath =
     (case kcpBaseURL (rc_host (pv_admin p)) of
        Inl e \<Rightarrow> Inl e
      | Inr base \<Rightarrow> Inr ((pv_admin p)\<lparr>rc_host := base @ ''/clusters/'' @ wsPath\<rparr>))"

definition kcpClientForWorkspace ::
  "'w platform \<Rightarrow> provisioner \<Rightarrow> string \<Rightarrow> go_error + rest_config" where
  "kcpClientForWorkspace E p wsPath =
     (case configForWorkspace p wsPath of
        Inl e \<Rightarrow> Inl e | Inr cfg \<Rightarrow> client_or_error (kcp_new E cfg) cfg)"

definition kubeClientForWorkspace ::
  "'w platform \<Rightarrow> provisioner \<Rightarrow> string \<Rightarrow> go_error + rest_config" where
  "kubeClientForWorkspace E p wsPath =
     (case configForWorkspace p wsPath of
        Inl e \<Rightarrow> Inl e | Inr cfg \<Rightarrow> client_or_error (kube_new E cfg) cfg)"

text \<open>\<open>adminAuthInfo\<close>: a bearer token wins over inline certificates, those over files.\<close>

definition adminAuthInfo :: "provisioner \<Rightarrow> auth_info" where
  "adminAuthInfo p =
     (let a = pv_admin p in
      if rc_bearerToken a \<noteq> [] then new_auth_info\<lparr>au_token := rc_bearerToken a\<rparr>
      else if rc_certData a \<noteq> [] then
        new_auth_info\<lparr>au_certData := rc_certData a, au_keyData := rc_keyData a\<rparr>
      else new_auth_info\<lparr>au_certFile := rc_certFile a, au_keyFile := rc_keyFile a\<rparr>)"

section \<open>Lemmas\<close>

text \<open>The address of a workspace, once the admin configuration's host parses.\<close>

definition workspace_host :: "provisioner \<Rightarrow> string \<Rightarrow> string" where
  "workspace_host p wsPath =
     (case kcpBaseURL (rc_host (pv_admin p)) of
        Inl _ \<Rightarrow> [] | Inr base \<Rightarrow> base @ ''/clusters/'' @ wsPath)"

lemma configForWorkspace_Inr:
  "configForWorkspace p ws = Inr cfg \<Longrightarrow> cfg = (pv_admin p)\<lparr>rc_host := workspace_host p ws\<rparr>"
  by (auto simp: configForWorkspace_def workspace_host_def split: sum.splits)

lemma kcpClient_Inr:
  "kcpClientForWorkspace E p ws = Inr cfg \<Longrightarrow> cfg = (pv_admin p)\<lparr>rc_host := workspace_host p ws\<rparr>"
  by (auto simp: kcpClientForWorkspace_def client_or_error_Inr
      dest!: configForWorkspace_Inr split: sum.splits)

lemma kubeClient_Inr:
  "kubeClientForWorkspace E p ws = Inr cfg \<Longrightarrow> cfg = (pv_admin p)\<lparr>rc_host := workspace_host p ws\<rparr>"
  by (auto simp: kubeClientForWorkspace_def client_or_error_Inr
      dest!: configForWorkspace_Inr split: sum.splits)

lemma client_host:
  "kcpClientForWorkspace E p ws = Inr cfg \<Longrightarrow> rc_host cfg = workspace_host p ws"
  "kubeClientForWorkspace E p ws = Inr cfg \<Longrightarrow> rc_host cfg = workspace_host p ws"
  by (auto dest: kcpClient_Inr kubeClient_Inr)

text \<open>Different workspace paths have different addresses at the same kcp.\<close>

lemma workspace_host_inject:
  "kcpBaseURL (rc_host (pv_admin p)) = Inr base \<Longrightarrow>
   workspace_host p a = workspace_host p b \<longleftrightarrow> a = b"
  by (simp add: workspace_host_def)

text \<open>The base URL drops path, query and fragment, and is its own base URL.\<close>

lemma kcpBaseURL_server:
  assumes "scheme_ok s" "host_ok h" "path_ok q"
  shows "kcpBaseURL (s @ ''://'' @ h @ q) = Inr (s @ ''://'' @ h)"
proof -
  have "(server_url s h q)\<lparr>u_path := [], u_raw_query := [], u_fragment := []\<rparr> = server_url s h []"
    by (simp add: server_url_def empty_url_def)
  then show ?thesis
    using parse_server_url [OF assms] string_server_url [OF assms(1,2), of "[]"]
    by (simp add: kcpBaseURL_def path_ok_def)
qed

end
