(* ===== verification/Prov_Credentials.thy ===== *)
theory Prov_Credentials
  imports Prov_Core
begin

text \<open>
  \<open>internal/provisioner/credentials.go\<close>: the workspace-local service account, its token secret
  and its \<open>ClusterRoleBinding\<close>, and the annotation that marks a workspace as set up with them.
\<close>

section \<open>The credential mode of a workspace\<close>

definition workspaceCredentialMode :: "workspace \<Rightarrow> credential_mode" where
  "workspaceCredentialMode ws =
     (if gm_string (ws_annotations ws) workspaceCredentialAnnotation = ''true''
      then CredentialsScoped else CredentialsAdmin)"

definition markWorkspaceScopedCredentials ::
  "'w platform \<Rightarrow> rest_config \<Rightarrow> string \<Rightarrow> ('w, unit) prog" where
  "markWorkspaceScopedCredentials E consumers name =
     or_fail (rget (p_workspaces E) consumers ([], name)) ApiErr (\<lambda>ws.
     or_fail (rupdate (p_workspaces E) consumers []
        (ws\<lparr>ws_annotations := gm_put (ws_annotations ws) workspaceCredentialAnnotation ''true''\<rparr>))
        ApiErr (\<lambda>_. ret ()))"

section \<open>The objects inside the workspace\<close>

definition ensureWorkspaceNamespace :: "'w platform \<Rightarrow> rest_config \<Rightarrow> ('w, unit) prog" where
  "ensureWorkspaceNamespace E client =
     on_result (rget (p_namespaces E) client ([], workspaceDefaultNamespace)) (\<lambda>r. case r of
       Inr _ \<Rightarrow> ret ()
     | Inl e \<Rightarrow>
         if e \<noteq> NotFound then
           fail (wrap_api ''getting namespace %q: %w'' [workspaceDefaultNamespace] e)
         else on_result (rcreate (p_namespaces E) client [] \<lparr>ns_name = workspaceDefaultNamespace\<rparr>)
           (\<lambda>r'. case r' of
             Inl e' \<Rightarrow>
               if e' \<noteq> AlreadyExists then
                 fail (wrap_api ''creating namespace %q: %w'' [workspaceDefaultNamespace] e')
               else ret ()
           | Inr _ \<Rightarrow> ret ()))"

definition ensureServiceAccount :: "'w platform \<Rightarrow> rest_config \<Rightarrow> ('w, unit) prog" where
  "ensureServiceAccount E client =
     on_result (rget (p_accounts E) client (workspaceDefaultNamespace, workspaceServiceAccountName))
     (\<lambda>r. case r of
       Inr _ \<Rightarrow> ret ()
     | Inl e \<Rightarrow>
         if e \<noteq> NotFound then fail (wrap_api ''getting service account: %w'' [] e)
         else on_result (rcreate (p_accounts E) client workspaceDefaultNamespace
             \<lparr>sa_name = workspaceServiceAccountName, sa_namespace = workspaceDefaultNamespace\<rparr>)
           (\<lambda>r'. case r' of
             Inl e' \<Rightarrow>
               if e' \<noteq> AlreadyExists then fail (wrap_api ''creating service account: %w'' [] e')
               else ret ()
           | Inr _ \<Rightarrow> ret ()))"

text \<open>The token secret as the code submits it; the API server's token controller fills it in.\<close>

definition tokenSecret :: "'w platform \<Rightarrow> secret" where
  "tokenSecret E =
     \<lparr>sec_name = workspaceTokenSecretName, sec_namespace = workspaceDefaultNamespace,
      sec_annotations = Some [(c_saNameKey E, workspaceServiceAccountName)],
      sec_type = c_saTokenType E, sec_data = None\<rparr>"

definition ensureTokenSecret :: "'w platform \<Rightarrow> rest_config \<Rightarrow> ('w, unit) prog" where
  "ensureTokenSecret E client =
     on_result (rget (p_secrets E) client (workspaceDefaultNamespace, workspaceTokenSecretName))
     (\<lambda>r. case r of
       Inr _ \<Rightarrow> ret ()
     | Inl e \<Rightarrow>
         if e \<noteq> NotFound then fail (wrap_api ''getting token secret: %w'' [] e)
         else on_result (rcreate (p_secrets E) client workspaceDefaultNamespace (tokenSecret E))
           (\<lambda>r'. case r' of
             Inl e' \<Rightarrow>
               if e' \<noteq> AlreadyExists then fail (wrap_api ''creating token secret: %w'' [] e')
               else ret ()
           | Inr _ \<Rightarrow> ret ()))"

definition desiredRoleBinding :: "'w platform \<Rightarrow> cluster_role_binding" where
  "desiredRoleBinding E =
     \<lparr>crb_name = workspaceClusterRoleBindName,
      crb_roleRef = \<lparr>rr_apiGroup = c_rbacGroup E, rr_kind = ''ClusterRole'', rr_name = ''cluster-admin''\<rparr>,
      crb_subjects = [\<lparr>su_kind = c_saKind E, su_apiGroup = [], su_name = workspaceServiceAccountName,
                       su_namespace = workspaceDefaultNamespace\<rparr>]\<rparr>"

definition ensureAdminClusterRoleBinding :: "'w platform \<Rightarrow> rest_config \<Rightarrow> ('w, unit) prog" where
  "ensureAdminClusterRoleBinding E client =
     (let desired = desiredRoleBinding E in
      on_result (rget (p_crbs E) client ([], workspaceClusterRoleBindName)) (\<lambda>r. case r of
        Inl e \<Rightarrow>
          if e = NotFound then
            on_result (rcreate (p_crbs E) client [] desired) (\<lambda>r'. case r' of
              Inl e' \<Rightarrow>
                if e' \<noteq> AlreadyExists then fail (wrap_api ''creating cluster role binding: %w'' [] e')
                else ret ()
            | Inr _ \<Rightarrow> ret ())
          else fail (wrap_api ''getting cluster role binding: %w'' [] e)
      | Inr existing \<Rightarrow>
          if length (crb_subjects existing) = 1 \<and>
             crb_subjects existing ! 0 = crb_subjects desired ! 0 \<and>
             crb_roleRef existing = crb_roleRef desired then ret ()
          else or_fail (rupdate (p_crbs E) client []
                 (existing\<lparr>crb_subjects := crb_subjects desired, crb_roleRef := crb_roleRef desired\<rparr>))
               (wrap_api ''updating cluster role binding: %w'' []) (\<lambda>_. ret ())))"

definition workspaceServiceAccountToken ::
  "'w platform \<Rightarrow> provisioner \<Rightarrow> string \<Rightarrow> ('w, string) prog" where
  "workspaceServiceAccountToken E p wsPath =
     or_fail (lift_sum (kubeClientForWorkspace E p wsPath))
       (wrapf ''creating workspace kube client: %w'' []) (\<lambda>client.
     or_fail (rget (p_secrets E) client (workspaceDefaultNamespace, workspaceTokenSecretName))
       (wrap_api ''getting workspace token secret: %w'' []) (\<lambda>s.
     if gm_string (sec_data s) ''token'' \<noteq> [] then ret (gm_string (sec_data s) ''token'')
     else fail (errorf ''workspace token secret %q has no token yet'' [workspaceTokenSecretName])))"

definition ensureScopedWorkspaceCredentials ::
  "'w platform \<Rightarrow> provisioner \<Rightarrow> string \<Rightarrow> ('w, unit) prog" where
  "ensureScopedWorkspaceCredentials E p wsPath =
     or_fail (lift_sum (kubeClientForWorkspace E p wsPath))
       (wrapf ''creating workspace kube client: %w'' []) (\<lambda>client.
     or_fail (ensureWorkspaceNamespace E client) (\<lambda>e. e) (\<lambda>_.
     or_fail (ensureServiceAccount E client) (\<lambda>e. e) (\<lambda>_.
     or_fail (ensureTokenSecret E client) (\<lambda>e. e) (\<lambda>_.
     or_fail (ensureAdminClusterRoleBinding E client) (\<lambda>e. e) (\<lambda>_.
     or_fail (workspaceServiceAccountToken E p wsPath) (\<lambda>e. e) (\<lambda>_. ret ()))))))"

section \<open>What the objects amount to\<close>

text \<open>
  A workspace server \<open>h\<close> has its credentials ready: the namespace, the service account, a token
  secret that holds a token, and a binding of exactly that service account to \<open>cluster-admin\<close>.
\<close>

definition tokenKey :: "string \<Rightarrow> string \<times> objkey" where
  "tokenKey h = (h, (workspaceDefaultNamespace, workspaceTokenSecretName))"

definition has_token :: "cluster_view \<Rightarrow> string \<Rightarrow> bool" where
  "has_token v h =
     (case v_secrets v (tokenKey h) of
        None \<Rightarrow> False | Some s \<Rightarrow> gm_string (sec_data s) ''token'' \<noteq> [])"

definition has_admin_binding :: "'w platform \<Rightarrow> cluster_view \<Rightarrow> string \<Rightarrow> bool" where
  "has_admin_binding E v h =
     (case v_crbs v (h, ([], workspaceClusterRoleBindName)) of
        None \<Rightarrow> False
      | Some b \<Rightarrow> crb_subjects b = crb_subjects (desiredRoleBinding E) \<and>
                  crb_roleRef b = crb_roleRef (desiredRoleBinding E))"

definition credentials_ready :: "'w platform \<Rightarrow> cluster_view \<Rightarrow> string \<Rightarrow> bool" where
  "credentials_ready E v h =
     (v_namespaces v (h, ([], workspaceDefaultNamespace)) \<noteq> None \<and>
      v_accounts v (h, (workspaceDefaultNamespace, workspaceServiceAccountName)) \<noteq> None \<and>
      has_token v h \<and> has_admin_binding E v h)"

text \<open>What setting the credentials up may change, and nothing else: four objects at \<open>h\<close>.\<close>

definition credentials_frame :: "string \<Rightarrow> cluster_view \<Rightarrow> cluster_view \<Rightarrow> bool" where
  "credentials_frame h v v' \<longleftrightarrow>
     v' = v\<lparr>v_namespaces := v_namespaces v', v_accounts := v_accounts v',
            v_secrets := v_secrets v', v_crbs := v_crbs v'\<rparr> \<and>
     same_except (h, ([], workspaceDefaultNamespace)) (v_namespaces v) (v_namespaces v') \<and>
     same_except (h, (workspaceDefaultNamespace, workspaceServiceAccountName))
       (v_accounts v) (v_accounts v') \<and>
     same_except (tokenKey h) (v_secrets v) (v_secrets v') \<and>
     same_except (h, ([], workspaceClusterRoleBindName)) (v_crbs v) (v_crbs v')"

lemma credentials_frame_refl [simp]: "credentials_frame h v v"
  by (simp add: credentials_frame_def)

lemma credentials_frame_trans:
  assumes "credentials_frame h v1 v2" and "credentials_frame h v2 v3"
  shows "credentials_frame h v1 v3"
proof -
  from assms have "v3 = v1\<lparr>v_namespaces := v_namespaces v3, v_accounts := v_accounts v3,
            v_secrets := v_secrets v3, v_crbs := v_crbs v3\<rparr>"
    unfolding credentials_frame_def by (cases v1; cases v2; cases v3) simp
  with assms show ?thesis
    unfolding credentials_frame_def by (blast intro: same_except_trans)
qed

section \<open>The three creations are one shape\<close>

lemma ensureWorkspaceNamespace_shape:
  "ensureWorkspaceNamespace E client =
     get_or_create (p_namespaces E) client ([], ns_name \<lparr>ns_name = workspaceDefaultNamespace\<rparr>)
       \<lparr>ns_name = workspaceDefaultNamespace\<rparr>
       (wrap_api ''getting namespace %q: %w'' [workspaceDefaultNamespace])
       (wrap_api ''creating namespace %q: %w'' [workspaceDefaultNamespace])"
  unfolding ensureWorkspaceNamespace_def get_or_create_def fst_conv namespace_obj.select_convs
  by (rule refl)

definition serviceAccount :: service_account where
  "serviceAccount =
     \<lparr>sa_name = workspaceServiceAccountName, sa_namespace = workspaceDefaultNamespace\<rparr>"

lemma ensureServiceAccount_shape:
  "ensureServiceAccount E client =
     get_or_create (p_accounts E) client (workspaceDefaultNamespace, sa_name serviceAccount)
       serviceAccount (wrap_api ''getting service account: %w'' [])
       (wrap_api ''creating service account: %w'' [])"
  unfolding ensureServiceAccount_def get_or_create_def serviceAccount_def fst_conv
    service_account.select_convs
  by (rule refl)

lemma ensureTokenSecret_shape:
  "ensureTokenSecret E client =
     get_or_create (p_secrets E) client (workspaceDefaultNamespace, sec_name (tokenSecret E))
       (tokenSecret E) (wrap_api ''getting token secret: %w'' [])
       (wrap_api ''creating token secret: %w'' [])"
  unfolding ensureTokenSecret_def get_or_create_def fst_conv tokenSecret_def secret.select_convs
  by (rule refl)

lemma desired_one_subject: "length (crb_subjects (desiredRoleBinding E)) = 1"
  by (simp add: desiredRoleBinding_def)

lemma desired_name: "crb_name (desiredRoleBinding E) = workspaceClusterRoleBindName"
  by (simp add: desiredRoleBinding_def)

lemma one_subject_eq: "length xs = 1 \<Longrightarrow> length ys = 1 \<Longrightarrow> xs ! 0 = ys ! 0 \<Longrightarrow> xs = ys"
  by (simp add: list_eq_iff_nth_eq)

lemma binding_run_cases:
  assumes run: "ensureAdminClusterRoleBinding E c w = (r, w')"
    and g: "rget (p_crbs E) c ([], workspaceClusterRoleBindName) w = (g, w1)"
  obtains
      (create) g2 where "g = Inl NotFound"
        "rcreate (p_crbs E) c [] (desiredRoleBinding E) w1 = (g2, w')"
        "r = Inr u \<longrightarrow> g2 \<noteq> Inl AlreadyExists \<longrightarrow> (\<exists>x. g2 = Inr x)"
    | (failed) "w' = w1" "r \<noteq> Inr u"
    | (same) b where "g = Inr b" "w' = w1" "length (crb_subjects b) = 1"
        "crb_subjects b ! 0 = crb_subjects (desiredRoleBinding E) ! 0"
        "crb_roleRef b = crb_roleRef (desiredRoleBinding E)"
    | (update) b g2 where "g = Inr b"
        "rupdate (p_crbs E) c [] (b\<lparr>crb_subjects := crb_subjects (desiredRoleBinding E),
            crb_roleRef := crb_roleRef (desiredRoleBinding E)\<rparr>) w1 = (g2, w')"
        "r = Inr u \<longrightarrow> (\<exists>x. g2 = Inr x)"
proof (cases g)
  case (Inl e)
  show ?thesis
  proof (cases "e = NotFound")
    case True
    obtain g2 w2 where c2: "rcreate (p_crbs E) c [] (desiredRoleBinding E) w1 = (g2, w2)" by fastforce
    from run have "w' = w2" "r = Inr u \<longrightarrow> g2 \<noteq> Inl AlreadyExists \<longrightarrow> (\<exists>x. g2 = Inr x)"
      by (auto simp: ensureAdminClusterRoleBinding_def Let_def on_result_run g Inl True c2
          split: sum.splits if_splits)
    with c2 Inl True create show ?thesis by blast
  next
    case False
    with run have "w' = w1" "r \<noteq> Inr u"
      by (auto simp: ensureAdminClusterRoleBinding_def Let_def on_result_run g Inl)
    then show ?thesis by (rule failed)
  qed
next
  case (Inr b)
  let ?b = "b\<lparr>crb_subjects := crb_subjects (desiredRoleBinding E),
      crb_roleRef := crb_roleRef (desiredRoleBinding E)\<rparr>"
  show ?thesis
  proof (cases "length (crb_subjects b) = 1 \<and>
      crb_subjects b ! 0 = crb_subjects (desiredRoleBinding E) ! 0 \<and>
      crb_roleRef b = crb_roleRef (desiredRoleBinding E)")
    case True
    with run have "w' = w1"
      by (simp add: ensureAdminClusterRoleBinding_def Let_def on_result_run g Inr)
    with True Inr same show ?thesis by blast
  next
    case False
    obtain g2 w2 where c2: "rupdate (p_crbs E) c [] ?b w1 = (g2, w2)" by fastforce
    from run False have "w' = w2" "r = Inr u \<longrightarrow> (\<exists>x. g2 = Inr x)"
      by (auto simp: ensureAdminClusterRoleBinding_def Let_def on_result_run or_fail_run g Inr c2
          split: sum.splits if_splits)
    with c2 Inr update show ?thesis by blast
  qed
qed

section \<open>Under the laws of the API server\<close>

context api_server
begin

lemma namespace_frame:
  assumes "ensureWorkspaceNamespace E c w = (r, w')"
  shows "credentials_frame (rc_host c) (view w) (view w')"
  using nso.get_or_create_frame [OF assms [unfolded ensureWorkspaceNamespace_shape]]
  by (auto simp: credentials_frame_def)

lemma namespace_ok:
  assumes "ensureWorkspaceNamespace E c w = (Inr u, w')"
  shows "v_namespaces (view w') (rc_host c, ([], workspaceDefaultNamespace)) \<noteq> None"
  using nso.get_or_create_ok [OF assms [unfolded ensureWorkspaceNamespace_shape]] by auto

lemma account_frame:
  assumes "ensureServiceAccount E c w = (r, w')"
  shows "credentials_frame (rc_host c) (view w) (view w')"
  using sa.get_or_create_frame [OF assms [unfolded ensureServiceAccount_shape]]
  by (auto simp: credentials_frame_def serviceAccount_def)

lemma account_ok:
  assumes "ensureServiceAccount E c w = (Inr u, w')"
  shows "v_accounts (view w')
     (rc_host c, (workspaceDefaultNamespace, workspaceServiceAccountName)) \<noteq> None"
  using sa.get_or_create_ok [OF assms [unfolded ensureServiceAccount_shape]]
  by (auto simp: serviceAccount_def)

lemma secret_frame:
  assumes "ensureTokenSecret E c w = (r, w')"
  shows "credentials_frame (rc_host c) (view w) (view w')"
  using sec.get_or_create_frame [OF assms [unfolded ensureTokenSecret_shape]]
  by (auto simp: credentials_frame_def tokenSecret_def tokenKey_def)

lemma crbs_frame:
  assumes "\<exists>m. v' = (v :: cluster_view)\<lparr>v_crbs := m\<rparr> \<and>
      same_except (h, ([], workspaceClusterRoleBindName)) (v_crbs v) m \<or> v' = v"
  shows "credentials_frame h v v'"
  using assms by (auto simp: credentials_frame_def)

lemma binding_cases:
  assumes run: "ensureAdminClusterRoleBinding E c w = (r, w')"
  shows "credentials_frame (rc_host c) (view w) (view w') \<and>
    (r = Inr u \<longrightarrow> has_admin_binding E (view w') (rc_host c))"
proof -
  let ?k = "([], workspaceClusterRoleBindName)" and ?d = "desiredRoleBinding E"
  obtain g w1 where g: "rget (p_crbs E) c ?k w = (g, w1)" by fastforce
  have v1: "view w1 = view w" by (rule crb.get_reads [OF g])
  from run g consider
      (create) g2 where "g = Inl NotFound" "rcreate (p_crbs E) c [] ?d w1 = (g2, w')"
        "r = Inr u \<longrightarrow> g2 \<noteq> Inl AlreadyExists \<longrightarrow> (\<exists>x. g2 = Inr x)"
    | (failed) "w' = w1" "r \<noteq> Inr u"
    | (same) b where "g = Inr b" "w' = w1" "length (crb_subjects b) = 1"
        "crb_subjects b ! 0 = crb_subjects ?d ! 0" "crb_roleRef b = crb_roleRef ?d"
    | (update) b g2 where "g = Inr b"
        "rupdate (p_crbs E) c []
          (b\<lparr>crb_subjects := crb_subjects ?d, crb_roleRef := crb_roleRef ?d\<rparr>) w1 = (g2, w')"
        "r = Inr u \<longrightarrow> (\<exists>x. g2 = Inr x)"
    by (rule binding_run_cases)
  then show ?thesis
  proof cases
    case create
    have none: "v_crbs (view w1) (rc_host c, ?k) = None"
      using crb.get_missing [of c ?k w w1] g create(1) v1 by simp
    have "g2 \<noteq> Inl AlreadyExists"
      using crb.create_exists [of c "[]" ?d w1 w'] create(2) none by (auto simp: desired_name)
    with create(3) have ok: "r = Inr u \<longrightarrow> (\<exists>x. g2 = Inr x)" by blast
    have "credentials_frame (rc_host c) (view w) (view w')"
      using crb.create_any [OF create(2)] unfolding v1 desired_name by (rule crbs_frame)
    moreover have "has_admin_binding E (view w') (rc_host c)" if "r = Inr u"
    proof -
      from ok that obtain x where "g2 = Inr x" by blast
      with create(2) have "rcreate (p_crbs E) c [] ?d w1 = (Inr x, w')" by simp
      from crb.create_ok [OF this] show ?thesis by (simp add: has_admin_binding_def desired_name)
    qed
    ultimately show ?thesis by blast
  next
    case failed
    with v1 show ?thesis by simp
  next
    case same
    have "v_crbs (view w) (rc_host c, ?k) = Some b"
      using crb.get_found [of c ?k w b w1] g same(1) by simp
    moreover have "crb_subjects b = crb_subjects ?d"
      using same one_subject_eq [OF _ desired_one_subject, of "crb_subjects b" E] by simp
    ultimately show ?thesis using v1 same by (simp add: has_admin_binding_def)
  next
    case update
    have "v_crbs (view w) (rc_host c, ?k) = Some b"
      using crb.get_found [of c ?k w b w1] g update(1) by simp
    then have nm: "crb_name b = workspaceClusterRoleBindName" by (rule crb.named)
    have "credentials_frame (rc_host c) (view w) (view w')"
      using crb.update_any [OF update(2)] unfolding v1
      by (intro crbs_frame) (simp add: nm)
    moreover have "has_admin_binding E (view w') (rc_host c)" if "r = Inr u"
    proof -
      from update(3) that obtain x where "g2 = Inr x" by blast
      with update(2) have "rupdate (p_crbs E) c [] (b\<lparr>crb_subjects := crb_subjects ?d,
          crb_roleRef := crb_roleRef ?d\<rparr>) w1 = (Inr x, w')" by simp
      from crb.update_ok [OF this] show ?thesis by (auto simp: has_admin_binding_def nm)
    qed
    ultimately show ?thesis by blast
  qed
qed

lemma keeps_token: "keeps view (workspaceServiceAccountToken E p ws)"
  unfolding workspaceServiceAccountToken_def by (intro keeps_intros sec.keeps_get)

lemma token_run:
  assumes run: "workspaceServiceAccountToken E p ws w = (r, w')"
  shows "view w' = view w"
    and "r = Inr tok \<Longrightarrow> \<exists>s. v_secrets (view w) (tokenKey (workspace_host p ws)) = Some s \<and>
           gm_string (sec_data s) ''token'' = tok \<and> tok \<noteq> []"
proof -
  show "view w' = view w"
    by (rule keepsD [where view = view, OF keeps_token run])
  assume "r = Inr tok"
  with run show "\<exists>s. v_secrets (view w) (tokenKey (workspace_host p ws)) = Some s \<and>
           gm_string (sec_data s) ''token'' = tok \<and> tok \<noteq> []"
    by (auto simp: workspaceServiceAccountToken_def or_fail_Inr_iff tokenKey_def
        dest!: sec.get_found client_host split: if_splits)
qed

lemma token_ok:
  assumes "workspaceServiceAccountToken E p ws w = (Inr tok, w')"
  shows "has_token (view w) (workspace_host p ws)"
  using token_run(2) [OF assms refl] by (auto simp: has_token_def)

lemma account_stores:
  assumes "ensureServiceAccount E c w = (r, w')"
  shows "v_namespaces (view w') = v_namespaces (view w)"
  using sa.get_or_create_frame [OF assms [unfolded ensureServiceAccount_shape]] by auto

lemma secret_stores:
  assumes "ensureTokenSecret E c w = (r, w')"
  shows "v_namespaces (view w') = v_namespaces (view w)" "v_accounts (view w') = v_accounts (view w)"
  using sec.get_or_create_frame [OF assms [unfolded ensureTokenSecret_shape]] by auto

lemma binding_stores:
  assumes "ensureAdminClusterRoleBinding E c w = (r, w')"
  shows "v_namespaces (view w') = v_namespaces (view w)" "v_accounts (view w') = v_accounts (view w)"
proof -
  obtain g w1 where g: "rget (p_crbs E) c ([], workspaceClusterRoleBindName) w = (g, w1)" by fastforce
  have v1: "view w1 = view w" by (rule crb.get_reads [OF g])
  have "\<exists>m. view w' = (view w)\<lparr>v_crbs := m\<rparr> \<or> view w' = view w"
    unfolding v1 [symmetric]
    by (rule binding_run_cases [OF assms g, where u = "()"])
      (blast dest: crb.create_any crb.update_any)+
  then show "v_namespaces (view w') = v_namespaces (view w)"
    "v_accounts (view w') = v_accounts (view w)" by auto
qed

text \<open>Setting the credentials up, whatever the outcome, changes only the four objects.\<close>

lemma credentials_any:
  assumes run: "ensureScopedWorkspaceCredentials E p ws w = (r, w')"
  shows "credentials_frame (workspace_host p ws) (view w) (view w')"
proof (cases "kubeClientForWorkspace E p ws")
  case (Inl e)
  with run show ?thesis by (simp add: ensureScopedWorkspaceCredentials_def or_fail_run)
next
  case (Inr c)
  let ?P = "\<lambda>u. credentials_frame (rc_host c) (view w) (view u)"
  have steps: "preserves ?P (ensureWorkspaceNamespace E c)" "preserves ?P (ensureServiceAccount E c)"
    "preserves ?P (ensureTokenSecret E c)" "preserves ?P (ensureAdminClusterRoleBinding E c)"
    "preserves ?P (workspaceServiceAccountToken E p ws)"
    by (rule preservesI, erule credentials_frame_trans,
        auto dest: namespace_frame account_frame secret_frame binding_cases token_run(1))+
  then have "preserves ?P (ensureScopedWorkspaceCredentials E p ws)"
    unfolding ensureScopedWorkspaceCredentials_def Inr or_fail_lift
    by (intro preserves_or_fail preserves_ret)
  from preservesD [OF this _ run] show ?thesis using client_host(2) [OF Inr] by simp
qed

lemma credentials_ok:
  assumes run: "ensureScopedWorkspaceCredentials E p ws w = (Inr u, w')"
  shows "credentials_ready E (view w') (workspace_host p ws)"
proof -
  from run obtain c w1 w2 w3 w4 tok where
    c: "kubeClientForWorkspace E p ws = Inr c" and
    steps: "ensureWorkspaceNamespace E c w = (Inr (), w1)" "ensureServiceAccount E c w1 = (Inr (), w2)"
      "ensureTokenSecret E c w2 = (Inr (), w3)" "ensureAdminClusterRoleBinding E c w3 = (Inr (), w4)"
      "workspaceServiceAccountToken E p ws w4 = (Inr tok, w')"
    by (auto simp: ensureScopedWorkspaceCredentials_def or_fail_Inr_iff)
  note h = client_host(2) [OF c]
  show ?thesis
    unfolding credentials_ready_def token_run(1) [OF steps(5)]
    using namespace_ok [OF steps(1)] account_ok [OF steps(2)] account_stores [OF steps(2)]
      secret_stores [OF steps(3)] binding_stores [OF steps(4)] binding_cases [OF steps(4)]
      token_ok [OF steps(5)] by (simp add: h)
qed

text \<open>
  Once the credentials are ready, setting them up again writes nothing, whatever fails on the way.
\<close>

lemma binding_present:
  assumes run: "ensureAdminClusterRoleBinding E c w = (r, w')"
    and ready: "has_admin_binding E (view w) (rc_host c)"
  shows "view w' = view w"
proof -
  obtain g w1 where g: "rget (p_crbs E) c ([], workspaceClusterRoleBindName) w = (g, w1)" by fastforce
  have v1: "view w1 = view w" by (rule crb.get_reads [OF g])
  obtain b where b: "v_crbs (view w) (rc_host c, ([], workspaceClusterRoleBindName)) = Some b"
    "crb_subjects b = crb_subjects (desiredRoleBinding E)"
    "crb_roleRef b = crb_roleRef (desiredRoleBinding E)"
    using ready by (auto simp: has_admin_binding_def split: option.splits)
  show ?thesis
  proof (cases g)
    case (Inl e)
    with crb.get_missing [of c _ w w1] g b(1) have "e \<noteq> NotFound" by auto
    with run g Inl v1 show ?thesis
      by (simp add: ensureAdminClusterRoleBinding_def Let_def on_result_run)
  next
    case (Inr b')
    with crb.get_found [of c _ w b' w1] g b have "b' = b" by auto
    with run g Inr v1 b desired_one_subject [of E] show ?thesis
      by (simp add: ensureAdminClusterRoleBinding_def Let_def on_result_run)
  qed
qed

lemma credentials_idem:
  assumes run: "ensureScopedWorkspaceCredentials E p ws w = (r, w')"
    and ready: "credentials_ready E (view w) (workspace_host p ws)"
  shows "view w' = view w"
proof (cases "kubeClientForWorkspace E p ws")
  case (Inl e)
  with run show ?thesis by (simp add: ensureScopedWorkspaceCredentials_def)
next
  case (Inr c)
  note h = client_host(2) [OF Inr]
  let ?P = "\<lambda>u. view u = view w"
  have ns0: "v_namespaces (view w) (rc_host c, ([], ns_name \<lparr>ns_name = workspaceDefaultNamespace\<rparr>)) \<noteq> None"
    and acc0: "v_accounts (view w) (rc_host c, (workspaceDefaultNamespace, sa_name serviceAccount)) \<noteq> None"
    and tok0: "v_secrets (view w) (rc_host c, (workspaceDefaultNamespace, sec_name (tokenSecret E))) \<noteq> None"
    and bnd0: "has_admin_binding E (view w) (rc_host c)"
    using ready by (auto simp: credentials_ready_def has_token_def tokenKey_def tokenSecret_def
        serviceAccount_def h split: option.splits)
  have ns: "preserves ?P (ensureWorkspaceNamespace E c)"
    unfolding ensureWorkspaceNamespace_shape using ns0 by (rule nso.present_preserves)
  have acc: "preserves ?P (ensureServiceAccount E c)"
    unfolding ensureServiceAccount_shape using acc0 by (rule sa.present_preserves)
  have tok: "preserves ?P (ensureTokenSecret E c)"
    unfolding ensureTokenSecret_shape using tok0 by (rule sec.present_preserves)
  have bnd: "preserves ?P (ensureAdminClusterRoleBinding E c)"
    using bnd0 by (intro preservesI) (simp add: binding_present)
  have rd: "preserves ?P (workspaceServiceAccountToken E p ws)"
    using keeps_token by (simp add: preserves_def keeps_def)
  have "preserves ?P (ensureScopedWorkspaceCredentials E p ws)"
    unfolding ensureScopedWorkspaceCredentials_def Inr or_fail_lift
    by (intro preserves_or_fail preserves_ret ns acc tok bnd rd)
  from preservesD [OF this _ run] show ?thesis by simp
qed

end

end
