(* ===== verification/Prov_Bindings.thy ===== *)
theory Prov_Bindings
  imports Prov_Credentials
begin

text \<open>
  \<open>internal/provisioner/binding.go\<close>: the APIBindings every consumer workspace gets.  (The periodic
  \<open>ReconcileWorkspaceBindings\<close> of that file calls \<open>EnsureWorkspaceSetup\<close>; it is in \<open>Prov_Workspace\<close>.)
\<close>

definition desiredBinding :: "provisioner \<Rightarrow> workspace_binding \<Rightarrow> api_binding" where
  "desiredBinding p b =
     \<lparr>ab_apiVersion = ''apis.kcp.io/v1alpha2'', ab_kind = ''APIBinding'', ab_name = wb_name b,
      ab_exportName = wb_exportName b, ab_exportPath = pv_provider p, ab_claims = wb_claims b\<rparr>"

definition ensureBinding ::
  "'w platform \<Rightarrow> provisioner \<Rightarrow> rest_config \<Rightarrow> workspace_binding \<Rightarrow> ('w, unit) prog" where
  "ensureBinding E p wsClient b =
     on_result (rget (p_bindings E) wsClient ([], wb_name b)) (\<lambda>r. case r of
       Inr _ \<Rightarrow> ret ()
     | Inl e \<Rightarrow>
         if e \<noteq> NotFound then fail (ApiErr e)
         else or_fail (rcreate (p_bindings E) wsClient [] (desiredBinding p b)) ApiErr (\<lambda>_. ret ()))"

definition ensureWorkspaceBindings ::
  "'w platform \<Rightarrow> provisioner \<Rightarrow> rest_config \<Rightarrow> ('w, unit) prog" where
  "ensureWorkspaceBindings E p wsClient = for_each (ensureBinding E p wsClient) (pv_bindings p)"

section \<open>What the bindings amount to\<close>

definition has_binding :: "cluster_view \<Rightarrow> string \<Rightarrow> string \<Rightarrow> bool" where
  "has_binding v h n = (v_bindings v (h, ([], n)) \<noteq> None)"

text \<open>
  A change of bindings at \<open>h\<close> that only adds, and adds only the desired ones: every binding that
  was there is untouched.
\<close>

definition bindings_frame :: "provisioner \<Rightarrow> string \<Rightarrow> cluster_view \<Rightarrow> cluster_view \<Rightarrow> bool" where
  "bindings_frame p h v v' \<longleftrightarrow>
     v' = v\<lparr>v_bindings := v_bindings v'\<rparr> \<and>
     (\<forall>k. v_bindings v' k = v_bindings v k \<or>
        v_bindings v k = None \<and>
        (\<exists>b o2. b \<in> set (pv_bindings p) \<and> k = (h, ([], wb_name b)) \<and>
           v_bindings v' k = Some o2 \<and> ab_stored (desiredBinding p b) o2))"

lemma bindings_frame_refl [simp]: "bindings_frame p h v v"
  by (simp add: bindings_frame_def)

lemma bindings_frame_trans:
  assumes "bindings_frame p h v1 v2" and "bindings_frame p h v2 v3"
  shows "bindings_frame p h v1 v3"
proof -
  from assms have "v3 = v1\<lparr>v_bindings := v_bindings v3\<rparr>"
    unfolding bindings_frame_def by (cases v1; cases v2; cases v3) simp
  with assms show ?thesis unfolding bindings_frame_def by metis
qed

lemma bindings_frame_keeps:
  assumes "bindings_frame p h v v'" and "has_binding v h' n"
  shows "has_binding v' h' n"
  using assms unfolding bindings_frame_def has_binding_def by metis

context api_server
begin

lemma ensureBinding_run:
  assumes run: "ensureBinding E p c b w = (r, w')" and b: "b \<in> set (pv_bindings p)"
  shows "bindings_frame p (rc_host c) (view w) (view w')"
    and "r = Inr u \<Longrightarrow> has_binding (view w') (rc_host c) (wb_name b)"
proof -
  let ?d = "desiredBinding p b"
  have nm: "ab_name ?d = wb_name b" by (simp add: desiredBinding_def)
  obtain g w1 where g: "rget (p_bindings E) c ([], wb_name b) w = (g, w1)" by fastforce
  have v1: "view w1 = view w" by (rule ab.get_reads [OF g])
  have "bindings_frame p (rc_host c) (view w) (view w') \<and>
    (r = Inr u \<longrightarrow> has_binding (view w') (rc_host c) (wb_name b))"
  proof (cases "g = Inl NotFound")
    case True
    obtain g2 where c2: "rcreate (p_bindings E) c [] ?d w1 = (g2, w')"
      and r: "r = Inr u \<Longrightarrow> \<exists>x. g2 = Inr x"
      using run g True by (auto simp: ensureBinding_def on_result_run or_fail_run
          split: prod.splits sum.splits)
    have none: "v_bindings (view w) (rc_host c, ([], wb_name b)) = None"
      using ab.get_missing [of c _ w w1] g True by simp
    have "view w' = view w \<or> (\<exists>o2. ab_stored ?d o2 \<and>
        view w' = (view w)\<lparr>v_bindings := (v_bindings (view w))((rc_host c, ([], wb_name b)) \<mapsto> o2)\<rparr>)"
      using ab.create_ok [of c "[]" ?d w1 _ w'] ab.create_error [of c "[]" ?d w1 _ w'] c2
      by (cases g2) (auto simp: nm v1)
    then have "bindings_frame p (rc_host c) (view w) (view w')"
      using none b by (auto simp: bindings_frame_def split: if_splits)
    moreover have "has_binding (view w') (rc_host c) (wb_name b)" if "r = Inr u"
    proof -
      from r [OF that] obtain x where "g2 = Inr x" by blast
      with c2 have "rcreate (p_bindings E) c [] ?d w1 = (Inr x, w')" by simp
      from ab.create_ok [OF this] show ?thesis by (simp add: has_binding_def nm)
    qed
    ultimately show ?thesis by blast
  next
    case False
    with run g have "w' = w1" and "r = Inr u \<Longrightarrow> \<exists>x. g = Inr x"
      by (auto simp: ensureBinding_def on_result_run split: sum.splits)
    then show ?thesis
      using v1 ab.get_found [of c _ w _ w1] g by (auto simp: has_binding_def)
  qed
  then show "bindings_frame p (rc_host c) (view w) (view w')"
    and "r = Inr u \<Longrightarrow> has_binding (view w') (rc_host c) (wb_name b)" by auto
qed

lemma bindings_any:
  assumes run: "ensureWorkspaceBindings E p c w = (r, w')"
  shows "bindings_frame p (rc_host c) (view w) (view w')"
proof -
  have "preserves (\<lambda>u. bindings_frame p (rc_host c) (view w) (view u)) (ensureBinding E p c b)"
    if "b \<in> set (pv_bindings p)" for b
    using that by (intro preservesI) (erule bindings_frame_trans, rule ensureBinding_run(1))
  then have "preserves (\<lambda>u. bindings_frame p (rc_host c) (view w) (view u))
      (ensureWorkspaceBindings E p c)"
    unfolding ensureWorkspaceBindings_def by (rule preserves_for_each)
  from preservesD [OF this _ run] show ?thesis by simp
qed

lemma bindings_loop:
  assumes "for_each (ensureBinding E p c) bs w = (Inr u, w')" and "set bs \<subseteq> set (pv_bindings p)"
  shows "bindings_frame p (rc_host c) (view w) (view w') \<and>
    (\<forall>b \<in> set bs. has_binding (view w') (rc_host c) (wb_name b))"
  using assms
proof (induction bs arbitrary: w)
  case (Cons b bs)
  then obtain w1 where 1: "ensureBinding E p c b w = (Inr (), w1)"
    and 2: "for_each (ensureBinding E p c) bs w1 = (Inr u, w')"
    by (auto simp: or_fail_Inr_iff)
  from Cons.prems(2) have b: "b \<in> set (pv_bindings p)" by simp
  note IH = Cons.IH [OF 2]
  show ?case
    using ensureBinding_run [OF 1 b] IH Cons.prems(2)
    by (auto intro: bindings_frame_trans bindings_frame_keeps)
qed simp

lemma bindings_ok:
  assumes "ensureWorkspaceBindings E p c w = (Inr u, w')" and "b \<in> set (pv_bindings p)"
  shows "has_binding (view w') (rc_host c) (wb_name b)"
  using bindings_loop [OF assms(1) [unfolded ensureWorkspaceBindings_def]] assms(2) by blast

text \<open>Once the bindings are there, the loop writes nothing.\<close>

lemma ensureBinding_present:
  assumes "ensureBinding E p c b w = (r, w')" and "has_binding (view w) (rc_host c) (wb_name b)"
  shows "view w' = view w"
proof -
  obtain g w1 where g: "rget (p_bindings E) c ([], wb_name b) w = (g, w1)" by fastforce
  have v1: "view w1 = view w" by (rule ab.get_reads [OF g])
  have "g \<noteq> Inl NotFound"
    using assms(2) ab.get_missing [of c "([], wb_name b)" w w1] g by (auto simp: has_binding_def)
  with assms(1) g have "w' = w1" by (auto simp: ensureBinding_def on_result_run split: sum.splits)
  with v1 show ?thesis by simp
qed

lemma bindings_present:
  assumes run: "ensureWorkspaceBindings E p c w = (r, w')"
    and "\<And>b. b \<in> set (pv_bindings p) \<Longrightarrow> has_binding (view w) (rc_host c) (wb_name b)"
  shows "view w' = view w"
proof -
  have "preserves (\<lambda>u. view u = view w) (ensureBinding E p c b)" if "b \<in> set (pv_bindings p)" for b
    using assms(2) [OF that] by (intro preservesI) (metis ensureBinding_present)
  then have "preserves (\<lambda>u. view u = view w) (ensureWorkspaceBindings E p c)"
    unfolding ensureWorkspaceBindings_def by (rule preserves_for_each)
  from preservesD [OF this _ run] show ?thesis by simp
qed

end

text \<open>Both halves of a setup satisfy the contract of an ensure step.\<close>

sublocale api_server \<subseteq> credentials: ensure_step view
    "ensureScopedWorkspaceCredentials E p path"
    "\<lambda>v. credentials_ready E v (workspace_host p path)"
    "credentials_frame (workspace_host p path)" for p path
  by unfold_locales
    (simp, erule (1) credentials_frame_trans, erule credentials_any, erule credentials_ok,
      erule (1) credentials_idem)

sublocale api_server \<subseteq> bindings: ensure_step view
    "ensureWorkspaceBindings E p c"
    "\<lambda>v. list_all (\<lambda>b. has_binding v (rc_host c) (wb_name b)) (pv_bindings p)"
    "bindings_frame p (rc_host c)" for p c
proof (unfold_locales, goal_cases)
  case (2 v1 v2 v3)
  then show ?case by (rule bindings_frame_trans)
next
  case (3 w r w')
  then show ?case by (rule bindings_any)
next
  case (4 w u w')
  then show ?case by (auto simp: list_all_iff dest: bindings_ok)
next
  case (5 w r w')
  then show ?case by (auto simp: list_all_iff intro: bindings_present)
qed simp

context api_server
begin

lemma credentials_settle:
  "credentials_frame (workspace_host p path) (view w)
      (view (runs n (ensureScopedWorkspaceCredentials E p path) w)) \<and>
    (fst (ensureScopedWorkspaceCredentials E p path w) = Inr () \<longrightarrow>
      credentials_ready E (view (snd (ensureScopedWorkspaceCredentials E p path w))) (workspace_host p path) \<and>
      view (runs n (ensureScopedWorkspaceCredentials E p path)
          (snd (ensureScopedWorkspaceCredentials E p path w))) =
        view (snd (ensureScopedWorkspaceCredentials E p path w)))"
  using credentials.runs_frame credentials.runs_after_success credentials.ok_goal
  by (metis prod.collapse)

lemma bindings_settle:
  "bindings_frame p (rc_host c) (view w) (view (runs n (ensureWorkspaceBindings E p c) w)) \<and>
    (fst (ensureWorkspaceBindings E p c w) = Inr () \<longrightarrow>
      (\<forall>b \<in> set (pv_bindings p).
         has_binding (view (snd (ensureWorkspaceBindings E p c w))) (rc_host c) (wb_name b)) \<and>
      view (runs n (ensureWorkspaceBindings E p c) (snd (ensureWorkspaceBindings E p c w))) =
        view (snd (ensureWorkspaceBindings E p c w)))"
  using bindings.runs_frame [of p c w n] bindings.runs_after_success [of p c w "()"]
    bindings.ok_goal [of p c w "()"]
  by (cases "ensureWorkspaceBindings E p c w") (auto simp: list_all_iff)

end

end
