(* ===== verification/Prov_Workspace.thy ===== *)
theory Prov_Workspace
  imports Prov_Bindings
begin

text \<open>
  \<open>internal/provisioner/workspace.go\<close> and the periodic reconcile of \<open>binding.go\<close>: creating,
  setting up, listing and deleting consumer workspaces.  A goroutine the code starts is a task in
  the result, run later and independently; a logged error is an entry of a log.
\<close>

datatype task = SyncHeadlamp string bool

section \<open>Operations\<close>

definition IsTransientPhase :: "string \<Rightarrow> bool" where
  "IsTransientPhase phase = (phase \<noteq> ''Ready'' \<and> phase \<noteq> [])"

definition newWorkspace :: "string \<Rightarrow> workspace" where
  "newWorkspace name =
     \<lparr>ws_apiVersion = ''tenancy.kcp.io/v1alpha1'', ws_kind = ''Workspace'', ws_name = name,
      ws_annotations = None, ws_deletion = None, ws_type = Some ''universal'', ws_mount = None,
      ws_cluster = [], ws_url = [], ws_phase = []\<rparr>"

definition ProvisionWorkspace :: "'w platform \<Rightarrow> provisioner \<Rightarrow> string \<Rightarrow> ('w, unit) prog" where
  "ProvisionWorkspace E p name =
     or_fail (lift_sum (kcpClientForWorkspace E p (pv_consumers p)))
       (wrapf ''creating consumers client: %w'' []) (\<lambda>consumers.
     on_result (rcreate (p_workspaces E) consumers [] (newWorkspace name)) (\<lambda>r. case r of
       Inr _ \<Rightarrow> ret ()
     | Inl e \<Rightarrow>
         if e = AlreadyExists then ret ()
         else fail (wrap_api ''creating workspace %q: %w'' [name] e)))"

definition workspacePath :: "provisioner \<Rightarrow> string \<Rightarrow> string" where
  "workspacePath p name = pv_consumers p @ '':'' @ name"

definition EnsureWorkspaceSetup ::
  "'w platform \<Rightarrow> provisioner \<Rightarrow> string \<Rightarrow> ('w, task list) prog" where
  "EnsureWorkspaceSetup E p name =
     or_fail (lift_sum (kcpClientForWorkspace E p (pv_consumers p)))
       (wrapf ''creating consumers client: %w'' []) (\<lambda>consumers.
     or_fail (lift_sum (kcpClientForWorkspace E p (workspacePath p name)))
       (wrapf ''creating workspace client: %w'' []) (\<lambda>wsClient.
     or_fail (ensureWorkspaceBindings E p wsClient)
       (wrapf ''creating APIBindings in workspace %q: %w'' [name]) (\<lambda>_.
     or_fail (ensureScopedWorkspaceCredentials E p (workspacePath p name))
       (wrapf ''creating scoped credentials in workspace %q: %w'' [name]) (\<lambda>_.
     or_fail (markWorkspaceScopedCredentials E consumers name)
       (wrapf ''marking workspace %q for scoped credentials: %w'' [name]) (\<lambda>_.
     ret [SyncHeadlamp name True])))))"

definition GetWorkspace :: "'w platform \<Rightarrow> provisioner \<Rightarrow> string \<Rightarrow> ('w, workspace) prog" where
  "GetWorkspace E p name =
     or_fail (lift_sum (kcpClientForWorkspace E p (pv_consumers p)))
       (wrapf ''creating consumers client: %w'' []) (\<lambda>consumers.
     or_fail (rget (p_workspaces E) consumers ([], name))
       (wrap_api ''getting workspace %q: %w'' [name]) ret)"

definition GetWorkspaceURL :: "'w platform \<Rightarrow> provisioner \<Rightarrow> string \<Rightarrow> ('w, string) prog" where
  "GetWorkspaceURL E p name =
     or_fail (GetWorkspace E p name) (\<lambda>e. e) (\<lambda>ws.
     if ws_url ws = [] then fail (errorf ''workspace %q has no URL (not ready yet?)'' [name])
     else ret (ws_url ws))"

definition DeleteWorkspace ::
  "'w platform \<Rightarrow> provisioner \<Rightarrow> string \<Rightarrow> ('w, task list) prog" where
  "DeleteWorkspace E p name =
     or_fail (lift_sum (kcpClientForWorkspace E p (pv_consumers p)))
       (wrapf ''creating consumers client: %w'' []) (\<lambda>consumers.
     or_fail (rdelete (p_workspaces E) consumers ([], name))
       (wrap_api ''deleting workspace %q: %w'' [name]) (\<lambda>_.
     ret [SyncHeadlamp name False]))"

definition listConsumerWorkspaces :: "'w platform \<Rightarrow> provisioner \<Rightarrow> ('w, workspace list) prog" where
  "listConsumerWorkspaces E p =
     or_fail (lift_sum (kcpClientForWorkspace E p (pv_consumers p)))
       (wrapf ''creating consumers client: %w'' []) (\<lambda>consumers.
     or_fail (rlist (p_workspaces E) consumers []) ApiErr ret)"

section \<open>Listing\<close>

text \<open>The loop over the conditions of a LogicalCluster: the first one of the type decides.\<close>

fun deletionCondition :: "'w platform \<Rightarrow> condition list \<Rightarrow> (string \<times> string) option" where
  "deletionCondition E [] = None"
| "deletionCondition E (c # cs) =
     (if cond_type c \<noteq> c_contentDeleted E then deletionCondition E cs
      else if cond_status c = ''True'' then
        Some (''Finalizing parent'',
          ''Workspace content is deleted; waiting for the parent Workspace object to be removed.'')
      else if cond_message c \<noteq> [] then Some (''Deleting content'', cond_message c)
      else Some (''Deleting content'', []))"

definition logicalClusterDeletionStatus ::
  "'w platform \<Rightarrow> provisioner \<Rightarrow> workspace \<Rightarrow> ('w, string \<times> string) prog" where
  "logicalClusterDeletionStatus E p ws =
     (if ws_cluster ws = [] then
        ret (''Finalizing parent'', ''Waiting for workspace cleanup after scheduling metadata removal.'')
      else (case configForWorkspace p (ws_cluster ws) of
        Inl _ \<Rightarrow> ret (''Terminating'', [])
      | Inr cfg \<Rightarrow>
          (case kcp_new E cfg of
             Some _ \<Rightarrow> ret (''Terminating'', [])
           | None \<Rightarrow>
               on_result (rget (p_logicalclusters E) cfg ([], c_lcName E)) (\<lambda>r. case r of
                 Inl e \<Rightarrow>
                   if e = NotFound then
                     ret (''Finalizing parent'',
                       ''LogicalCluster is gone; waiting for the parent Workspace object to be removed.'')
                   else ret (''Terminating'', [])
               | Inr lc \<Rightarrow>
                   (case deletionCondition E (lc_conditions lc) of
                      Some s \<Rightarrow> ret s
                    | None \<Rightarrow>
                        if lc_deletion lc \<noteq> None \<and> lc_deletion lc \<noteq> Some ZeroTime then
                          ret (''Deleting content'', ''LogicalCluster deletion is in progress.'')
                        else ret (''Terminating'', []))))))"

definition countDatabases :: "'w platform \<Rightarrow> provisioner \<Rightarrow> string \<Rightarrow> ('w, nat) prog" where
  "countDatabases E p wsPath =
     (case configForWorkspace p wsPath of
        Inl _ \<Rightarrow> ret 0
      | Inr cfg \<Rightarrow>
          (case dyn_new E cfg of
             Some _ \<Rightarrow> ret 0
           | None \<Rightarrow>
               on_result (p_listDatabases E cfg mongodbDatabaseGVR []) (\<lambda>r. case r of
                 Inl _ \<Rightarrow> ret 0 | Inr items \<Rightarrow> ret (length items))))"

definition dash :: string where
  "dash = [CHR 0xE2, CHR 0x80, CHR 0x94]"

definition initialInfo :: "workspace \<Rightarrow> workspace_info" where
  "initialInfo ws =
     \<lparr>wi_name = ws_name ws, wi_phase = ws_phase ws, wi_status = ws_phase ws,
      wi_statusClass = ''warning text-dark'', wi_statusDetail = [], wi_transient = False,
      wi_url = ws_url ws, wi_databaseCount = 0, wi_headlampReady = False\<rparr>"

text \<open>The body of the loop of \<open>ListWorkspaces\<close>.\<close>

definition workspaceInfo ::
  "'w platform \<Rightarrow> provisioner \<Rightarrow> workspace \<Rightarrow> ('w, workspace_info) prog" where
  "workspaceInfo E p ws =
     (let info = initialInfo ws in
      if ws_deletion ws \<noteq> None then
        or_fail (logicalClusterDeletionStatus E p ws) (\<lambda>e. e) (\<lambda>(status, detail).
        ret (info\<lparr>wi_phase := ''Terminating'', wi_status := status, wi_statusDetail := detail,
                  wi_transient := True,
                  wi_statusClass := (if status = ''Finalizing parent'' then ''info''
                                     else ''secondary'')\<rparr>))
      else if ws_phase ws = ''Ready'' then
        or_fail (countDatabases E p (workspacePath p (ws_name ws))) (\<lambda>e. e) (\<lambda>n.
        ret (info\<lparr>wi_status := ''Ready'', wi_statusClass := ''success'',
                  wi_headlampReady := (workspaceCredentialMode ws = CredentialsScoped),
                  wi_databaseCount := n\<rparr>))
      else if ws_phase ws = [] then ret (info\<lparr>wi_status := dash\<rparr>)
      else ret (info\<lparr>wi_transient := IsTransientPhase (ws_phase ws)\<rparr>))"

fun workspaceInfos ::
  "'w platform \<Rightarrow> provisioner \<Rightarrow> workspace list \<Rightarrow> ('w, workspace_info list) prog" where
  "workspaceInfos E p [] = ret []"
| "workspaceInfos E p (ws # wss) =
     or_fail (workspaceInfo E p ws) (\<lambda>e. e) (\<lambda>info.
     or_fail (workspaceInfos E p wss) (\<lambda>e. e) (\<lambda>infos. ret (info # infos)))"

definition ListWorkspaces :: "'w platform \<Rightarrow> provisioner \<Rightarrow> ('w, workspace_info list) prog" where
  "ListWorkspaces E p =
     or_fail (listConsumerWorkspaces E p) (wrapf ''listing workspaces: %w'' [])
       (\<lambda>items. workspaceInfos E p items)"

section \<open>The periodic reconcile (binding.go)\<close>

type_synonym log = "(string \<times> string list \<times> go_error) list"

text \<open>The loop: an error is logged and the next workspace is served.\<close>

fun reconcileEach ::
  "'w platform \<Rightarrow> provisioner \<Rightarrow> workspace list \<Rightarrow> 'w \<Rightarrow> (log \<times> task list) \<times> 'w" where
  "reconcileEach E p [] w = (([], []), w)"
| "reconcileEach E p (ws # wss) w =
     (if ws_deletion ws \<noteq> None \<or> IsTransientPhase (ws_phase ws) then reconcileEach E p wss w
      else (case EnsureWorkspaceSetup E p (ws_name ws) w of
        (Inl e, w') \<Rightarrow>
          (case reconcileEach E p wss w' of ((l, ts), w'') \<Rightarrow>
             (((''workspace reconcile: ensure setup'', [ws_name ws], e) # l, ts), w''))
      | (Inr t, w') \<Rightarrow>
          (case reconcileEach E p wss w' of ((l, ts), w'') \<Rightarrow> ((l, t @ ts), w''))))"

definition ReconcileWorkspaceBindings ::
  "'w platform \<Rightarrow> provisioner \<Rightarrow> 'w \<Rightarrow> (log \<times> task list) \<times> 'w" where
  "ReconcileWorkspaceBindings E p w =
     (case listConsumerWorkspaces E p w of
        (Inl e, w') \<Rightarrow> (([(''workspace binding reconcile: list workspaces'', [], e)], []), w')
      | (Inr items, w') \<Rightarrow> reconcileEach E p items w')"

section \<open>What a workspace that is set up amounts to\<close>

definition consumersHost :: "provisioner \<Rightarrow> string" where
  "consumersHost p = workspace_host p (pv_consumers p)"

definition workspaceKey :: "provisioner \<Rightarrow> string \<Rightarrow> string \<times> objkey" where
  "workspaceKey p name = (consumersHost p, ([], name))"

definition tenantHost :: "provisioner \<Rightarrow> string \<Rightarrow> string" where
  "tenantHost p name = workspace_host p (workspacePath p name)"

definition is_scoped :: "provisioner \<Rightarrow> cluster_view \<Rightarrow> string \<Rightarrow> bool" where
  "is_scoped p v name =
     (case v_workspaces v (workspaceKey p name) of
        None \<Rightarrow> False | Some ws \<Rightarrow> workspaceCredentialMode ws = CredentialsScoped)"

definition has_bindings :: "provisioner \<Rightarrow> cluster_view \<Rightarrow> string \<Rightarrow> bool" where
  "has_bindings p v name =
     list_all (\<lambda>b. has_binding v (tenantHost p name) (wb_name b)) (pv_bindings p)"

definition setup_done :: "'w platform \<Rightarrow> provisioner \<Rightarrow> cluster_view \<Rightarrow> string \<Rightarrow> bool" where
  "setup_done E p v name =
     (has_bindings p v name \<and> credentials_ready E v (tenantHost p name) \<and> is_scoped p v name)"

text \<open>The safety invariant: a workspace is marked as scoped only when its credentials are there.\<close>

definition scoped_inv :: "'w platform \<Rightarrow> provisioner \<Rightarrow> cluster_view \<Rightarrow> bool" where
  "scoped_inv E p v \<longleftrightarrow>
     (\<forall>name. is_scoped p v name \<longrightarrow> credentials_ready E v (tenantHost p name))"

text \<open>
  A change of one workspace object: nothing, or the object that was there as the server stored it
  with the annotation set.
\<close>

definition marked :: "workspace \<Rightarrow> workspace" where
  "marked ws = ws\<lparr>ws_annotations := gm_put (ws_annotations ws) workspaceCredentialAnnotation ''true''\<rparr>"

definition mark_frame :: "string \<times> objkey \<Rightarrow> cluster_view \<Rightarrow> cluster_view \<Rightarrow> bool" where
  "mark_frame k v v' \<longleftrightarrow> v' = v \<or>
     (\<exists>old o2. v_workspaces v k = Some old \<and> ws_stored (marked old) o2 \<and>
        v' = v\<lparr>v_workspaces := (v_workspaces v)(k \<mapsto> o2)\<rparr>)"

text \<open>\<open>v'\<close> keeps all that is set up in \<open>v\<close>.\<close>

definition keeps_setup :: "'w platform \<Rightarrow> provisioner \<Rightarrow> cluster_view \<Rightarrow> cluster_view \<Rightarrow> bool" where
  "keeps_setup E p v v' \<longleftrightarrow>
     (\<forall>h n. has_binding v h n \<longrightarrow> has_binding v' h n) \<and>
     (\<forall>h. credentials_ready E v h \<longrightarrow> credentials_ready E v' h) \<and>
     (\<forall>n. is_scoped p v n \<longrightarrow> is_scoped p v' n)"

lemma keeps_setup_refl [simp]: "keeps_setup E p v v"
  by (simp add: keeps_setup_def)

lemma keeps_setup_trans:
  "keeps_setup E p v1 v2 \<Longrightarrow> keeps_setup E p v2 v3 \<Longrightarrow> keeps_setup E p v1 v3"
  by (simp add: keeps_setup_def)

lemma keeps_setup_done: "keeps_setup E p v v' \<Longrightarrow> setup_done E p v name \<Longrightarrow> setup_done E p v' name"
  by (auto simp: keeps_setup_def setup_done_def has_bindings_def list_all_iff)

lemma marked_scoped: "ws_stored (marked ws) o2 \<Longrightarrow> workspaceCredentialMode o2 = CredentialsScoped"
  by (auto simp: ws_stored_def marked_def workspaceCredentialMode_def dest: extends_put_string)

lemma annotation_not_server_key: "\<not> server_key workspaceCredentialAnnotation"
  by (simp add: server_key_def workspaceCredentialAnnotation_def)

lemma new_not_scoped:
  "ws_stored (newWorkspace n) o2 \<Longrightarrow> workspaceCredentialMode o2 = CredentialsAdmin"
  using annotation_not_server_key
  by (simp add: ws_stored_def newWorkspace_def workspaceCredentialMode_def gm_string_get)
    (simp add: gm_get_def)

lemma dying_mode: "ws_dying o1 o2 \<Longrightarrow> workspaceCredentialMode o2 = workspaceCredentialMode o1"
  by (auto simp: ws_dying_def workspaceCredentialMode_def)

lemma mark_frame_scoped:
  assumes "mark_frame (workspaceKey p name) v v'" and "is_scoped p v' n"
  shows "is_scoped p v n \<or> n = name"
  using assms by (auto simp: mark_frame_def is_scoped_def workspaceKey_def split: if_splits)

lemma mark_frame_rest:
  assumes "mark_frame k v v'"
  shows "v_bindings v' = v_bindings v" "credentials_ready E v' h = credentials_ready E v h"
  using assms
  by (auto simp: mark_frame_def credentials_ready_def has_token_def has_admin_binding_def)

lemma mark_frame_keeps: "mark_frame (workspaceKey p name) v v' \<Longrightarrow> keeps_setup E p v v'"
  unfolding keeps_setup_def using mark_frame_rest [of "workspaceKey p name" v v']
  by (auto simp: has_binding_def mark_frame_def is_scoped_def dest: marked_scoped)

lemma bindings_frame_ready:
  assumes "bindings_frame p h v v'"
  shows "credentials_ready E v' h' = credentials_ready E v h'" "is_scoped p v' n = is_scoped p v n"
proof -
  from assms obtain b where "v' = v\<lparr>v_bindings := b\<rparr>" by (auto simp: bindings_frame_def)
  then show "credentials_ready E v' h' = credentials_ready E v h'" "is_scoped p v' n = is_scoped p v n"
    by (simp_all add: credentials_ready_def has_token_def has_admin_binding_def is_scoped_def)
qed

lemma bindings_frame_keeps_setup: "bindings_frame p h v v' \<Longrightarrow> keeps_setup E p v v'"
  unfolding keeps_setup_def using bindings_frame_ready [of p h v v'] bindings_frame_keeps [of p h v v']
  by blast

lemma credentials_frame_rest:
  assumes "credentials_frame h v v'"
  shows "v_workspaces v' = v_workspaces v" "v_bindings v' = v_bindings v"
proof -
  from assms obtain a b c d where
    "v' = v\<lparr>v_namespaces := a, v_accounts := b, v_secrets := c, v_crbs := d\<rparr>"
    unfolding credentials_frame_def by blast
  then show "v_workspaces v' = v_workspaces v" "v_bindings v' = v_bindings v" by simp_all
qed

lemma credentials_frame_elsewhere:
  assumes "credentials_frame h v v'" and "h' \<noteq> h"
  shows "credentials_ready E v' h' = credentials_ready E v h'"
proof -
  from assms have "v_namespaces v' (h', k) = v_namespaces v (h', k)"
    "v_accounts v' (h', k) = v_accounts v (h', k)" "v_secrets v' (h', k) = v_secrets v (h', k)"
    "v_crbs v' (h', k) = v_crbs v (h', k)" for k
    by (auto simp: credentials_frame_def tokenKey_def elim!: same_exceptD)
  then show ?thesis
    by (simp add: credentials_ready_def has_token_def has_admin_binding_def tokenKey_def)
qed

section \<open>What the list shows\<close>

text \<open>The row of a workspace in the list, by its deletion timestamp and its phase.\<close>

definition listed_as :: "workspace \<Rightarrow> workspace_info \<Rightarrow> bool" where
  "listed_as ws i \<longleftrightarrow>
     wi_name i = ws_name ws \<and> wi_url i = ws_url ws \<and>
     (if ws_deletion ws \<noteq> None then
        wi_phase i = ''Terminating'' \<and> wi_transient i \<and> \<not> wi_headlampReady i \<and> wi_databaseCount i = 0 \<and>
        wi_status i \<in> {''Finalizing parent'', ''Deleting content'', ''Terminating''} \<and>
        wi_statusClass i = (if wi_status i = ''Finalizing parent'' then ''info'' else ''secondary'')
      else if ws_phase ws = ''Ready'' then
        wi_phase i = ''Ready'' \<and> wi_status i = ''Ready'' \<and> wi_statusClass i = ''success'' \<and>
        wi_statusDetail i = [] \<and> \<not> wi_transient i \<and>
        wi_headlampReady i = (workspaceCredentialMode ws = CredentialsScoped)
      else
        wi_phase i = ws_phase ws \<and> wi_status i = (if ws_phase ws = [] then dash else ws_phase ws) \<and>
        wi_statusClass i = ''warning text-dark'' \<and> wi_statusDetail i = [] \<and>
        wi_transient i = (ws_phase ws \<noteq> []) \<and> \<not> wi_headlampReady i \<and> wi_databaseCount i = 0)"

lemma deletionCondition_status:
  "deletionCondition E cs = Some (s, d) \<Longrightarrow> s \<in> {''Finalizing parent'', ''Deleting content''}"
  by (induction cs) (auto split: if_splits)

text \<open>The status of a deletion is one of three, and asking for it cannot fail.\<close>

lemma deletion_status_total:
  "\<exists>s d w'. logicalClusterDeletionStatus E p ws w = (Inr (s, d), w') \<and>
     s \<in> {''Finalizing parent'', ''Deleting content'', ''Terminating''}"
  by (auto simp: logicalClusterDeletionStatus_def on_result_run split: sum.split option.split prod.split
      dest: deletionCondition_status)

lemma count_total: "\<exists>n w'. countDatabases E p path w = (Inr n, w')"
  by (auto simp: countDatabases_def on_result_run split: sum.split option.split prod.split)

lemma info_total: "\<exists>i w'. workspaceInfo E p ws w = (Inr i, w') \<and> listed_as ws i"
proof -
  obtain s d w1 where 1: "logicalClusterDeletionStatus E p ws w = (Inr (s, d), w1)"
    "s \<in> {''Finalizing parent'', ''Deleting content'', ''Terminating''}"
    using deletion_status_total [of E p ws w] by blast
  obtain n w2 where 2: "countDatabases E p (workspacePath p (ws_name ws)) w = (Inr n, w2)"
    using count_total [of E p "workspacePath p (ws_name ws)" w] by blast
  show ?thesis
    using 1(2)
    by (auto simp: workspaceInfo_def Let_def or_fail_run 1(1) 2 listed_as_def initialInfo_def
        IsTransientPhase_def)
qed

lemma infos_total: "\<exists>is w'. workspaceInfos E p wss w = (Inr is, w') \<and> list_all2 listed_as wss is"
proof (induction wss arbitrary: w)
  case (Cons ws wss)
  obtain i w1 where 1: "workspaceInfo E p ws w = (Inr i, w1)" "listed_as ws i"
    using info_total [of E p ws w] by blast
  obtain "is" w2 where 2: "workspaceInfos E p wss w1 = (Inr is, w2)" "list_all2 listed_as wss is"
    using Cons.IH [of w1] by blast
  show ?case using 1 2 by (simp add: or_fail_run)
qed simp

section \<open>What the reconcile serves\<close>

definition eligible :: "workspace \<Rightarrow> bool" where
  "eligible ws \<longleftrightarrow> ws_deletion ws = None \<and> \<not> IsTransientPhase (ws_phase ws)"

lemma eligible_iff: "eligible ws \<longleftrightarrow> ws_deletion ws = None \<and> (ws_phase ws = ''Ready'' \<or> ws_phase ws = [])"
  by (auto simp: eligible_def IsTransientPhase_def)

fun served :: "task \<Rightarrow> string" where
  "served (SyncHeadlamp n _) = n"

lemma reconcile_eligible: "reconcileEach E p wss w = reconcileEach E p (filter eligible wss) w"
  by (induction wss arbitrary: w) (auto simp: eligible_def split: prod.split sum.split)

text \<open>
  Every eligible workspace gets its setup, whatever became of the ones before it, and each setup
  ends in one task or one entry of the log.
\<close>

lemma reconcile_serves:
  assumes "reconcileEach E p wss w = ((l, ts), w')"
  shows "ts = map (\<lambda>n. SyncHeadlamp n True) (map served ts) \<and>
    length l + length ts = length (filter eligible wss) \<and>
    set (map (\<lambda>e. hd (fst (snd e))) l) \<union> set (map served ts) = set (map ws_name (filter eligible wss))"
  using assms
proof (induction wss arbitrary: w l ts)
  case (Cons ws wss)
  show ?case
  proof (cases "eligible ws")
    case False
    with Cons show ?thesis by (auto simp: eligible_def)
  next
    case True
    then have e: "\<not> (ws_deletion ws \<noteq> None \<or> IsTransientPhase (ws_phase ws))" by (simp add: eligible_def)
    obtain r w1 where s: "EnsureWorkspaceSetup E p (ws_name ws) w = (r, w1)" by fastforce
    obtain l1 ts1 w2 where rest: "reconcileEach E p wss w1 = ((l1, ts1), w2)" by (metis prod.collapse)
    show ?thesis
    proof (cases r)
      case (Inl err)
      with Cons.prems e s rest
      have "l = (''workspace reconcile: ensure setup'', [ws_name ws], err) # l1" "ts = ts1" "w' = w2"
        by auto
      with Cons.IH [of w1 l1 ts1] rest True show ?thesis by auto
    next
      case (Inr t)
      with s have t: "t = [SyncHeadlamp (ws_name ws) True]"
        by (auto simp: EnsureWorkspaceSetup_def elim!: or_fail_InrE)
      from Inr Cons.prems e s rest have "l = l1" "ts = t @ ts1" "w' = w2" by auto
      with Cons.IH [of w1 l1 ts1] rest True t show ?thesis by auto
    qed
  qed
qed simp

section \<open>Under the laws of the API server\<close>

context api_server
begin

lemma mark_any:
  assumes run: "markWorkspaceScopedCredentials E c name w = (r, w')"
  shows "mark_frame (rc_host c, ([], name)) (view w) (view w')"
proof -
  obtain g w1 where g: "rget (p_workspaces E) c ([], name) w = (g, w1)" by fastforce
  have v1: "view w1 = view w" by (rule ws.get_reads [OF g])
  show ?thesis
  proof (cases g)
    case (Inl e)
    with run g have "w' = w1" by (simp add: markWorkspaceScopedCredentials_def or_fail_run)
    with v1 show ?thesis by (simp add: mark_frame_def)
  next
    case (Inr old)
    from ws.get_found [OF g [unfolded Inr]]
    have old: "v_workspaces (view w) (rc_host c, ([], name)) = Some old" .
    then have nm: "ws_name (marked old) = name" using ws.named by (simp add: marked_def)
    obtain u where u: "rupdate (p_workspaces E) c [] (marked old) w1 = (u, w')"
      using run g Inr by (auto simp: markWorkspaceScopedCredentials_def or_fail_run marked_def
          split: prod.splits sum.splits)
    from ws.update_ok [of c "[]" "marked old" w1 _ w'] ws.update_error [of c "[]" "marked old" w1 _ w'] u
    have "view w' = view w1 \<or> (\<exists>o2. ws_stored (marked old) o2 \<and> view w' =
        (view w1)\<lparr>v_workspaces := (v_workspaces (view w1))((rc_host c, ([], name)) \<mapsto> o2)\<rparr>)"
      by (cases u) (auto simp: nm)
    with old v1 show ?thesis by (auto simp: mark_frame_def)
  qed
qed

lemma mark_ok:
  assumes run: "markWorkspaceScopedCredentials E c name w = (Inr u, w')"
  shows "\<exists>o2. v_workspaces (view w') (rc_host c, ([], name)) = Some o2 \<and>
    workspaceCredentialMode o2 = CredentialsScoped"
proof -
  from run obtain old w1 o2 where g: "rget (p_workspaces E) c ([], name) w = (Inr old, w1)"
    and u: "rupdate (p_workspaces E) c [] (marked old) w1 = (Inr o2, w')"
    by (auto simp: markWorkspaceScopedCredentials_def marked_def elim!: or_fail_InrE)
  from ws.get_found [OF g] ws.named have "ws_name (marked old) = name" by (simp add: marked_def)
  with ws.update_ok [OF u] marked_scoped [of old o2] show ?thesis by simp
qed

lemma credentials_keeps_setup:
  assumes run: "ensureScopedWorkspaceCredentials E p path w = (r, w')"
  shows "keeps_setup E p (view w) (view w')"
proof -
  note fr = credentials_any [OF run]
  have "credentials_ready E (view w) h \<Longrightarrow> credentials_ready E (view w') h" for h
    using credentials_frame_elsewhere [OF fr, of h E] credentials_idem [OF run]
    by (cases "h = workspace_host p path") auto
  then show ?thesis
    using credentials_frame_rest [OF fr] by (simp add: keeps_setup_def has_binding_def is_scoped_def)
qed

text \<open>The steps of one setup, on every path: bindings, credentials, mark.\<close>

lemma setup_path:
  assumes run: "EnsureWorkspaceSetup E p name w = (r, w')"
  obtains w1 w2 where
    "bindings_frame p (tenantHost p name) (view w) (view w1)"
    "has_bindings p (view w) name \<Longrightarrow> view w1 = view w"
    "credentials_ready E (view w1) (tenantHost p name) \<Longrightarrow> view w2 = view w1"
    "credentials_frame (tenantHost p name) (view w1) (view w2)"
    "keeps_setup E p (view w1) (view w2)"
    "mark_frame (workspaceKey p name) (view w2) (view w')"
    "view w' \<noteq> view w2 \<Longrightarrow> credentials_ready E (view w2) (tenantHost p name)"
proof -
  show ?thesis
  proof (cases "kcpClientForWorkspace E p (pv_consumers p)")
    case (Inl e)
    with run have "w' = w" by (simp add: EnsureWorkspaceSetup_def)
    then show ?thesis using that [of w w] by (simp add: mark_frame_def)
  next
    case (Inr c)
    note hc = client_host(1) [OF Inr]
    show ?thesis
    proof (cases "kcpClientForWorkspace E p (workspacePath p name)")
      case (Inl e)
      with run Inr have "w' = w" by (simp add: EnsureWorkspaceSetup_def)
      then show ?thesis using that [of w w] by (simp add: mark_frame_def)
    next
      case (Inr c2)
      note h2 = client_host(1) [OF Inr, folded tenantHost_def]
      obtain r1 w1 where b: "ensureWorkspaceBindings E p c2 w = (r1, w1)" by fastforce
      note fb = bindings_any [OF b, unfolded h2]
      have ib: "has_bindings p (view w) name \<Longrightarrow> view w1 = view w"
        using bindings.goal_stable [OF b] by (simp add: has_bindings_def h2)
      obtain r2 w2 where cr: "ensureScopedWorkspaceCredentials E p (workspacePath p name) w1 = (r2, w2)"
        by fastforce
      note fc = credentials_any [OF cr, folded tenantHost_def]
      note ic = credentials_idem [OF cr, folded tenantHost_def]
      obtain r3 w3 where m: "markWorkspaceScopedCredentials E c name w2 = (r3, w3)" by fastforce
      note fm = mark_any [OF m, unfolded hc, folded consumersHost_def, folded workspaceKey_def]
      note R = run [unfolded EnsureWorkspaceSetup_def \<open>kcpClientForWorkspace E p (pv_consumers p) = Inr c\<close>
          Inr or_fail_lift or_fail_run b prod.case]
      show ?thesis
      proof (cases r1)
        case (Inl e)
        with R have "w' = w1" by simp
        then show ?thesis using that [of w1 w1] fb ib by (simp add: mark_frame_def)
      next
        case i1: (Inr u)
        show ?thesis
        proof (cases r2)
          case (Inl e)
          with R i1 have "w' = w2" by (simp add: cr)
          then show ?thesis using that [of w1 w2] fb ib fc ic credentials_keeps_setup [OF cr]
            by (simp add: mark_frame_def)
        next
          case i2: (Inr u')
          with R i1 have "w' = w3" by (auto simp: cr m split: sum.splits)
          then show ?thesis
            using that [of w1 w2] fb ib fc ic fm credentials_keeps_setup [OF cr]
              credentials_ok [OF cr [unfolded i2], folded tenantHost_def] by simp
        qed
      qed
    qed
  qed
qed

lemma setup_keeps: "EnsureWorkspaceSetup E p name w = (r, w') \<Longrightarrow> keeps_setup E p (view w) (view w')"
  by (erule setup_path)
    (erule keeps_setup_trans [OF bindings_frame_keeps_setup],
      erule keeps_setup_trans, erule mark_frame_keeps)

lemma setup_again:
  assumes "EnsureWorkspaceSetup E p name w = (r, w')" and "setup_done E p (view w) name"
  shows "mark_frame (workspaceKey p name) (view w) (view w')"
proof -
  obtain w1 w2 where "has_bindings p (view w) name \<Longrightarrow> view w1 = view w"
    "credentials_ready E (view w1) (tenantHost p name) \<Longrightarrow> view w2 = view w1"
    "mark_frame (workspaceKey p name) (view w2) (view w')"
    by (rule setup_path [OF assms(1)]) blast
  with assms(2) show ?thesis by (simp add: setup_done_def)
qed

lemma setup_inv:
  assumes run: "EnsureWorkspaceSetup E p name w = (r, w')" and inv: "scoped_inv E p (view w)"
  shows "scoped_inv E p (view w')"
  unfolding scoped_inv_def
proof (intro allI impI)
  fix n assume n: "is_scoped p (view w') n"
  obtain w1 w2 where
    b: "bindings_frame p (tenantHost p name) (view w) (view w1)" and
    c: "credentials_frame (tenantHost p name) (view w1) (view w2)" and
    m: "mark_frame (workspaceKey p name) (view w2) (view w')" and
    rdy: "view w' \<noteq> view w2 \<Longrightarrow> credentials_ready E (view w2) (tenantHost p name)"
    by (rule setup_path [OF run]) blast
  show "credentials_ready E (view w') (tenantHost p n)"
  proof (cases "is_scoped p (view w) n")
    case True
    with inv setup_keeps [OF run] show ?thesis by (auto simp: scoped_inv_def keeps_setup_def)
  next
    case False
    then have "\<not> is_scoped p (view w2) n"
      using bindings_frame_ready(2) [OF b] credentials_frame_rest(1) [OF c] by (simp add: is_scoped_def)
    with n mark_frame_scoped [OF m n] have "n = name" "view w' \<noteq> view w2" by auto
    with rdy mark_frame_rest(2) [OF m, of E] show ?thesis by simp
  qed
qed

lemma setup_ok:
  assumes run: "EnsureWorkspaceSetup E p name w = (Inr ts, w')"
  shows "setup_done E p (view w') name" and "ts = [SyncHeadlamp name True]"
proof -
  from run obtain c c2 w1 w2 where
    c: "kcpClientForWorkspace E p (pv_consumers p) = Inr c"
      "kcpClientForWorkspace E p (workspacePath p name) = Inr c2" and
    b: "ensureWorkspaceBindings E p c2 w = (Inr (), w1)" and
    cr: "ensureScopedWorkspaceCredentials E p (workspacePath p name) w1 = (Inr (), w2)" and
    m: "markWorkspaceScopedCredentials E c name w2 = (Inr (), w')" and
    ts: "ts = [SyncHeadlamp name True]"
    by (auto simp: EnsureWorkspaceSetup_def elim!: or_fail_InrE)
  note hc = client_host(1) [OF c(1)] and h2 = client_host(1) [OF c(2), folded tenantHost_def]
  note fm = mark_any [OF m, unfolded hc, folded consumersHost_def, folded workspaceKey_def]
  have "keeps_setup E p (view w1) (view w')"
    using credentials_keeps_setup [OF cr] mark_frame_keeps [OF fm] by (rule keeps_setup_trans)
  then have "has_bindings p (view w') name"
    using bindings_ok [OF b, unfolded h2] by (auto simp: has_bindings_def keeps_setup_def list_all_iff)
  moreover have "credentials_ready E (view w') (tenantHost p name)"
    unfolding mark_frame_rest(2) [OF fm] by (rule credentials_ok [OF cr, folded tenantHost_def])
  moreover have "is_scoped p (view w') name"
    using mark_ok [OF m] by (auto simp: is_scoped_def workspaceKey_def consumersHost_def hc)
  ultimately show "setup_done E p (view w') name" by (simp add: setup_done_def)
  show "ts = [SyncHeadlamp name True]" by (rule ts)
qed

lemma provision_any:
  assumes run: "ProvisionWorkspace E p name w = (r, w')"
  shows "view w' = view w \<or> (v_workspaces (view w) (workspaceKey p name) = None \<and>
    (\<exists>o2. ws_stored (newWorkspace name) o2 \<and> view w' =
       (view w)\<lparr>v_workspaces := (v_workspaces (view w))(workspaceKey p name \<mapsto> o2)\<rparr>))"
proof (cases "kcpClientForWorkspace E p (pv_consumers p)")
  case (Inl e)
  with run show ?thesis by (simp add: ProvisionWorkspace_def)
next
  case (Inr c)
  note hc = client_host(1) [OF Inr]
  obtain g w1 where g: "rcreate (p_workspaces E) c [] (newWorkspace name) w = (g, w1)" by fastforce
  have nm: "ws_name (newWorkspace name) = name" by (simp add: newWorkspace_def)
  from run Inr g have "w' = w1"
    by (auto simp: ProvisionWorkspace_def on_result_run split: sum.splits if_splits)
  moreover from ws.create_ok [of c "[]" "newWorkspace name" w _ w1] g
    ws.create_error [of c "[]" "newWorkspace name" w _ w1]
  have "view w1 = view w \<or> (v_workspaces (view w) (rc_host c, ([], name)) = None \<and>
    (\<exists>o2. ws_stored (newWorkspace name) o2 \<and> view w1 =
       (view w)\<lparr>v_workspaces := (v_workspaces (view w))((rc_host c, ([], name)) \<mapsto> o2)\<rparr>))"
    by (cases g) (simp_all add: nm, blast)
  ultimately show ?thesis by (simp add: workspaceKey_def consumersHost_def hc)
qed

lemma provision_ok:
  assumes run: "ProvisionWorkspace E p name w = (Inr u, w')"
  shows "v_workspaces (view w') (workspaceKey p name) \<noteq> None"
proof -
  from run obtain c where c: "kcpClientForWorkspace E p (pv_consumers p) = Inr c"
    by (auto simp: ProvisionWorkspace_def elim!: or_fail_InrE)
  note hc = client_host(1) [OF c]
  obtain g w1 where g: "rcreate (p_workspaces E) c [] (newWorkspace name) w = (g, w1)" by fastforce
  have nm: "ws_name (newWorkspace name) = name" by (simp add: newWorkspace_def)
  from run c g have "w' = w1 \<and> (g = Inl AlreadyExists \<or> (\<exists>x. g = Inr x))"
    by (auto simp: ProvisionWorkspace_def on_result_run split: sum.splits if_splits)
  then show ?thesis
    using ws.create_ok [of c "[]" "newWorkspace name" w _ w1] g
      ws.create_exists [of c "[]" "newWorkspace name" w w1]
    by (auto simp: nm workspaceKey_def consumersHost_def hc)
qed

lemma provision_inv:
  assumes run: "ProvisionWorkspace E p name w = (r, w')" and inv: "scoped_inv E p (view w)"
  shows "scoped_inv E p (view w')"
  using provision_any [OF run]
proof
  assume "view w' = view w"
  with inv show ?thesis by simp
next
  assume A: "v_workspaces (view w) (workspaceKey p name) = None \<and>
    (\<exists>o2. ws_stored (newWorkspace name) o2 \<and> view w' =
       (view w)\<lparr>v_workspaces := (v_workspaces (view w))(workspaceKey p name \<mapsto> o2)\<rparr>)"
  then obtain o2 where o2: "ws_stored (newWorkspace name) o2" and
    v: "view w' = (view w)\<lparr>v_workspaces := (v_workspaces (view w))(workspaceKey p name \<mapsto> o2)\<rparr>" by blast
  from new_not_scoped [OF o2] have "is_scoped p (view w') n \<Longrightarrow> is_scoped p (view w) n" for n
    by (auto simp: v is_scoped_def workspaceKey_def split: if_splits)
  with inv show ?thesis
    by (auto simp: scoped_inv_def v credentials_ready_def has_token_def has_admin_binding_def)
qed

lemma delete_view:
  assumes run: "DeleteWorkspace E p name w = (r, w')"
  shows "view w' = view w \<or> (\<exists>x. (\<forall>o2. x = Some o2 \<longrightarrow>
      (\<exists>o1. v_workspaces (view w) (workspaceKey p name) = Some o1 \<and> ws_dying o1 o2)) \<and>
    view w' = (view w)\<lparr>v_workspaces := (v_workspaces (view w))(workspaceKey p name := x)\<rparr>)"
proof (cases "kcpClientForWorkspace E p (pv_consumers p)")
  case (Inl e)
  with run show ?thesis by (simp add: DeleteWorkspace_def)
next
  case (Inr c)
  note hc = client_host(1) [OF Inr]
  obtain g where "rdelete (p_workspaces E) c ([], name) w = (g, w')"
    using run Inr by (auto simp: DeleteWorkspace_def or_fail_run split: prod.splits sum.splits)
  from ws.delete_any [OF this] show ?thesis
    by (auto simp: workspaceKey_def consumersHost_def hc split: option.splits)
qed

lemma delete_inv:
  assumes run: "DeleteWorkspace E p name w = (r, w')" and inv: "scoped_inv E p (view w)"
  shows "scoped_inv E p (view w')"
proof -
  have "is_scoped p (view w') n \<Longrightarrow> is_scoped p (view w) n" for n
    using delete_view [OF run]
    by (auto simp: is_scoped_def workspaceKey_def dying_mode split: if_splits option.splits)
  moreover have "credentials_ready E (view w') h = credentials_ready E (view w) h" for h
    using delete_view [OF run]
    by (auto simp: credentials_ready_def has_token_def has_admin_binding_def)
  ultimately show ?thesis using inv by (simp add: scoped_inv_def)
qed

text \<open>The reconcile keeps the invariant, and what it set up stays set up until its end.\<close>

lemma reconcileEach_any:
  assumes "reconcileEach E p wss w = (r, w')"
  shows "(scoped_inv E p (view w) \<longrightarrow> scoped_inv E p (view w')) \<and> keeps_setup E p (view w) (view w')"
  using assms
proof (induction wss arbitrary: w r)
  case (Cons ws wss)
  obtain r1 w1 where s: "EnsureWorkspaceSetup E p (ws_name ws) w = (r1, w1)" by fastforce
  obtain r2 w2 where rest: "reconcileEach E p wss w1 = (r2, w2)" by fastforce
  show ?case
  proof (cases "eligible ws")
    case True
    with Cons.prems s rest have "w' = w2"
      by (auto simp: eligible_def split: sum.splits prod.splits)
    with Cons.IH [of w1 r2] rest setup_keeps [OF s] setup_inv [OF s] show ?thesis
      by (blast intro: keeps_setup_trans)
  next
    case False
    with Cons show ?thesis by (auto simp: eligible_def)
  qed
qed simp

lemma reconcileEach_done:
  assumes "reconcileEach E p wss w = ((l, ts), w')" and "SyncHeadlamp n b \<in> set ts"
  shows "setup_done E p (view w') n"
  using assms
proof (induction wss arbitrary: w l ts)
  case (Cons ws wss)
  show ?case
  proof (cases "eligible ws")
    case False
    with Cons show ?thesis by (auto simp: eligible_def)
  next
    case True
    then have e: "\<not> (ws_deletion ws \<noteq> None \<or> IsTransientPhase (ws_phase ws))" by (simp add: eligible_def)
    obtain r w1 where s: "EnsureWorkspaceSetup E p (ws_name ws) w = (r, w1)" by fastforce
    obtain l1 ts1 w2 where rest: "reconcileEach E p wss w1 = ((l1, ts1), w2)" by (metis prod.collapse)
    have w': "w' = w2" using Cons.prems(1) e s rest by (auto split: sum.splits)
    show ?thesis
    proof (cases "SyncHeadlamp n b \<in> set ts1")
      case True
      with Cons.IH rest w' show ?thesis by blast
    next
      case False
      with Cons.prems e s rest obtain t where r: "r = Inr t" "SyncHeadlamp n b \<in> set t"
        by (auto split: sum.splits)
      note ok = setup_ok [OF s [unfolded r(1)]]
      with r have "n = ws_name ws" by simp
      with ok(1) keeps_setup_done reconcileEach_any [OF rest] w' show ?thesis by blast
    qed
  qed
qed simp

lemma keeps_consumer_list: "keeps view (listConsumerWorkspaces E p)"
  unfolding listConsumerWorkspaces_def by (intro keeps_intros server_reads)

lemma keeps_info: "keeps view (workspaceInfo E p ws1)"
proof -
  have d: "keeps view (p_listDatabases E c g ns)" for c g ns
    by (rule keepsI) (metis databases_read prod.collapse)
  have 1: "keeps view (logicalClusterDeletionStatus E p ws1)"
    unfolding logicalClusterDeletionStatus_def
    by (auto intro!: keeps_intros server_reads split: sum.split option.split)
  have 2: "keeps view (countDatabases E p path)" for path
    unfolding countDatabases_def by (auto intro!: keeps_intros d split: sum.split option.split)
  show ?thesis
    unfolding workspaceInfo_def Let_def by (auto intro!: keeps_intros 1 2 split: prod.split)
qed

lemma keeps_infos: "keeps view (workspaceInfos E p wss)"
  by (induction wss) (simp_all only: workspaceInfos.simps, (intro keeps_intros keeps_info | assumption)+)

lemma keeps_ListWorkspaces: "keeps view (ListWorkspaces E p)"
  unfolding ListWorkspaces_def by (intro keeps_intros keeps_consumer_list keeps_infos)

lemma consumer_list_ok:
  assumes "listConsumerWorkspaces E p w = (Inr wss, w')"
  shows "x \<in> set wss \<longleftrightarrow> v_workspaces (view w) (workspaceKey p (ws_name x)) = Some x"
proof -
  from assms obtain c where c: "kcpClientForWorkspace E p (pv_consumers p) = Inr c"
    and l: "rlist (p_workspaces E) c [] w = (Inr wss, w')"
    by (auto simp: listConsumerWorkspaces_def elim!: or_fail_InrE)
  note h = client_host(1) [OF c]
  show ?thesis
  proof
    assume "x \<in> set wss"
    from ws.list_sound [OF l this] obtain ns where
      "v_workspaces (view w) (rc_host c, (ns, ws_name x)) = Some x" by blast
    with ws_scoped [OF this] show "v_workspaces (view w) (workspaceKey p (ws_name x)) = Some x"
      by (simp add: workspaceKey_def consumersHost_def h)
  next
    assume "v_workspaces (view w) (workspaceKey p (ws_name x)) = Some x"
    then show "x \<in> set wss"
      using ws.list_complete [OF l] by (auto simp: workspaceKey_def consumersHost_def h)
  qed
qed

end

end
