(* ===== verification/Prov_Kubeconfig.thy ===== *)
theory Prov_Kubeconfig
  imports Prov_Workspace
begin

text \<open>
  \<open>internal/provisioner/kubeconfig.go\<close>: the kubeconfigs the provisioner hands out, with their
  server addresses rewritten to where a browser or a tenant reaches kcp.
\<close>

section \<open>Addresses\<close>

definition externalURLForServer :: "string \<Rightarrow> string \<Rightarrow> go_error + string" where
  "externalURLForServer serverURL externalBaseURL =
     (if externalBaseURL = [] then Inr serverURL
      else (case url_parse serverURL of
        Inl e \<Rightarrow> Inl (wrapf ''parsing kcp server URL %q: %w'' [serverURL] e)
      | Inr server \<Rightarrow>
          (case url_parse externalBaseURL of
             Inl e \<Rightarrow> Inl (wrapf ''parsing external kcp base URL %q: %w'' [externalBaseURL] e)
           | Inr base \<Rightarrow>
               Inr (url_string (server\<lparr>u_scheme := u_scheme base, u_host := u_host base\<rparr>)))))"

text \<open>
  The part of \<open>hostWithoutPort\<close> after a URL has been reduced to its host: a port is cut off, and
  brackets without a port are trimmed.
\<close>

definition stripPort :: "string \<Rightarrow> string" where
  "stripPort hostport =
     (if has_prefix hostport ''['' then
        (case split_host_port hostport of
           Inr (host, port) \<Rightarrow> if port \<noteq> [] then host else trim_cutset hostport ''[]''
         | Inl _ \<Rightarrow> trim_cutset hostport ''[]'')
      else (case split_host_port hostport of
           Inr (host, port) \<Rightarrow> if port \<noteq> [] then host else hostport
         | Inl _ \<Rightarrow> hostport))"

definition hostWithoutPort :: "string \<Rightarrow> go_error + string" where
  "hostWithoutPort hostport0 =
     (let hostport = trim_space (trim_cutset hostport0 [CHR 0x22]) in
      if hostport = [] then Inl (errorf ''host is required'' [])
      else if contains hostport ''://'' then
        (case url_parse hostport of
           Inl e \<Rightarrow> Inl (wrapf ''parsing host %q: %w'' [hostport] e)
         | Inr u \<Rightarrow> Inr (stripPort (u_host u)))
      else Inr (stripPort hostport))"

definition ExternalBaseURLForHost :: "string \<Rightarrow> string \<Rightarrow> string \<Rightarrow> go_error + string" where
  "ExternalBaseURLForHost host scheme port =
     (if host = [] then Inl (errorf ''host is required'' [])
      else if scheme = [] then Inl (errorf ''scheme is required'' [])
      else if port = [] then Inl (errorf ''port is required'' [])
      else (case hostWithoutPort host of
        Inl e \<Rightarrow> Inl e
      | Inr cleanHost \<Rightarrow>
          Inr (url_string (empty_url\<lparr>u_scheme := scheme, u_host := join_host_port cleanHost port\<rparr>))))"

section \<open>Kubeconfigs\<close>

text \<open>The cluster entry both functions build: skip TLS verification, or pin the admin's CA.\<close>

definition clusterEntry :: "provisioner \<Rightarrow> string \<Rightarrow> kc_cluster" where
  "clusterEntry p server =
     (let cluster = new_cluster\<lparr>kcl_server := server, kcl_insecure := rc_insecure (pv_admin p)\<rparr> in
      if \<not> kcl_insecure cluster then cluster\<lparr>kcl_caData := rc_caData (pv_admin p)\<rparr> else cluster)"

definition workspaceKubeconfig :: "provisioner \<Rightarrow> string \<Rightarrow> auth_info \<Rightarrow> string \<Rightarrow> kube_config" where
  "workspaceKubeconfig p server authInfo authInfoName =
     new_config\<lparr>kc_clusters := [(''kcp'', clusterEntry p server)],
       kc_authInfos := [(authInfoName, authInfo)],
       kc_contexts := [(''workspace'',
          new_context\<lparr>kcx_cluster := ''kcp'', kcx_authInfo := authInfoName\<rparr>)],
       kc_current := ''workspace''\<rparr>"

definition KubeconfigBytesForExternalBaseURL ::
  "'w platform \<Rightarrow> provisioner \<Rightarrow> workspace \<Rightarrow> string \<Rightarrow> ('w, string) prog" where
  "KubeconfigBytesForExternalBaseURL E p ws externalBaseURL =
     or_fail (lift_sum (externalURLForServer (ws_url ws) externalBaseURL)) (\<lambda>e. e) (\<lambda>serverURL.
     or_fail
       (if workspaceCredentialMode ws = CredentialsScoped then
          or_fail (workspaceServiceAccountToken E p (workspacePath p (ws_name ws))) (\<lambda>e. e)
            (\<lambda>token. ret (new_auth_info\<lparr>au_token := token\<rparr>, workspaceServiceAccountName))
        else ret (adminAuthInfo p, ''admin''))
       (\<lambda>e. e) (\<lambda>(authInfo, authInfoName).
     lift_sum (kc_write E (workspaceKubeconfig p serverURL authInfo authInfoName))))"

definition KubeconfigBytes :: "'w platform \<Rightarrow> provisioner \<Rightarrow> workspace \<Rightarrow> ('w, string) prog" where
  "KubeconfigBytes E p ws = KubeconfigBytesForExternalBaseURL E p ws []"

definition externalKCPBaseURL :: "'w platform \<Rightarrow> provisioner \<Rightarrow> ('w, string) prog" where
  "externalKCPBaseURL E p =
     (case cut_byte (pv_consumers p) (CHR '':'') of (parentPath, workspaceName, found) \<Rightarrow>
        if \<not> found then
          fail (errorf ''consumers workspace %q is not nested under a parent workspace'' [pv_consumers p])
        else
          or_fail (lift_sum (kcpClientForWorkspace E p parentPath))
            (wrapf ''creating parent workspace client: %w'' []) (\<lambda>parentClient.
          or_fail (rget (p_workspaces E) parentClient ([], workspaceName))
            (wrap_api ''getting consumers workspace %q: %w'' [pv_consumers p]) (\<lambda>ws.
          if ws_url ws = [] then
            fail (errorf ''workspace %q has no URL (not ready yet?)'' [pv_consumers p])
          else lift_sum (kcpBaseURL (ws_url ws)))))"

definition adminKubeconfig :: "provisioner \<Rightarrow> string \<Rightarrow> kube_config" where
  "adminKubeconfig p baseURL =
     new_config\<lparr>kc_clusters := [(''root'', clusterEntry p (baseURL @ ''/clusters/root''))],
       kc_authInfos := [(''root'', adminAuthInfo p)],
       kc_contexts := [(''root'', new_context\<lparr>kcx_cluster := ''root'', kcx_authInfo := ''root''\<rparr>)],
       kc_current := ''root''\<rparr>"

definition AdminKubeconfigBytesForExternalBaseURL ::
  "'w platform \<Rightarrow> provisioner \<Rightarrow> string \<Rightarrow> ('w, string) prog" where
  "AdminKubeconfigBytesForExternalBaseURL E p externalBaseURL =
     or_fail (if externalBaseURL = [] then externalKCPBaseURL E p else ret externalBaseURL)
       (\<lambda>e. e) (\<lambda>baseURL.
     lift_sum (kc_write E (adminKubeconfig p baseURL)))"

definition AdminKubeconfigBytes :: "'w platform \<Rightarrow> provisioner \<Rightarrow> ('w, string) prog" where
  "AdminKubeconfigBytes E p = AdminKubeconfigBytesForExternalBaseURL E p []"

section \<open>What a kubeconfig logs in to\<close>

text \<open>The cluster and the credentials a client uses with the current context.\<close>

definition login :: "kube_config \<Rightarrow> (kc_cluster \<times> auth_info) option" where
  "login c =
     (case map_of (kc_contexts c) (kc_current c) of
        None \<Rightarrow> None
      | Some x \<Rightarrow>
          (case (map_of (kc_clusters c) (kcx_cluster x), map_of (kc_authInfos c) (kcx_authInfo x)) of
             (Some cl, Some au) \<Rightarrow> Some (cl, au) | _ \<Rightarrow> None))"

lemma login_workspace: "login (workspaceKubeconfig p s au n) = Some (clusterEntry p s, au)"
  by (simp add: login_def workspaceKubeconfig_def new_context_def)

lemma login_admin:
  "login (adminKubeconfig p b) = Some (clusterEntry p (b @ ''/clusters/root''), adminAuthInfo p)"
  by (simp add: login_def adminKubeconfig_def new_context_def)

lemma clusterEntry_server [simp]: "kcl_server (clusterEntry p s) = s"
  by (simp add: clusterEntry_def Let_def new_cluster_def)

lemma clusterEntry_ca:
  "kcl_insecure (clusterEntry p s) = rc_insecure (pv_admin p)"
  "kcl_caData (clusterEntry p s) = (if rc_insecure (pv_admin p) then [] else rc_caData (pv_admin p))"
  by (simp_all add: clusterEntry_def Let_def new_cluster_def)

section \<open>Lemmas\<close>

text \<open>The rewritten address: the external scheme and host, the workspace's own path.\<close>

lemma external_url_server:
  assumes "scheme_ok s1" "host_ok h1" "path_ok q" "scheme_ok s2" "host_ok h2" "path_ok q2"
  shows "externalURLForServer (s1 @ ''://'' @ h1 @ q) (s2 @ ''://'' @ h2 @ q2) =
    Inr (s2 @ ''://'' @ h2 @ q)"
proof -
  have "(server_url s1 h1 q)\<lparr>u_scheme := u_scheme (server_url s2 h2 q2),
      u_host := u_host (server_url s2 h2 q2)\<rparr> = server_url s2 h2 q"
    by (simp add: server_url_def empty_url_def)
  then show ?thesis
    unfolding externalURLForServer_def
    using parse_server_url [OF assms(1-3)] parse_server_url [OF assms(4-6)]
      string_server_url [OF assms(4,5,3)]
    by simp
qed

text \<open>A host as a client sends it: a name, an IPv4 or an IPv6 address.\<close>

definition client_name :: "string \<Rightarrow> bool" where
  "client_name h = (h \<noteq> [] \<and> list_all (\<lambda>c. is_alnum c \<or> c \<in> set ''-.:'') h)"

lemma client_char:
  assumes "is_alnum c \<or> c \<in> set ''-.:''"
  shows "c \<noteq> CHR ''['' \<and> c \<noteq> CHR '']'' \<and> c \<noteq> CHR ''/'' \<and> c \<noteq> CHR 0x22" "\<not> space_edge c"
  using assms
  by (auto simp: is_alnum_def is_lower_def is_upper_def is_digit_def byte_def space_edge_def
      space_seqs_def)

lemma client_nameD:
  assumes "client_name h"
  shows "CHR ''['' \<notin> set h" "CHR '']'' \<notin> set h" "CHR ''/'' \<notin> set h" "h \<noteq> []"
    "c \<in> set h \<Longrightarrow> is_alnum c \<or> c \<in> set ''-.:''"
proof -
  from assms have ch: "\<And>c. c \<in> set h \<Longrightarrow> is_alnum c \<or> c \<in> set ''-.:''"
    unfolding client_name_def list_all_iff by blast
  from client_char(1) [OF ch] show "CHR ''['' \<notin> set h" "CHR '']'' \<notin> set h" "CHR ''/'' \<notin> set h"
    by blast+
  show "h \<noteq> []" using assms by (simp add: client_name_def)
  show "c \<in> set h \<Longrightarrow> is_alnum c \<or> c \<in> set ''-.:''" by (rule ch)
qed

lemma plain_portD:
  assumes "plain_port q"
  shows "CHR ''['' \<notin> set q" "CHR '']'' \<notin> set q" "CHR ''/'' \<notin> set q" "CHR '':'' \<notin> set q" "q \<noteq> []"
    "c \<in> set q \<Longrightarrow> is_alnum c \<or> c \<in> set ''-.:''"
  using assms by (auto simp: plain_port_def list_all_iff is_digit_def is_alnum_def byte_def)

lemma stripPort_join:
  assumes "CHR ''['' \<notin> set h" "CHR '']'' \<notin> set h" "plain_port q"
  shows "stripPort (join_host_port h q) = h"
  using split_join_host_port [OF assms(1,2) plain_portD(1,2,4) [OF assms(3)]]
    plain_portD(5) [OF assms(3)]
  by (simp add: stripPort_def)

text \<open>A host without a port is kept, an IPv6 address in brackets loses them.\<close>

lemma stripPort_bare:
  assumes "CHR ''['' \<notin> set h" "CHR '']'' \<notin> set h" "count_byte h (CHR '':'') \<noteq> 1"
  shows "stripPort h = h"
proof (cases "cut_last h (CHR '':'')")
  case None
  with assms(1) show ?thesis
    by (cases h) (auto simp: stripPort_def split_host_port_def has_prefix_single)
next
  case (Some r)
  obtain a b where r: "r = (a, b)" by fastforce
  from Some r have h: "h = a @ CHR '':'' # b" "CHR '':'' \<notin> set b" by (auto dest: cut_last_Some)
  with assms(3) have "CHR '':'' \<in> set a" by (auto simp: count_byte_def filter_empty_conv)
  with assms(1) Some r show ?thesis
    by (cases h) (auto simp: stripPort_def split_host_port_def has_prefix_single)
qed

lemma stripPort_bracket:
  assumes "client_name h"
  shows "stripPort (''['' @ h @ '']'') = h"
proof -
  note nb = client_nameD(1,2,4) [OF assms]
  have "cut_byte (CHR ''['' # h @ '']'') (CHR '']'') = (CHR ''['' # h, [], True)"
    using cut_byte_found [of "CHR '']''" "CHR ''['' # h" "[]"] nb by simp
  then have "\<exists>e. split_host_port (''['' @ h @ '']'') = Inl e"
    by (auto simp: split_host_port_def has_prefix_single split: option.split)
  moreover have "trim_cutset (''['' @ h @ '']'') ''[]'' = h"
  proof -
    obtain x t where x: "h = x # t" using nb(3) by (cases h) auto
    obtain u y where y: "h = u @ [y]" using nb(3) by (cases h rule: rev_cases) auto
    have "x \<in> set h" "y \<in> set h" by (simp add: x, simp add: y)
    then have "x \<noteq> CHR ''[''" "x \<noteq> CHR '']''" "y \<noteq> CHR ''[''" "y \<noteq> CHR '']''"
      using nb(1,2) by blast+
    then have "dropWhile (\<lambda>c. c \<in> set ''[]'') (''['' @ h @ '']'') = h @ '']''"
      and "dropWhile (\<lambda>c. c \<in> set ''[]'') (rev (h @ '']'')) = rev h"
      by (simp add: x, simp add: y)
    then show ?thesis by (simp add: trim_cutset_def)
  qed
  ultimately show ?thesis by (auto simp: stripPort_def has_prefix_single)
qed

lemma trimmed_client:
  assumes "s \<noteq> []" and "\<And>c. c \<in> set s \<Longrightarrow> (is_alnum c \<or> c \<in> set ''-.:'') \<or> c = CHR ''['' \<or> c = CHR '']''"
  shows "trim_space (trim_cutset s [CHR 0x22]) = s" "\<not> contains s ''://''"
proof -
  have br: "\<not> space_edge (CHR ''['')" "\<not> space_edge (CHR '']'')"
    by (simp_all add: space_edge_def space_seqs_def)
  have ok: "c \<noteq> CHR 0x22 \<and> \<not> space_edge c \<and> c \<noteq> CHR ''/''" if "c \<in> set s" for c
    using assms(2) [OF that]
  proof (elim disjE [where P = "is_alnum c \<or> c \<in> set ''-.:''"])
    assume "is_alnum c \<or> c \<in> set ''-.:''"
    from client_char [OF this] show ?thesis by blast
  qed (use br in auto)
  have "trim_cutset s [CHR 0x22] = s"
    using ok assms(1) hd_in_set last_in_set by (intro trim_cutset_id) auto
  then show "trim_space (trim_cutset s [CHR 0x22]) = s"
    using ok assms(1) by (simp add: trim_space_id)
  have "CHR ''/'' \<notin> set s" using ok by blast
  then show "\<not> contains s ''://''" by (auto simp: contains_iff)
qed

lemma join_chars:
  assumes "client_name h" "plain_port q" "c \<in> set (join_host_port h q)"
  shows "(is_alnum c \<or> c \<in> set ''-.:'') \<or> c = CHR ''['' \<or> c = CHR '']''"
  using assms(3) client_nameD(5) [OF assms(1), of c] plain_portD(6) [OF assms(2), of c]
  by (auto simp: join_host_port_def split: if_splits)

lemma hostWithoutPort_join:
  assumes "client_name h" "plain_port q"
  shows "hostWithoutPort (join_host_port h q) = Inr h"
proof -
  have "join_host_port h q \<noteq> []" by (simp add: join_host_port_def)
  from trimmed_client [OF this join_chars [OF assms]] this show ?thesis
    using stripPort_join [OF client_nameD(1,2) [OF assms(1)] assms(2)]
    by (simp add: hostWithoutPort_def Let_def)
qed

text \<open>The printed base URL is scheme, host and port; brackets appear exactly for IPv6.\<close>

lemma url_string_base:
  assumes "s \<noteq> []" "client_name h" "plain_port q"
  shows "url_string (empty_url\<lparr>u_scheme := s, u_host := join_host_port h q\<rparr>) =
    s @ ''://'' @ join_host_port h q"
proof -
  have "\<not> should_escape EncHost c" if "c \<in> set (join_host_port h q)" for c
    using join_chars [OF assms(2,3) that] plain_char(1) [of c]
    by (auto simp: should_escape_def)
  then have "escape EncHost (join_host_port h q) = join_host_port h q" by (intro escape_id) blast
  moreover have "join_host_port h q \<noteq> []" by (simp add: join_host_port_def)
  ultimately show ?thesis
    using assms(1)
    by (simp add: url_string_def url_authority_def empty_url_def escaped_path_def Let_def)
qed

lemma external_base_url:
  assumes "client_name h" "plain_port q0" "s \<noteq> []" "plain_port q"
  shows "ExternalBaseURLForHost (join_host_port h q0) s q = Inr (s @ ''://'' @ join_host_port h q)"
  using url_string_base [OF assms(3,1,4)] hostWithoutPort_join [OF assms(1,2)] assms(3)
    plain_portD(5) [OF assms(4)]
  by (simp add: ExternalBaseURLForHost_def join_host_port_def)

lemma external_base_url_required:
  "host = [] \<or> scheme = [] \<or> port = [] \<Longrightarrow> \<exists>e. ExternalBaseURLForHost host scheme port = Inl e"
  by (auto simp: ExternalBaseURLForHost_def)

text \<open>The credentials a kubeconfig of the workspace carries.\<close>

definition scopedAuth :: "string \<Rightarrow> auth_info" where
  "scopedAuth token = new_auth_info\<lparr>au_token := token\<rparr>"

definition kubeconfig_auth ::
  "provisioner \<Rightarrow> cluster_view \<Rightarrow> workspace \<Rightarrow> string \<Rightarrow> auth_info \<Rightarrow> bool" where
  "kubeconfig_auth p v ws n au =
     (case workspaceCredentialMode ws of
        CredentialsAdmin \<Rightarrow> n = ''admin'' \<and> au = adminAuthInfo p
      | CredentialsScoped \<Rightarrow>
          n = workspaceServiceAccountName \<and>
          (case v_secrets v (tokenKey (tenantHost p (ws_name ws))) of
             None \<Rightarrow> False
           | Some s \<Rightarrow> gm_string (sec_data s) ''token'' \<noteq> [] \<and>
                       au = scopedAuth (gm_string (sec_data s) ''token'')))"

context api_server
begin

lemma keeps_kubeconfig: "keeps view (KubeconfigBytesForExternalBaseURL E p ws1 ext)"
  unfolding KubeconfigBytesForExternalBaseURL_def
  by (intro keeps_intros keeps_token)

lemma kubeconfig_ok:
  assumes run: "KubeconfigBytesForExternalBaseURL E p ws1 ext w = (Inr bytes, w')"
  shows "\<exists>server n au. externalURLForServer (ws_url ws1) ext = Inr server \<and>
    kubeconfig_auth p (view w) ws1 n au \<and>
    kc_write E (workspaceKubeconfig p server au n) = Inr bytes"
proof -
  let ?auth = "if workspaceCredentialMode ws1 = CredentialsScoped then
      or_fail (workspaceServiceAccountToken E p (workspacePath p (ws_name ws1))) (\<lambda>e. e)
        (\<lambda>token. ret (new_auth_info\<lparr>au_token := token\<rparr>, workspaceServiceAccountName))
    else ret (adminAuthInfo p, ''admin'')"
  from run obtain server au n w1 where s: "externalURLForServer (ws_url ws1) ext = Inr server"
    and a: "?auth w = (Inr (au, n), w1)"
    and k: "kc_write E (workspaceKubeconfig p server au n) = Inr bytes"
    unfolding KubeconfigBytesForExternalBaseURL_def
    by (auto simp del: or_fail_lift elim!: or_fail_InrE split: prod.splits)
  have "kubeconfig_auth p (view w) ws1 n au"
  proof (cases "workspaceCredentialMode ws1")
    case CredentialsAdmin
    with a show ?thesis by (simp add: kubeconfig_auth_def)
  next
    case CredentialsScoped
    with a obtain tok where t: "workspaceServiceAccountToken E p (workspacePath p (ws_name ws1)) w = (Inr tok, w1)"
      and an: "au = scopedAuth tok" "n = workspaceServiceAccountName"
      by (auto simp: scopedAuth_def elim!: or_fail_InrE)
    from token_run(2) [OF t refl] CredentialsScoped an show ?thesis
      by (auto simp: kubeconfig_auth_def tenantHost_def)
  qed
  with s k show ?thesis by blast
qed

lemma external_base_ok:
  assumes run: "externalKCPBaseURL E p w = (Inr base, w')"
    and path: "pv_consumers p = parent @ CHR '':'' # rest" "CHR '':'' \<notin> set parent"
  shows "\<exists>o1. v_workspaces (view w) (workspace_host p parent, ([], rest)) = Some o1 \<and>
    ws_url o1 \<noteq> [] \<and> kcpBaseURL (ws_url o1) = Inr base"
proof -
  from run path obtain c o1 w1 where c: "kcpClientForWorkspace E p parent = Inr c"
    and g: "rget (p_workspaces E) c ([], rest) w = (Inr o1, w1)"
    and b: "ws_url o1 \<noteq> []" "kcpBaseURL (ws_url o1) = Inr base"
    by (auto simp: externalKCPBaseURL_def elim!: or_fail_InrE split: if_splits)
  from ws.get_found [OF g] b client_host(1) [OF c] show ?thesis by auto
qed

lemma keeps_admin_kubeconfig: "keeps view (AdminKubeconfigBytesForExternalBaseURL E p ext)"
proof -
  have "keeps view (externalKCPBaseURL E p)"
    unfolding externalKCPBaseURL_def
    by (intro keeps_intros server_reads)
  then show ?thesis
    unfolding AdminKubeconfigBytesForExternalBaseURL_def by (intro keeps_intros)
qed

end

end
