(* ===== verification/Prov_Headlamp.thy ===== *)
theory Prov_Headlamp
  imports Prov_Kubeconfig
begin

text \<open>
  \<open>internal/provisioner/headlamp.go\<close>: the Secret with the kubeconfig of the Headlamp dashboard, kept
  in step with the consumer workspaces.  Go ranges over a map in an unspecified order: the orders
  are a parameter, and the facts below hold for every one of them.  A logged error is an entry of
  the log; the function returns nothing else.
\<close>

record range_orders =
  ro_clusters :: "kc_cluster gomap \<Rightarrow> kc_cluster gomap"
  ro_workspaces :: "workspace gomap \<Rightarrow> workspace gomap"

definition headlampServer :: "provisioner \<Rightarrow> string \<Rightarrow> string" where
  "headlampServer p name =
     ''https://kcp-front-proxy.kcp.svc.cluster.local:8443/clusters/'' @ pv_consumers p @ '':'' @ name"

definition managedPrefix :: "provisioner \<Rightarrow> string" where
  "managedPrefix p = ''/clusters/'' @ pv_consumers p @ '':''"

definition deleteEntry :: "string \<Rightarrow> kube_config \<Rightarrow> kube_config" where
  "deleteEntry name cfg =
     cfg\<lparr>kc_clusters := AList.delete name (kc_clusters cfg),
         kc_authInfos := AList.delete name (kc_authInfos cfg),
         kc_contexts := AList.delete name (kc_contexts cfg)\<rparr>"

fun dropStale ::
  "provisioner \<Rightarrow> workspace gomap \<Rightarrow> kube_config \<Rightarrow> string \<times> kc_cluster \<Rightarrow> kube_config" where
  "dropStale p desired cfg (name, cluster) =
     (if \<not> contains (kcl_server cluster) (managedPrefix p) then cfg
      else if map_of desired name \<noteq> None then cfg
      else deleteEntry name cfg)"

definition removeStaleHeadlampEntries ::
  "range_orders \<Rightarrow> provisioner \<Rightarrow> kube_config \<Rightarrow> workspace gomap \<Rightarrow> kube_config" where
  "removeStaleHeadlampEntries ro p cfg0 desired =
     foldl (dropStale p desired) cfg0 (ro_clusters ro (kc_clusters cfg0))"

text \<open>The kubeconfig in the Secret; a missing or unreadable one counts as empty.\<close>

definition headlampConfig :: "'w platform \<Rightarrow> secret \<Rightarrow> kube_config" where
  "headlampConfig E s =
     (let raw = gm_string (sec_data s) ''config'' in
      if raw \<noteq> [] then (case kc_load E raw of Inl _ \<Rightarrow> new_config | Inr cfg \<Rightarrow> cfg)
      else new_config)"

definition keepDesired :: "workspace gomap \<Rightarrow> workspace \<Rightarrow> workspace gomap" where
  "keepDesired d ws = (if ws_deletion ws = None then AList.update (ws_name ws) ws d else d)"

definition desiredWorkspaces :: "workspace list \<Rightarrow> workspace gomap" where
  "desiredWorkspaces items = foldl keepDesired [] items"

text \<open>The \<open>switch\<close> on \<open>add\<close> and \<open>wsName\<close>; the error of \<open>GetWorkspace\<close> is dropped.\<close>

definition adjustDesired ::
  "'w platform \<Rightarrow> provisioner \<Rightarrow> string \<Rightarrow> bool \<Rightarrow> workspace gomap \<Rightarrow> 'w \<Rightarrow> workspace gomap \<times> 'w" where
  "adjustDesired E p wsName add desired w =
     (if add \<and> wsName \<noteq> [] then
        (case GetWorkspace E p wsName w of
           (Inr ws, w') \<Rightarrow>
             (if ws_deletion ws = None then AList.update wsName ws desired else desired, w')
         | (Inl _, w') \<Rightarrow> (desired, w'))
      else if \<not> add \<and> wsName \<noteq> [] then (AList.delete wsName desired, w)
      else (desired, w))"

definition writeEntry :: "provisioner \<Rightarrow> string \<Rightarrow> auth_info \<Rightarrow> kube_config \<Rightarrow> kube_config" where
  "writeEntry p name authInfo cfg =
     cfg\<lparr>kc_clusters := AList.update name (clusterEntry p (headlampServer p name)) (kc_clusters cfg),
         kc_authInfos := AList.update name authInfo (kc_authInfos cfg),
         kc_contexts := AList.update name
           (new_context\<lparr>kcx_cluster := name, kcx_authInfo := name\<rparr>) (kc_contexts cfg)\<rparr>"

text \<open>The body of the loop over the desired workspaces, and the loop.\<close>

definition headlampEntry ::
  "'w platform \<Rightarrow> provisioner \<Rightarrow> string \<Rightarrow> workspace \<Rightarrow> kube_config \<Rightarrow> 'w \<Rightarrow> (log \<times> kube_config) \<times> 'w" where
  "headlampEntry E p name ws cfg w =
     (if workspaceCredentialMode ws = CredentialsScoped then
        (case workspaceServiceAccountToken E p (workspacePath p name) w of
           (Inl err, w') \<Rightarrow> (([(''headlamp sync: read workspace token'', [name], err)], cfg), w')
         | (Inr token, w') \<Rightarrow> (([], writeEntry p name (new_auth_info\<lparr>au_token := token\<rparr>) cfg), w'))
      else (([], writeEntry p name (adminAuthInfo p) cfg), w))"

fun headlampEntries ::
  "'w platform \<Rightarrow> provisioner \<Rightarrow> workspace gomap \<Rightarrow> kube_config \<Rightarrow> 'w \<Rightarrow> (log \<times> kube_config) \<times> 'w" where
  "headlampEntries E p [] cfg w = (([], cfg), w)"
| "headlampEntries E p ((name, ws) # rest) cfg w =
     (case headlampEntry E p name ws cfg w of ((l1, cfg1), w1) \<Rightarrow>
        (case headlampEntries E p rest cfg1 w1 of ((l2, cfg2), w2) \<Rightarrow> ((l1 @ l2, cfg2), w2)))"

definition restartPatch :: "string \<Rightarrow> string" where
  "restartPatch now =
     [CHR ''{'', CHR 0x22] @ ''spec'' @ [CHR 0x22] @ '':{'' @ [CHR 0x22] @ ''template'' @ [CHR 0x22] @
     '':{'' @ [CHR 0x22] @ ''metadata'' @ [CHR 0x22] @ '':{'' @ [CHR 0x22] @ ''annotations'' @ [CHR 0x22] @
     '':{'' @ [CHR 0x22] @ ''kubectl.kubernetes.io/restartedAt'' @ [CHR 0x22] @ '':'' @
     [CHR 0x22] @ now @ [CHR 0x22] @ ''}}}}}''"

text \<open>The last part: write the Secret, then restart the Deployment; \<open>now\<close> is the time as printed.\<close>

definition storeHeadlamp ::
  "'w platform \<Rightarrow> string \<Rightarrow> provisioner \<Rightarrow> rest_config \<Rightarrow> secret \<Rightarrow> kube_config \<Rightarrow> 'w \<Rightarrow> log \<times> 'w" where
  "storeHeadlamp E now p k8s s cfg w =
     (case kc_write E cfg of
        Inl err \<Rightarrow> ([(''headlamp sync: marshal kubeconfig'', [], err)], w)
      | Inr data \<Rightarrow>
          (case rupdate (p_secrets E) k8s (pv_headlampNamespace p)
                  (s\<lparr>sec_data := gm_put (sec_data s) ''config'' data\<rparr>) w of
             (Inl err, w') \<Rightarrow> ([(''headlamp sync: update secret'', [], ApiErr err)], w')
           | (Inr _, w') \<Rightarrow>
               (case p_patchDeployment E k8s (pv_headlampNamespace p, pv_headlampDeployment p)
                       (restartPatch now) w' of
                  (Inl err, w'') \<Rightarrow> ([(''headlamp sync: restart deployment'', [], ApiErr err)], w'')
                | (Inr _, w'') \<Rightarrow> ([], w''))))"

definition syncHeadlamp ::
  "'w platform \<Rightarrow> range_orders \<Rightarrow> string \<Rightarrow> provisioner \<Rightarrow> string \<Rightarrow> bool \<Rightarrow> 'w \<Rightarrow> log \<times> 'w" where
  "syncHeadlamp E ro now p wsName add w =
     (case pv_k8s p of
        None \<Rightarrow> ([], w)
      | Some k8s \<Rightarrow>
          (case rget (p_secrets E) k8s (pv_headlampNamespace p, pv_headlampSecret p) w of
             (Inl err, w1) \<Rightarrow> ([(''headlamp sync: get secret'', [], ApiErr err)], w1)
           | (Inr s, w1) \<Rightarrow>
               (case listConsumerWorkspaces E p w1 of
                  (Inl err, w2) \<Rightarrow> ([(''headlamp sync: list consumer workspaces'', [], err)], w2)
                | (Inr items, w2) \<Rightarrow>
                    (let listed = desiredWorkspaces items;
                         cfg = removeStaleHeadlampEntries ro p (headlampConfig E s) listed in
                     case adjustDesired E p wsName add listed w2 of (desired, w3) \<Rightarrow>
                     case headlampEntries E p (ro_workspaces ro desired) cfg w3 of ((l, cfg'), w4) \<Rightarrow>
                     case storeHeadlamp E now p k8s s cfg' w4 of (l', w5) \<Rightarrow> (l @ l', w5)))))"

definition ReconcileHeadlamp :: "'w platform \<Rightarrow> range_orders \<Rightarrow> string \<Rightarrow> provisioner \<Rightarrow> 'w \<Rightarrow> log \<times> 'w" where
  "ReconcileHeadlamp E ro now p w = syncHeadlamp E ro now p [] False w"

text \<open>A Go map range visits every entry once.\<close>

definition orders_ok :: "range_orders \<Rightarrow> bool" where
  "orders_ok ro \<longleftrightarrow> (\<forall>l. mset (ro_clusters ro l) = mset l) \<and> (\<forall>l. mset (ro_workspaces ro l) = mset l)"

section \<open>The entries of a kubeconfig\<close>

text \<open>The three maps of a kubeconfig at one name.\<close>

definition entry ::
  "kube_config \<Rightarrow> string \<Rightarrow> kc_cluster option \<times> auth_info option \<times> kc_context option" where
  "entry cfg n = (map_of (kc_clusters cfg) n, map_of (kc_authInfos cfg) n, map_of (kc_contexts cfg) n)"

definition managed :: "provisioner \<Rightarrow> kc_cluster \<Rightarrow> bool" where
  "managed p cl = contains (kcl_server cl) (managedPrefix p)"

definition stale :: "provisioner \<Rightarrow> kube_config \<Rightarrow> workspace gomap \<Rightarrow> string \<Rightarrow> bool" where
  "stale p cfg desired n =
     (map_of desired n = None \<and>
      (case map_of (kc_clusters cfg) n of None \<Rightarrow> False | Some cl \<Rightarrow> managed p cl))"

definition wf_config :: "kube_config \<Rightarrow> bool" where
  "wf_config c = (distinct (map fst (kc_clusters c)) \<and> distinct (map fst (kc_authInfos c)) \<and>
     distinct (map fst (kc_contexts c)))"

text \<open>The entry a workspace gets: the front proxy's address of its cluster, its own credentials.\<close>

definition written_entry ::
  "provisioner \<Rightarrow> string \<Rightarrow> auth_info \<Rightarrow> kc_cluster option \<times> auth_info option \<times> kc_context option" where
  "written_entry p n au =
     (Some (clusterEntry p (headlampServer p n)), Some au,
      Some \<lparr>kcx_cluster = n, kcx_authInfo = n\<rparr>)"

lemma entry_delete [simp]:
  "entry (deleteEntry n cfg) m = (if m = n then (None, None, None) else entry cfg m)"
  by (simp add: entry_def deleteEntry_def delete_conv)

lemma entry_write [simp]:
  "entry (writeEntry p n au cfg) m = (if m = n then written_entry p n au else entry cfg m)"
  by (simp add: entry_def writeEntry_def written_entry_def new_context_def update_conv')

lemma wf_delete: "wf_config cfg \<Longrightarrow> wf_config (deleteEntry n cfg)"
  by (simp add: wf_config_def deleteEntry_def distinct_delete)

lemma wf_write: "wf_config cfg \<Longrightarrow> wf_config (writeEntry p n au cfg)"
  by (simp add: wf_config_def writeEntry_def distinct_update)

lemma managed_headlampServer: "managed p (clusterEntry p (headlampServer p n))"
proof -
  have "headlampServer p n = ''https://kcp-front-proxy.kcp.svc.cluster.local:8443'' @ managedPrefix p @ n"
    by (simp add: headlampServer_def managedPrefix_def)
  then show ?thesis by (metis clusterEntry_server contains_middle managed_def)
qed

section \<open>Removing stale entries\<close>

lemma dropStale_entry:
  "entry (dropStale p desired cfg (m, cl)) n =
   (if n = m \<and> managed p cl \<and> map_of desired n = None then (None, None, None) else entry cfg n)"
  by (auto simp: managed_def)

lemma removeStale_fold:
  "entry (foldl (dropStale p desired) cfg cs) n =
   (if map_of desired n = None \<and> (\<exists>cl. (n, cl) \<in> set cs \<and> managed p cl) then (None, None, None)
    else entry cfg n)"
proof (induction cs arbitrary: cfg)
  case (Cons c cs)
  obtain m cl where c: "c = (m, cl)" by fastforce
  have "(\<exists>x. (n, x) \<in> set (c # cs) \<and> managed p x) \<longleftrightarrow>
      n = m \<and> managed p cl \<or> (\<exists>x. (n, x) \<in> set cs \<and> managed p x)"
    by (auto simp: c)
  then show ?case unfolding foldl_Cons c Cons.IH dropStale_entry by (auto simp only: split: if_splits)
qed simp

lemma distinct_lookup:
  "distinct (map fst l) \<Longrightarrow>
   (\<exists>x. (k, x) \<in> set l \<and> P x) \<longleftrightarrow> (case map_of l k of None \<Rightarrow> False | Some x \<Rightarrow> P x)"
  by (simp only: map_of_eq_Some_iff [symmetric] split: option.split) auto

lemma removeStale_entry:
  assumes "orders_ok ro" and "wf_config cfg"
  shows "entry (removeStaleHeadlampEntries ro p cfg desired) n =
    (if stale p cfg desired n then (None, None, None) else entry cfg n)"
proof -
  have "set (ro_clusters ro (kc_clusters cfg)) = set (kc_clusters cfg)"
    using assms(1) by (metis orders_ok_def set_mset_mset)
  moreover have "distinct (map fst (kc_clusters cfg))" using assms(2) by (simp add: wf_config_def)
  ultimately show ?thesis
    unfolding removeStaleHeadlampEntries_def removeStale_fold stale_def
    by (simp only: distinct_lookup)
qed

lemma removeStale_wf:
  assumes "wf_config cfg"
  shows "wf_config (removeStaleHeadlampEntries ro p cfg desired)"
proof -
  have step: "wf_config c \<Longrightarrow> wf_config (dropStale p desired c e)" for c e
    by (cases e) (simp add: wf_delete)
  have "wf_config c \<Longrightarrow> wf_config (foldl (dropStale p desired) c cs)" for c cs
    by (induction cs arbitrary: c) (simp_all only: foldl_Nil foldl_Cons step)
  with assms show ?thesis by (simp add: removeStaleHeadlampEntries_def)
qed

section \<open>The desired workspaces\<close>

lemma desired_fold:
  "distinct (map fst d) \<Longrightarrow>
   distinct (map fst (foldl keepDesired d items)) \<and>
   (map_of (foldl keepDesired d items) n = Some x
     \<longrightarrow> map_of d n = Some x \<or> x \<in> set items \<and> ws_deletion x = None \<and> ws_name x = n) \<and>
   (map_of (foldl keepDesired d items) n = None
     \<longrightarrow> map_of d n = None \<and> (\<forall>x \<in> set items. ws_name x = n \<longrightarrow> ws_deletion x \<noteq> None))"
proof (induction items arbitrary: d)
  case (Cons ws items)
  show ?case
  proof (cases "ws_deletion ws = None")
    case True
    with Cons.IH [of "AList.update (ws_name ws) ws d"] Cons.prems show ?thesis
      by (auto simp: keepDesired_def distinct_update update_conv' split: if_splits)
  next
    case False
    with Cons.IH [of d] Cons.prems show ?thesis by (auto simp: keepDesired_def)
  qed
qed simp

lemma desired_distinct: "distinct (map fst (desiredWorkspaces items))"
  using desired_fold [of "[]" items] by (simp add: desiredWorkspaces_def)

lemma desired_Some:
  "map_of (desiredWorkspaces items) n = Some x \<Longrightarrow>
   x \<in> set items \<and> ws_deletion x = None \<and> ws_name x = n"
  using desired_fold [of "[]" items n x] by (simp add: desiredWorkspaces_def)

lemma desired_None:
  "map_of (desiredWorkspaces items) n = None \<Longrightarrow> x \<in> set items \<Longrightarrow> ws_name x = n \<Longrightarrow> ws_deletion x \<noteq> None"
  using desired_fold [of "[]" items n] by (simp add: desiredWorkspaces_def)

lemma range_lookup:
  assumes "mset l' = mset l" and "distinct (map fst l)"
  shows "distinct (map fst l')" "map_of l' = map_of l"
proof -
  have m: "mset (map fst l') = mset (map fst l)" using assms(1) by simp
  show d: "distinct (map fst l')" using assms(2) mset_eq_imp_distinct_iff [OF m] by blast
  have "set l' = set l" using assms(1) by (rule mset_eq_setD)
  with d assms(2) show "map_of l' = map_of l" by (simp add: map_of_inject_set)
qed

section \<open>The loop over the desired workspaces\<close>

text \<open>
  The entry of a desired workspace: with the token of its own service account once it is marked as
  scoped, with the admin credentials before.
\<close>

definition entry_for :: "provisioner \<Rightarrow> cluster_view \<Rightarrow> kube_config \<Rightarrow> string \<Rightarrow> workspace \<Rightarrow> bool" where
  "entry_for p v cfg n ws =
     (case workspaceCredentialMode ws of
        CredentialsAdmin \<Rightarrow> entry cfg n = written_entry p n (adminAuthInfo p)
      | CredentialsScoped \<Rightarrow>
          (case v_secrets v (tokenKey (tenantHost p n)) of
             None \<Rightarrow> False
           | Some s \<Rightarrow> gm_string (sec_data s) ''token'' \<noteq> [] \<and>
               entry cfg n = written_entry p n (scopedAuth (gm_string (sec_data s) ''token''))))"

lemma entry_for_cong: "entry c n = entry c' n \<Longrightarrow> entry_for p v c n ws = entry_for p v c' n ws"
  by (simp add: entry_for_def split: credential_mode.split option.split)

text \<open>Where the token could not be read, the old entry stays and the log says so.\<close>

definition token_missed :: "kube_config \<Rightarrow> kube_config \<Rightarrow> string \<Rightarrow> workspace \<Rightarrow> log \<Rightarrow> bool" where
  "token_missed cfg cfg' n ws l \<longleftrightarrow>
     workspaceCredentialMode ws = CredentialsScoped \<and> entry cfg' n = entry cfg n \<and>
     (\<exists>e. (''headlamp sync: read workspace token'', [n], e) \<in> set l)"

section \<open>What one sync leaves in the Secret\<close>

definition headlampKey :: "provisioner \<Rightarrow> rest_config \<Rightarrow> string \<times> objkey" where
  "headlampKey p k8s = (rc_host k8s, (pv_headlampNamespace p, pv_headlampSecret p))"

text \<open>A consumer workspace that is not being deleted.\<close>

definition live :: "provisioner \<Rightarrow> cluster_view \<Rightarrow> string \<Rightarrow> workspace \<Rightarrow> bool" where
  "live p v n x \<longleftrightarrow> v_workspaces v (workspaceKey p n) = Some x \<and> ws_deletion x = None"

definition managed_name :: "provisioner \<Rightarrow> kube_config \<Rightarrow> string \<Rightarrow> bool" where
  "managed_name p cfg n =
     (case map_of (kc_clusters cfg) n of None \<Rightarrow> False | Some cl \<Rightarrow> managed p cl)"

text \<open>The workspace the caller asks to take out.\<close>

abbreviation skipped :: "string \<Rightarrow> bool \<Rightarrow> string option" where
  "skipped name add \<equiv> (if \<not> add \<and> name \<noteq> [] then Some name else None)"

text \<open>
  \<open>skip\<close> is the workspace the caller asked to remove.  Every other live workspace has its entry;
  of the rest, the managed entries are gone and the unmanaged ones are as they were.  The entry of
  \<open>skip\<close> is left as it was when the workspace is still live.
\<close>

definition synced ::
  "provisioner \<Rightarrow> cluster_view \<Rightarrow> string option \<Rightarrow> kube_config \<Rightarrow> kube_config \<Rightarrow> log \<Rightarrow> bool" where
  "synced p v skip cfg cfg' l \<longleftrightarrow>
     (\<forall>n x. live p v n x \<longrightarrow> skip \<noteq> Some n \<longrightarrow>
        entry_for p v cfg' n x \<or> token_missed cfg cfg' n x l) \<and>
     (\<forall>n x. live p v n x \<longrightarrow> skip = Some n \<longrightarrow> entry cfg' n = entry cfg n) \<and>
     (\<forall>n. (\<nexists>x. live p v n x) \<longrightarrow>
        entry cfg' n = (if managed_name p cfg n then (None, None, None) else entry cfg n))"

text \<open>A sync changes one Secret, in which every key but \<open>config\<close> is kept, and one Deployment.\<close>

definition headlamp_frame :: "provisioner \<Rightarrow> rest_config \<Rightarrow> cluster_view \<Rightarrow> cluster_view \<Rightarrow> bool" where
  "headlamp_frame p k8s v v' \<longleftrightarrow>
     v' = v\<lparr>v_secrets := v_secrets v', v_patches := v_patches v'\<rparr> \<and>
     same_except (headlampKey p k8s) (v_secrets v) (v_secrets v') \<and>
     (v_secrets v' = v_secrets v \<or>
      (\<exists>s s' data. v_secrets v (headlampKey p k8s) = Some s \<and> v_secrets v' (headlampKey p k8s) = Some s' \<and>
         sec_stored (s\<lparr>sec_data := gm_put (sec_data s) ''config'' data\<rparr>) s'))"

lemma headlamp_frame_refl [simp]: "headlamp_frame p k8s v v"
  by (simp add: headlamp_frame_def)

lemma headlamp_frame_upd:
  assumes "v_secrets v (headlampKey p k8s) = Some s"
    and "sec_stored (s\<lparr>sec_data := gm_put (sec_data s) ''config'' d\<rparr>) s'"
  shows "headlamp_frame p k8s v (v\<lparr>v_secrets := (v_secrets v)(headlampKey p k8s \<mapsto> s')\<rparr>)"
  unfolding headlamp_frame_def
proof (intro conjI disjI2 exI)
  show "v_secrets v (headlampKey p k8s) = Some s" by (rule assms(1))
  show "sec_stored (s\<lparr>sec_data := gm_put (sec_data s) ''config'' d\<rparr>) s'" by (rule assms(2))
qed simp_all

lemma headlamp_frame_patch:
  "headlamp_frame p k8s v v' \<Longrightarrow> headlamp_frame p k8s v (v'\<lparr>v_patches := m\<rparr>)"
  by (cases v; cases v') (auto simp: headlamp_frame_def)

lemma headlamp_frame_token:
  assumes f: "headlamp_frame p k8s v v'" and t: "has_token v h"
  shows "has_token v' h"
proof (cases "v_secrets v' = v_secrets v \<or> tokenKey h \<noteq> headlampKey p k8s")
  case True
  with f have "v_secrets v' (tokenKey h) = v_secrets v (tokenKey h)"
    by (auto simp: headlamp_frame_def dest: same_exceptD)
  with t show ?thesis by (simp add: has_token_def)
next
  case False
  with f obtain s s' d where s: "v_secrets v (tokenKey h) = Some s" "v_secrets v' (tokenKey h) = Some s'"
    and st: "sec_stored (s\<lparr>sec_data := gm_put (sec_data s) ''config'' d\<rparr>) s'"
    by (auto simp: headlamp_frame_def)
  from t s obtain tok where "gm_get (sec_data s) ''token'' = Some tok" "tok \<noteq> []"
    by (auto simp: has_token_def gm_string_get split: option.splits)
  with st have "gm_get (sec_data s') ''token'' = Some tok"
    by (auto simp: sec_stored_def extends_def)
  with s \<open>tok \<noteq> []\<close> show ?thesis by (simp add: has_token_def gm_string_get)
qed

lemma headlamp_frame_keeps: "headlamp_frame p k8s v v' \<Longrightarrow> keeps_setup E q v v'"
proof -
  assume f: "headlamp_frame p k8s v v'"
  then obtain a b where v': "v' = v\<lparr>v_secrets := a, v_patches := b\<rparr>" by (auto simp: headlamp_frame_def)
  have "has_token v h \<Longrightarrow> has_token v' h" for h by (rule headlamp_frame_token [OF f])
  then show ?thesis
    by (auto simp: keeps_setup_def credentials_ready_def has_binding_def is_scoped_def
        has_admin_binding_def v')
qed

lemma headlamp_frame_scoped: "headlamp_frame p k8s v v' \<Longrightarrow> is_scoped q v' n = is_scoped q v n"
proof -
  assume "headlamp_frame p k8s v v'"
  then obtain a b where "v' = v\<lparr>v_secrets := a, v_patches := b\<rparr>" by (auto simp: headlamp_frame_def)
  then show ?thesis by (simp add: is_scoped_def)
qed

context api_server
begin

lemma headlampEntry_run:
  assumes "headlampEntry E p n ws1 cfg w = ((l, cfg'), w')"
  shows "view w' = view w" and "wf_config cfg \<Longrightarrow> wf_config cfg'"
    and "m \<noteq> n \<Longrightarrow> entry cfg' m = entry cfg m"
    and "entry_for p (view w) cfg' n ws1 \<or> token_missed cfg cfg' n ws1 l"
proof -
  have "view w' = view w \<and> (wf_config cfg \<longrightarrow> wf_config cfg') \<and>
    (m \<noteq> n \<longrightarrow> entry cfg' m = entry cfg m) \<and>
    (entry_for p (view w) cfg' n ws1 \<or> token_missed cfg cfg' n ws1 l)"
  proof (cases "workspaceCredentialMode ws1")
    case CredentialsAdmin
    with assms show ?thesis by (auto simp: headlampEntry_def entry_for_def wf_write)
  next
    case CredentialsScoped
    obtain t w1 where t: "workspaceServiceAccountToken E p (workspacePath p n) w = (t, w1)" by fastforce
    note tr = token_run [OF t]
    show ?thesis
    proof (cases t)
      case (Inl e)
      with assms t CredentialsScoped tr(1) show ?thesis
        by (auto simp: headlampEntry_def token_missed_def)
    next
      case (Inr tok)
      with assms t CredentialsScoped
      have "cfg' = writeEntry p n (scopedAuth tok) cfg" "w' = w1"
        by (auto simp: headlampEntry_def scopedAuth_def)
      with tr(1) tr(2) [OF Inr] CredentialsScoped show ?thesis
        by (auto simp: entry_for_def tenantHost_def wf_write)
    qed
  qed
  then show "view w' = view w" "wf_config cfg \<Longrightarrow> wf_config cfg'" "m \<noteq> n \<Longrightarrow> entry cfg' m = entry cfg m"
    "entry_for p (view w) cfg' n ws1 \<or> token_missed cfg cfg' n ws1 l" by blast+
qed

lemma headlampEntries_run:
  assumes "headlampEntries E p al cfg w = ((l, cfg'), w')" and "distinct (map fst al)"
  shows "view w' = view w \<and> (wf_config cfg \<longrightarrow> wf_config cfg') \<and>
    (\<forall>n. case map_of al n of
       None \<Rightarrow> entry cfg' n = entry cfg n
     | Some x \<Rightarrow> entry_for p (view w) cfg' n x \<or> token_missed cfg cfg' n x l)"
  using assms
proof (induction al arbitrary: cfg w l)
  case (Cons e al)
  obtain n x where e: "e = (n, x)" by fastforce
  obtain l1 cfg1 w1 where 1: "headlampEntry E p n x cfg w = ((l1, cfg1), w1)" by (metis prod.collapse)
  obtain l2 cfg2 w2 where 2: "headlampEntries E p al cfg1 w1 = ((l2, cfg2), w2)" by (metis prod.collapse)
  from Cons.prems(1) 1 2 e have r: "l = l1 @ l2" "cfg' = cfg2" "w' = w2" by auto
  have d: "distinct (map fst al)" "n \<notin> fst ` set al" using Cons.prems(2) e by auto
  note s = headlampEntry_run [OF 1]
  note IH = Cons.IH [OF 2 [folded r(3), folded r(2)] d(1), unfolded s(1)]
  have rest: "view w' = view w" "wf_config cfg \<longrightarrow> wf_config cfg'"
    "\<forall>m. case map_of al m of None \<Rightarrow> entry cfg' m = entry cfg1 m
       | Some y \<Rightarrow> entry_for p (view w) cfg' m y \<or> token_missed cfg1 cfg' m y l2"
    using IH s(2) by simp_all
  have "case map_of ((n, x) # al) m of None \<Rightarrow> entry cfg' m = entry cfg m
       | Some y \<Rightarrow> entry_for p (view w) cfg' m y \<or> token_missed cfg cfg' m y l" for m
  proof (cases "m = n")
    case True
    have "map_of al n = None" using d(2) by (simp add: map_of_eq_None_iff)
    with rest(3) [rule_format, of n] have "entry cfg' n = entry cfg1 n" by simp
    then have "entry_for p (view w) cfg' n x = entry_for p (view w) cfg1 n x"
      by (rule entry_for_cong)
    moreover from \<open>entry cfg' n = entry cfg1 n\<close>
    have "token_missed cfg cfg1 n x l1 \<Longrightarrow> token_missed cfg cfg' n x l"
      unfolding token_missed_def r(1) set_append by (elim conjE exE) (intro conjI exI UnI1, simp_all)
    moreover have "map_of ((n, x) # al) m = Some x" by (simp add: True)
    ultimately show ?thesis unfolding True using s(4) by auto
  next
    case False
    then have "map_of ((n, x) # al) m = map_of al m" by simp
    with rest(3) [rule_format, of m] s(3) [OF False] r(1) show ?thesis
      by (cases "map_of al m") (auto simp: token_missed_def)
  qed
  with rest(1,2) show ?case by (simp add: e)
qed simp

lemma desired_live:
  assumes "listConsumerWorkspaces E p w = (Inr items, w')"
  shows "map_of (desiredWorkspaces items) n = Some x \<longleftrightarrow> live p (view w) n x"
proof
  assume "map_of (desiredWorkspaces items) n = Some x"
  from desired_Some [OF this] consumer_list_ok [OF assms, of x] show "live p (view w) n x"
    by (auto simp: live_def)
next
  assume x: "live p (view w) n x"
  then have n: "ws_name x = n" using ws.named by (auto simp: live_def workspaceKey_def)
  with x consumer_list_ok [OF assms, of x] have "x \<in> set items" by (simp add: live_def)
  with x n desired_None [of items n x] obtain y where y: "map_of (desiredWorkspaces items) n = Some y"
    by (cases "map_of (desiredWorkspaces items) n") (auto simp: live_def)
  from desired_Some [OF y] consumer_list_ok [OF assms, of y] x have "y = x" by (auto simp: live_def)
  with y show "map_of (desiredWorkspaces items) n = Some x" by simp
qed

lemma adjust_run:
  assumes run: "adjustDesired E p name add d w = (d', w')"
    and d: "\<And>n x. map_of d n = Some x \<longleftrightarrow> live p (view w) n x" "distinct (map fst d)"
  shows "view w' = view w" "distinct (map fst d')"
    "map_of d' n = Some x \<longleftrightarrow> live p (view w) n x \<and> \<not> (\<not> add \<and> name \<noteq> [] \<and> n = name)"
proof -
  have k: "keeps view (GetWorkspace E p name)"
    unfolding GetWorkspace_def by (intro keeps_intros server_reads)
  have g: "live p (view w) name y"
    if G: "GetWorkspace E p name w = (Inr y, w1)" and y: "ws_deletion y = None" for y w1
  proof -
    from G obtain c w2 where c: "kcpClientForWorkspace E p (pv_consumers p) = Inr c"
      and r: "rget (p_workspaces E) c ([], name) w = (Inr y, w2)"
      by (auto simp: GetWorkspace_def elim!: or_fail_InrE)
    from ws.get_found [OF r] y client_host(1) [OF c] show ?thesis
      by (simp add: live_def workspaceKey_def consumersHost_def)
  qed
  have "view w' = view w \<and> distinct (map fst d') \<and>
    (map_of d' n = Some x \<longleftrightarrow> live p (view w) n x \<and> \<not> (\<not> add \<and> name \<noteq> [] \<and> n = name))"
  proof (cases "add \<and> name \<noteq> []")
    case True
    obtain r w1 where G: "GetWorkspace E p name w = (r, w1)" by fastforce
    have v1: "view w1 = view w" by (rule keepsD [OF k G])
    show ?thesis
    proof (cases "\<exists>y. r = Inr y \<and> ws_deletion y = None")
      case True
      then obtain y where y: "r = Inr y" "ws_deletion y = None" by blast
      with run G \<open>add \<and> name \<noteq> []\<close> have "d' = AList.update name y d" "w' = w1"
        by (auto simp: adjustDesired_def)
      moreover have "live p (view w) name y" using g G y by simp
      ultimately show ?thesis using v1 d \<open>add \<and> name \<noteq> []\<close>
        by (auto simp: update_conv' distinct_update live_def)
    next
      case False
      with run G \<open>add \<and> name \<noteq> []\<close> have "d' = d" "w' = w1"
        by (auto simp: adjustDesired_def split: sum.splits)
      with v1 d \<open>add \<and> name \<noteq> []\<close> show ?thesis by simp
    qed
  next
    case False
    with run have "w' = w" "d' = (if name \<noteq> [] then AList.delete name d else d)"
      by (auto simp: adjustDesired_def split: if_splits)
    with False d show ?thesis
      by (cases "name = []") (auto simp: delete_conv distinct_delete simp del: map_of_eq_Some_iff)
  qed
  then show "view w' = view w" "distinct (map fst d')"
    "map_of d' n = Some x \<longleftrightarrow> live p (view w) n x \<and> \<not> (\<not> add \<and> name \<noteq> [] \<and> n = name)" by blast+
qed

text \<open>Whatever the update of the Secret returns, it has happened as a whole or not at all.\<close>

lemma update_secret_any:
  assumes u: "rupdate (p_secrets E) k8s (pv_headlampNamespace p) s w = (r, w')"
    and nm: "sec_name s = pv_headlampSecret p"
  shows "view w' = view w \<or> (\<exists>o2. sec_stored s o2 \<and>
    view w' = (view w)\<lparr>v_secrets := (v_secrets (view w))(headlampKey p k8s \<mapsto> o2)\<rparr>)"
proof (cases r)
  case (Inl e)
  from sec.update_error [OF u [unfolded Inl], unfolded nm] show ?thesis
    unfolding headlampKey_def by blast
next
  case (Inr o2)
  from sec.update_ok [OF u [unfolded Inr], unfolded nm] show ?thesis
    unfolding headlampKey_def by blast
qed

lemma store_run:
  assumes run: "storeHeadlamp E now p k8s s cfg w = (l, w')"
    and s: "v_secrets (view w) (headlampKey p k8s) = Some s"
  shows "headlamp_frame p k8s (view w) (view w')"
    and "l = [] \<Longrightarrow> \<exists>s' data. kc_write E cfg = Inr data \<and>
      v_secrets (view w') (headlampKey p k8s) = Some s' \<and> gm_string (sec_data s') ''config'' = data \<and>
      v_patches (view w') (rc_host k8s, (pv_headlampNamespace p, pv_headlampDeployment p)) =
        Some (restartPatch now)"
proof -
  have nm: "sec_name s = pv_headlampSecret p" using s sec.named by (simp add: headlampKey_def)
  have "headlamp_frame p k8s (view w) (view w') \<and>
    (l = [] \<longrightarrow> (\<exists>s' data. kc_write E cfg = Inr data \<and>
      v_secrets (view w') (headlampKey p k8s) = Some s' \<and> gm_string (sec_data s') ''config'' = data \<and>
      v_patches (view w') (rc_host k8s, (pv_headlampNamespace p, pv_headlampDeployment p)) =
        Some (restartPatch now)))"
  proof (cases "kc_write E cfg")
    case (Inl e)
    with run show ?thesis by (auto simp: storeHeadlamp_def)
  next
    case (Inr data)
    let ?s = "s\<lparr>sec_data := gm_put (sec_data s) ''config'' data\<rparr>"
    have nm': "sec_name ?s = pv_headlampSecret p" by (simp add: nm)
    obtain r w1 where u: "rupdate (p_secrets E) k8s (pv_headlampNamespace p) ?s w = (r, w1)" by fastforce
    have upd: "view w1 = view w \<or> (\<exists>o2. sec_stored ?s o2 \<and>
        view w1 = (view w)\<lparr>v_secrets := (v_secrets (view w))(headlampKey p k8s \<mapsto> o2)\<rparr>)"
      by (rule update_secret_any [OF u nm'])
    then have f1: "headlamp_frame p k8s (view w) (view w1)"
      using headlamp_frame_upd [OF s] by (elim disjE exE conjE) simp_all
    obtain r2 w2 where pt: "p_patchDeployment E k8s (pv_headlampNamespace p, pv_headlampDeployment p)
        (restartPatch now) w1 = (r2, w2)" by fastforce
    obtain m where m: "view w2 = (view w1)\<lparr>v_patches := m\<rparr>" using patch_any [OF pt] by blast
    from f1 m have f2: "headlamp_frame p k8s (view w) (view w2)"
      by (simp add: headlamp_frame_patch)
    from run Inr u pt have w': "w' = w1 \<or> w' = w2"
      by (auto simp: storeHeadlamp_def split: sum.splits)
    moreover have "\<exists>s' data. kc_write E cfg = Inr data \<and>
        v_secrets (view w') (headlampKey p k8s) = Some s' \<and> gm_string (sec_data s') ''config'' = data \<and>
        v_patches (view w') (rc_host k8s, (pv_headlampNamespace p, pv_headlampDeployment p)) =
          Some (restartPatch now)" if "l = []"
    proof -
      from run Inr u pt that obtain o2 v where r: "r = Inr o2" "r2 = Inr v" "w' = w2"
        by (auto simp: storeHeadlamp_def split: sum.splits)
      from sec.update_ok [OF u [unfolded r(1)]]
      have "sec_stored ?s o2" "v_secrets (view w1) (headlampKey p k8s) = Some o2"
        by (simp_all add: headlampKey_def nm)
      moreover have "gm_string (sec_data o2) ''config'' = data"
        using \<open>sec_stored ?s o2\<close> by (auto simp: sec_stored_def dest: extends_put_string)
      ultimately show ?thesis using Inr r patch_ok [OF pt [unfolded r(2)]] by simp
    qed
    ultimately show ?thesis using f1 f2 by blast
  qed
  then show "headlamp_frame p k8s (view w) (view w')" "l = [] \<Longrightarrow> \<exists>s' data. kc_write E cfg = Inr data \<and>
      v_secrets (view w') (headlampKey p k8s) = Some s' \<and> gm_string (sec_data s') ''config'' = data \<and>
      v_patches (view w') (rc_host k8s, (pv_headlampNamespace p, pv_headlampDeployment p)) =
        Some (restartPatch now)" by blast+
qed

lemma synced_entries:
  assumes l: "listConsumerWorkspaces E p w = (Inr items, w2)"
    and a: "adjustDesired E p name add (desiredWorkspaces items) w2 = (d, w3)"
    and h: "headlampEntries E p (ro_workspaces ro d)
        (removeStaleHeadlampEntries ro p cfg (desiredWorkspaces items)) w3 = ((lg, cfg'), w4)"
    and ro: "orders_ok ro"
  shows "view w4 = view w" and "wf_config cfg \<Longrightarrow> synced p (view w) (skipped name add) cfg cfg' lg"
proof -
  let ?cfg1 = "removeStaleHeadlampEntries ro p cfg (desiredWorkspaces items)"
  have v2: "view w2 = view w" by (rule keepsD [OF keeps_consumer_list l])
  note dl = desired_live [OF l, folded v2]
  note ar = adjust_run [OF a dl desired_distinct, simplified v2]
  have "mset (ro_workspaces ro d) = mset d" using ro by (simp add: orders_ok_def)
  note rl = range_lookup [OF this ar(2)]
  note hr = headlampEntries_run [OF h rl(1), unfolded rl(2) ar(1)]
  from hr show "view w4 = view w" by blast
  assume wf: "wf_config cfg"
  note rs = removeStale_entry [OF ro wf, of p "desiredWorkspaces items"]
  have look: "map_of (desiredWorkspaces items) n = Some x \<longleftrightarrow> live p (view w) n x" for n x
    using dl v2 by simp
  have st: "entry ?cfg1 n = entry cfg n" if "live p (view w) n x" for n x
    using rs [of n] look [of n x] that by (simp add: stale_def)
  have at: "case map_of d n of None \<Rightarrow> entry cfg' n = entry ?cfg1 n
     | Some x \<Rightarrow> entry_for p (view w) cfg' n x \<or> token_missed ?cfg1 cfg' n x lg" for n
    using hr by blast
  show "synced p (view w) (skipped name add) cfg cfg' lg"
    unfolding synced_def
  proof (intro conjI allI impI)
    fix n x assume x: "live p (view w) n x" and "skipped name add \<noteq> Some n"
    then have "map_of d n = Some x" using ar(3) by (auto split: if_splits)
    with at [of n] st [OF x] show "entry_for p (view w) cfg' n x \<or> token_missed cfg cfg' n x lg"
      by (simp add: token_missed_def)
  next
    fix n x assume x: "live p (view w) n x" and "skipped name add = Some n"
    then have "map_of d n = None" using ar(3) [of n] by (cases "map_of d n") (auto split: if_splits)
    with at [of n] st [OF x] show "entry cfg' n = entry cfg n" by simp
  next
    fix n assume none: "\<nexists>x. live p (view w) n x"
    have "map_of d n \<noteq> Some x" for x using ar(3) [of n x] none by blast
    then have "map_of d n = None" by (cases "map_of d n") auto
    moreover have "map_of (desiredWorkspaces items) n \<noteq> Some x" for x using look [of n x] none by blast
    then have "map_of (desiredWorkspaces items) n = None"
      by (cases "map_of (desiredWorkspaces items) n") auto
    ultimately show "entry cfg' n = (if managed_name p cfg n then (None, None, None) else entry cfg n)"
      using at [of n] rs [of n] by (simp add: stale_def managed_name_def)
  qed
qed

lemma sync_run:
  assumes run: "syncHeadlamp E ro now p name add w = (l, w')" and k: "pv_k8s p = Some k8s"
    and ro: "orders_ok ro"
  shows "headlamp_frame p k8s (view w) (view w')"
    and "(\<forall>m a e. (m, a, e) \<in> set l \<longrightarrow> m = ''headlamp sync: read workspace token'') \<Longrightarrow>
      \<exists>s s' cfg'. v_secrets (view w) (headlampKey p k8s) = Some s \<and>
        v_secrets (view w') (headlampKey p k8s) = Some s' \<and>
        kc_write E cfg' = Inr (gm_string (sec_data s') ''config'') \<and>
        v_patches (view w') (rc_host k8s, (pv_headlampNamespace p, pv_headlampDeployment p)) =
          Some (restartPatch now) \<and>
        (wf_config (headlampConfig E s) \<longrightarrow>
          synced p (view w) (skipped name add) (headlampConfig E s) cfg' l)"
proof -
  let ?tok = "\<lambda>l. \<forall>m a e. (m, a, e) \<in> set l \<longrightarrow> m = ''headlamp sync: read workspace token''"
  let ?goal = "\<exists>s s' cfg'. v_secrets (view w) (headlampKey p k8s) = Some s \<and>
        v_secrets (view w') (headlampKey p k8s) = Some s' \<and>
        kc_write E cfg' = Inr (gm_string (sec_data s') ''config'') \<and>
        v_patches (view w') (rc_host k8s, (pv_headlampNamespace p, pv_headlampDeployment p)) =
          Some (restartPatch now) \<and>
        (wf_config (headlampConfig E s) \<longrightarrow>
          synced p (view w) (skipped name add) (headlampConfig E s) cfg' l)"
  obtain g w1 where g: "rget (p_secrets E) k8s (pv_headlampNamespace p, pv_headlampSecret p) w = (g, w1)"
    by fastforce
  have v1: "view w1 = view w" by (rule sec.get_reads [OF g])
  have "headlamp_frame p k8s (view w) (view w') \<and> (?tok l \<longrightarrow> ?goal)"
  proof (cases g)
    case (Inl e)
    with run k g have "w' = w1" "l = [(''headlamp sync: get secret'', [], ApiErr e)]"
      by (simp_all add: syncHeadlamp_def)
    with v1 show ?thesis by simp
  next
    case s: (Inr s)
    from sec.get_found [OF g [unfolded s]]
    have S: "v_secrets (view w) (headlampKey p k8s) = Some s" by (simp add: headlampKey_def)
    obtain r w2 where ls: "listConsumerWorkspaces E p w1 = (r, w2)" by fastforce
    have v2: "view w2 = view w" using keepsD [OF keeps_consumer_list ls] v1 by simp
    show ?thesis
    proof (cases r)
      case (Inl e)
      with run k g s ls have "w' = w2" "l = [(''headlamp sync: list consumer workspaces'', [], e)]"
        by (simp_all add: syncHeadlamp_def)
      with v2 show ?thesis by simp
    next
      case (Inr items)
      let ?d = "desiredWorkspaces items" and ?c = "headlampConfig E s"
      obtain d w3 where a: "adjustDesired E p name add ?d w2 = (d, w3)" by fastforce
      obtain l1 cfg' w4 where h: "headlampEntries E p (ro_workspaces ro d)
          (removeStaleHeadlampEntries ro p ?c ?d) w3 = ((l1, cfg'), w4)" by (metis prod.collapse)
      obtain l2 w5 where st: "storeHeadlamp E now p k8s s cfg' w4 = (l2, w5)" by fastforce
      from run k g s ls Inr a h st have lw: "l = l1 @ l2" "w' = w5"
        by (simp_all add: syncHeadlamp_def Let_def)
      note se = synced_entries [OF ls [unfolded Inr] a h ro, unfolded v1]
      note sr = store_run [OF st, unfolded se(1), OF S]
      have "?goal" if t: "?tok l"
      proof -
        have "l2 = []"
        proof -
          from st have "l2 = [] \<or> (\<exists>m e. l2 = [(m, [], e)] \<and> m \<noteq> ''headlamp sync: read workspace token'')"
            by (auto simp: storeHeadlamp_def split: sum.splits prod.splits)
          then show ?thesis
          proof
            assume "\<exists>m e. l2 = [(m, [], e)] \<and> m \<noteq> ''headlamp sync: read workspace token''"
            then obtain m e where "l2 = [(m, [], e)]" "m \<noteq> ''headlamp sync: read workspace token''"
              by blast
            with t [rule_format, of m "[]" e] lw(1) show ?thesis by simp
          qed
        qed
        with sr(2) lw se(2) S show ?thesis by fastforce
      qed
      with sr(1) lw(2) show ?thesis by blast
    qed
  qed
  then show "headlamp_frame p k8s (view w) (view w')" "?tok l \<Longrightarrow> ?goal" by blast+
qed

lemma sync_off: "pv_k8s p = None \<Longrightarrow> syncHeadlamp E ro now p name add w = ([], w)"
  by (simp add: syncHeadlamp_def)

end

end
