(* ===== verification/Prov_System.thy ===== *)
theory Prov_System
  imports Prov_Headlamp
begin

text \<open>
  The provisioner as a whole: its requests and its background work interleave with each other and
  with other clients of the API servers.  Each operation is one step here; every run of it, the
  ones that end in an error included, is a step.
\<close>

text \<open>
  What other clients may do between two steps: anything that neither takes credentials away that
  are ready nor sets the mark of a workspace, which is the provisioner's own.
\<close>

definition env_step :: "'w platform \<Rightarrow> provisioner \<Rightarrow> cluster_view \<Rightarrow> cluster_view \<Rightarrow> bool" where
  "env_step E p v v' \<longleftrightarrow>
     (\<forall>h. credentials_ready E v h \<longrightarrow> credentials_ready E v' h) \<and>
     (\<forall>n. is_scoped p v' n \<longrightarrow> is_scoped p v n)"

inductive prov_step ::
  "'w platform \<Rightarrow> provisioner \<Rightarrow> ('w \<Rightarrow> cluster_view) \<Rightarrow> 'w \<Rightarrow> 'w \<Rightarrow> bool"
  for E p view where
  provision: "ProvisionWorkspace E p n w = (r, w') \<Longrightarrow> prov_step E p view w w'"
| set_up: "EnsureWorkspaceSetup E p n w = (r, w') \<Longrightarrow> prov_step E p view w w'"
| delete: "DeleteWorkspace E p n w = (r, w') \<Longrightarrow> prov_step E p view w w'"
| list: "ListWorkspaces E p w = (r, w') \<Longrightarrow> prov_step E p view w w'"
| kubeconfig: "KubeconfigBytesForExternalBaseURL E p x ext w = (r, w') \<Longrightarrow> prov_step E p view w w'"
| adminKubeconfig: "AdminKubeconfigBytesForExternalBaseURL E p ext w = (r, w') \<Longrightarrow> prov_step E p view w w'"
| reconcile: "ReconcileWorkspaceBindings E p w = (r, w') \<Longrightarrow> prov_step E p view w w'"
| sync_secret: "orders_ok ro \<Longrightarrow> syncHeadlamp E ro now p n add w = (l, w') \<Longrightarrow> prov_step E p view w w'"
| env: "env_step E p (view w) (view w') \<Longrightarrow> prov_step E p view w w'"

context api_server
begin

lemma reconcile_any:
  assumes "ReconcileWorkspaceBindings E p w = (r, w')"
  shows "(scoped_inv E p (view w) \<longrightarrow> scoped_inv E p (view w')) \<and> keeps_setup E p (view w) (view w')"
proof -
  obtain g w1 where l: "listConsumerWorkspaces E p w = (g, w1)" by fastforce
  have v: "view w1 = view w" by (rule keepsD [OF keeps_consumer_list l])
  show ?thesis
  proof (cases g)
    case (Inl e)
    with assms l v show ?thesis by (simp add: ReconcileWorkspaceBindings_def)
  next
    case (Inr wss)
    with assms l have "reconcileEach E p wss w1 = (r, w')" by (simp add: ReconcileWorkspaceBindings_def)
    from reconcileEach_any [OF this] v show ?thesis by simp
  qed
qed

lemma sync_inv:
  assumes run: "syncHeadlamp E ro now p n add w = (l, w')" and ro: "orders_ok ro"
    and inv: "scoped_inv E p (view w)"
  shows "scoped_inv E p (view w')"
proof (cases "pv_k8s p")
  case None
  with run inv show ?thesis by (simp add: syncHeadlamp_def)
next
  case (Some k8s)
  note fr = sync_run(1) [OF run Some ro]
  from headlamp_frame_scoped [OF fr, of p] headlamp_frame_keeps [OF fr, of E p] inv show ?thesis
    by (auto simp: scoped_inv_def keeps_setup_def)
qed

lemma step_inv:
  assumes "prov_step E p view w w'" and "scoped_inv E p (view w)"
  shows "scoped_inv E p (view w')"
  using assms
proof (cases rule: prov_step.cases)
  case (provision n r)
  then show ?thesis using assms(2) by (rule provision_inv)
next
  case (set_up n r)
  then show ?thesis using assms(2) by (rule setup_inv)
next
  case (delete n r)
  then show ?thesis using assms(2) by (rule delete_inv)
next
  case (list r)
  with assms(2) keepsD [where view = view, OF keeps_ListWorkspaces] show ?thesis by metis
next
  case (kubeconfig x ext r)
  with assms(2) keepsD [where view = view, OF keeps_kubeconfig] show ?thesis by metis
next
  case (adminKubeconfig ext r)
  with assms(2) keepsD [where view = view, OF keeps_admin_kubeconfig] show ?thesis by metis
next
  case (reconcile r)
  from reconcile_any [OF this] assms(2) show ?thesis by blast
next
  case (sync_secret ro now n add l)
  from sync_inv [OF this(2,1) assms(2)] show ?thesis .
next
  case env
  with assms(2) show ?thesis by (auto simp: env_step_def scoped_inv_def)
qed

lemma reachable_inv:
  assumes "(prov_step E p view)\<^sup>*\<^sup>* w w'" and "scoped_inv E p (view w)"
  shows "scoped_inv E p (view w')"
  using assms by (induction rule: rtranclp_induct) (blast intro: step_inv)+

text \<open>What the list offers: an entry that is ready for Headlamp has its credentials.\<close>

lemma list_rows:
  assumes "ListWorkspaces E p w = (Inr is, w')"
  shows "\<exists>wss. list_all2 listed_as wss is \<and>
    (\<forall>x. x \<in> set wss \<longleftrightarrow> v_workspaces (view w) (workspaceKey p (ws_name x)) = Some x)"
proof -
  from assms obtain wss w1 where l: "listConsumerWorkspaces E p w = (Inr wss, w1)"
    and i: "workspaceInfos E p wss w1 = (Inr is, w')"
    by (auto simp: ListWorkspaces_def elim!: or_fail_InrE)
  from i infos_total [of E p wss w1] have "list_all2 listed_as wss is" by auto
  with consumer_list_ok [OF l] show ?thesis by blast
qed

lemma headlampReady_safe:
  assumes run: "ListWorkspaces E p w = (Inr is, w')" and inv: "scoped_inv E p (view w)"
    and i: "i \<in> set is" "wi_headlampReady i"
  shows "credentials_ready E (view w') (tenantHost p (wi_name i))"
proof -
  obtain wss where wss: "list_all2 listed_as wss is"
    "\<forall>x. x \<in> set wss \<longleftrightarrow> v_workspaces (view w) (workspaceKey p (ws_name x)) = Some x"
    using list_rows [OF run] by blast
  from wss(1) i(1) obtain x where x: "x \<in> set wss" "listed_as x i"
    by (metis in_set_conv_nth list_all2_conv_all_nth)
  from x(2) i(2) have "wi_name i = ws_name x" "workspaceCredentialMode x = CredentialsScoped"
    by (auto simp: listed_as_def split: if_splits)
  with wss(2) x(1) inv keepsD [where view = view, OF keeps_ListWorkspaces run] show ?thesis
    by (auto simp: scoped_inv_def is_scoped_def)
qed

end

end
