(* ===== verification/Prov_Http.thy ===== *)
theory Prov_Http
  imports Prov_System
begin

text \<open>
  \<open>cmd/provisioner/main.go\<close>: the HTTP front end of the provisioner and its background loop.  A
  handler takes a request and the world and gives a response, the tasks it started and the world.
  The text of an error (\<open>err.Error()\<close>) is a parameter: the texts of API errors are the server's.
\<close>

section \<open>Query strings\<close>

text \<open>
  \<open>URL.Query().Get\<close>: the first value of the key; pairs with a semicolon or a malformed escape are
  dropped, and more than 10000 pairs are refused as a whole.
\<close>

definition query_pair :: "string \<Rightarrow> (string \<times> string) list" where
  "query_pair kv =
     (if CHR '';'' \<in> set kv \<or> kv = [] then []
      else (case cut_byte kv (CHR ''='') of (k, v, _) \<Rightarrow>
        (case (unescape EncQueryComponent k, unescape EncQueryComponent v) of
           (Inr k', Inr v') \<Rightarrow> [(k', v')] | _ \<Rightarrow> [])))"

definition query_get :: "string \<Rightarrow> string \<Rightarrow> string" where
  "query_get raw key =
     (if count_byte raw (CHR ''&'') + 1 > 10000 then []
      else (case map_of (concat (map query_pair (split_byte raw (CHR ''&'')))) key of
        None \<Rightarrow> [] | Some v \<Rightarrow> v))"

definition query_escape :: "string \<Rightarrow> string" where
  "query_escape s = escape EncQueryComponent s"

section \<open>Requests\<close>

record request =
  rq_header :: "string gomap" \<comment> \<open>the first value of each header, by canonical name\<close>
  rq_host :: string
  rq_query :: string
  rq_form :: "string gomap"

definition header_get :: "request \<Rightarrow> string \<Rightarrow> string" where
  "header_get r k = gm_string (Some (rq_header r)) k"

definition firstForwardedHost :: "string \<Rightarrow> string" where
  "firstForwardedHost value =
     (if value = [] then []
      else (case cut_byte value (CHR '','') of (first, _, _) \<Rightarrow> trim_space first))"

text \<open>One \<open>name=value\<close> part of a \<open>Forwarded\<close> header, and the two loops over its entries.\<close>

definition partHost :: "string \<Rightarrow> string option" where
  "partHost part0 =
     (let part = trim_space part0 in
      if length part < 5 \<or> \<not> equal_fold (take 5 part) ''host='' then None
      else Some (trim_cutset (trim_space (drop 5 part)) [CHR 0x22]))"

fun hostInParts :: "string list \<Rightarrow> string option" where
  "hostInParts [] = None"
| "hostInParts (part # parts) =
     (case partHost part of None \<Rightarrow> hostInParts parts | Some host \<Rightarrow> Some host)"

fun hostInEntries :: "string list \<Rightarrow> string option" where
  "hostInEntries [] = None"
| "hostInEntries (e # entries) =
     (case hostInParts (split_byte e (CHR '';'')) of
        None \<Rightarrow> hostInEntries entries | Some host \<Rightarrow> Some host)"

definition forwardedHeaderHost :: "string \<Rightarrow> string" where
  "forwardedHeaderHost value =
     (case hostInEntries (split_byte value (CHR '','')) of None \<Rightarrow> [] | Some host \<Rightarrow> host)"

definition forwardedOrRequestHost :: "request \<Rightarrow> string" where
  "forwardedOrRequestHost r =
     (if forwardedHeaderHost (header_get r ''Forwarded'') \<noteq> []
      then forwardedHeaderHost (header_get r ''Forwarded'')
      else if firstForwardedHost (header_get r ''X-Forwarded-Host'') \<noteq> []
      then firstForwardedHost (header_get r ''X-Forwarded-Host'')
      else rq_host r)"

definition requestExternalBaseURL :: "request \<Rightarrow> string \<Rightarrow> string \<Rightarrow> go_error + string" where
  "requestExternalBaseURL r scheme port =
     ExternalBaseURLForHost (forwardedOrRequestHost r) scheme port"

section \<open>Responses and handlers\<close>

record page_data =
  pd_workspaces :: "workspace_info list"
  pd_error :: string
  pd_success :: string
  pd_headlampBaseURL :: string

text \<open>\<open>http.Redirect\<close> with 303, \<open>http.Error\<close>, a YAML attachment, or the rendered page.\<close>

datatype response =
    SeeOther string
  | HttpError nat string
  | Attachment string string
  | Page page_data

type_synonym 'w handler = "request \<Rightarrow> 'w \<Rightarrow> (response \<times> task list) \<times> 'w"

definition handleIndex ::
  "'w platform \<Rightarrow> (go_error \<Rightarrow> string) \<Rightarrow> provisioner \<Rightarrow> 'w handler" where
  "handleIndex E errText p r w =
     (let data = \<lparr>pd_workspaces = [], pd_error = query_get (rq_query r) ''error'',
            pd_success = query_get (rq_query r) ''success'',
            pd_headlampBaseURL = (case requestExternalBaseURL r ''http'' ''4466'' of
               Inl _ \<Rightarrow> ''http://localhost:4466'' | Inr baseURL \<Rightarrow> baseURL)\<rparr> in
      case ListWorkspaces E p w of
        (Inl err, w') \<Rightarrow> ((Page (data\<lparr>pd_error := ''listing workspaces: '' @ errText err\<rparr>), []), w')
      | (Inr workspaces, w') \<Rightarrow> ((Page (data\<lparr>pd_workspaces := workspaces\<rparr>), []), w'))"

definition handleCreateWorkspace ::
  "'w platform \<Rightarrow> (go_error \<Rightarrow> string) \<Rightarrow> provisioner \<Rightarrow> 'w handler" where
  "handleCreateWorkspace E errText p r w =
     (let name = gm_string (Some (rq_form r)) ''name'' in
      if name = [] then
        ((SeeOther (''/?error='' @ query_escape ''workspace name is required''), []), w)
      else (case ProvisionWorkspace E p name w of
        (Inl err, w') \<Rightarrow> ((SeeOther (''/?error='' @ query_escape (errText err)), []), w')
      | (Inr _, w') \<Rightarrow>
          ((SeeOther (''/?success='' @
              query_escape (''Workspace '' @ name @ '' provisioned successfully'')), []), w')))"

definition handleAdminKubeconfig ::
  "'w platform \<Rightarrow> (go_error \<Rightarrow> string) \<Rightarrow> provisioner \<Rightarrow> 'w handler" where
  "handleAdminKubeconfig E errText p r w =
     (case requestExternalBaseURL r ''https'' ''6443'' of
        Inl err \<Rightarrow> ((HttpError 400 (errText err), []), w)
      | Inr baseURL \<Rightarrow>
          (case AdminKubeconfigBytesForExternalBaseURL E p baseURL w of
             (Inl err, w') \<Rightarrow> ((HttpError 500 (errText err), []), w')
           | (Inr data, w') \<Rightarrow> ((Attachment ''admin.kubeconfig'' data, []), w')))"

definition handleDeleteWorkspace ::
  "'w platform \<Rightarrow> (go_error \<Rightarrow> string) \<Rightarrow> provisioner \<Rightarrow> string \<Rightarrow> 'w handler" where
  "handleDeleteWorkspace E errText p name r w =
     (case DeleteWorkspace E p name w of
        (Inl err, w') \<Rightarrow> ((SeeOther (''/?error='' @ query_escape (errText err)), []), w')
      | (Inr tasks, w') \<Rightarrow>
          ((SeeOther (''/?success='' @ query_escape (''Workspace '' @ name @ '' deleted'')), tasks), w'))"

definition handleKubeconfig ::
  "'w platform \<Rightarrow> (go_error \<Rightarrow> string) \<Rightarrow> provisioner \<Rightarrow> string \<Rightarrow> 'w handler" where
  "handleKubeconfig E errText p name r w =
     (case GetWorkspace E p name w of
        (Inl err, w1) \<Rightarrow> ((HttpError 404 (errText err), []), w1)
      | (Inr ws, w1) \<Rightarrow>
          if ws_url ws = [] then
            ((HttpError 409 (errText (errorf ''workspace %q has no URL (not ready yet?)'' [name])), []), w1)
          else (case requestExternalBaseURL r ''https'' ''6443'' of
            Inl err \<Rightarrow> ((HttpError 400 (errText err), []), w1)
          | Inr baseURL \<Rightarrow>
              (case KubeconfigBytesForExternalBaseURL E p ws baseURL w1 of
                 (Inl err, w2) \<Rightarrow> ((HttpError 500 (errText err), []), w2)
               | (Inr data, w2) \<Rightarrow> ((Attachment (name @ ''.kubeconfig'') data, []), w2))))"

section \<open>The background loop and the configuration\<close>

text \<open>\<open>acceptedEventsClaim\<close>, and the \<open>Provisioner\<close> that \<open>main\<close> builds from its flags.\<close>

definition acceptedEventsClaim :: "'w platform \<Rightarrow> permission_claim" where
  "acceptedEventsClaim E =
     \<lparr>pc_resource = ''events'', pc_verbs = [''*''], pc_matchAll = True, pc_state = c_claimAccepted E\<rparr>"

definition mainProvisioner ::
  "'w platform \<Rightarrow> rest_config \<Rightarrow> string \<Rightarrow> string \<Rightarrow> string \<Rightarrow> string \<Rightarrow> rest_config option \<Rightarrow> provisioner" where
  "mainProvisioner E cfg providerWorkspace exportName kubernetesExport consumersWorkspace k8sClient =
     \<lparr>pv_admin = cfg, pv_provider = providerWorkspace,
      pv_bindings =
        [\<lparr>wb_name = ''dbaas'', wb_exportName = exportName, wb_claims = [acceptedEventsClaim E]\<rparr>,
         \<lparr>wb_name = ''kubernetes'', wb_exportName = kubernetesExport,
          wb_claims = [acceptedEventsClaim E]\<rparr>],
      pv_consumers = consumersWorkspace, pv_k8s = k8sClient,
      pv_headlampNamespace = ''headlamp'', pv_headlampSecret = ''headlamp-workspace-kubeconfig'',
      pv_headlampDeployment = ''headlamp''\<rparr>"

text \<open>
  One round of the loop, and the rounds until the process stops: one at the start and one at every
  tick.  The argument has the map orders and the time of each round.
\<close>

definition reconcileRound ::
  "'w platform \<Rightarrow> provisioner \<Rightarrow> range_orders \<times> string \<Rightarrow> 'w \<Rightarrow> (log \<times> task list) \<times> 'w" where
  "reconcileRound E p rn w =
     (case ReconcileWorkspaceBindings E p w of ((l1, ts), w1) \<Rightarrow>
        (case ReconcileHeadlamp E (fst rn) (snd rn) p w1 of (l2, w2) \<Rightarrow> ((l1 @ l2, ts), w2)))"

fun startHeadlampReconcileLoop ::
  "'w platform \<Rightarrow> provisioner \<Rightarrow> (range_orders \<times> string) list \<Rightarrow> 'w \<Rightarrow> (log \<times> task list) \<times> 'w" where
  "startHeadlampReconcileLoop E p [] w = (([], []), w)"
| "startHeadlampReconcileLoop E p (rn # rns) w =
     (case reconcileRound E p rn w of ((l1, t1), w1) \<Rightarrow>
        (case startHeadlampReconcileLoop E p rns w1 of ((l2, t2), w2) \<Rightarrow> ((l1 @ l2, t1 @ t2), w2)))"

section \<open>Lemmas\<close>

text \<open>What \<open>QueryEscape\<close> leaves in a string separates nothing in a query or a URL.\<close>

definition query_safe :: "char \<Rightarrow> bool" where
  "query_safe c = (is_alnum c \<or> c \<in> set ''-_.~+%'')"

lemma hex_digit_alnum: "n < 16 \<Longrightarrow> is_alnum (hex_digit n)"
  by (auto simp: hex_digit_def is_alnum_def is_digit_def is_upper_def)

lemma not_escaped_query: "\<not> should_escape EncQueryComponent c \<Longrightarrow> query_safe c"
  by (auto simp: should_escape_def query_safe_def split: if_splits)

lemma query_escape_safe: "c \<in> set (query_escape s) \<Longrightarrow> query_safe c"
proof (induction s)
  case (Cons d s)
  have lt: "byte d div 16 < 16" "byte d mod 16 < 16" using byte_less [of d] by (auto simp del: byte_less)
  have hx: "query_safe (hex_digit (byte d div 16))" "query_safe (hex_digit (byte d mod 16))"
    using hex_digit_alnum [OF lt(1)] hex_digit_alnum [OF lt(2)] by (simp_all add: query_safe_def)
  have lit: "query_safe (CHR ''%'')" "query_safe (CHR ''+'')" by (simp_all add: query_safe_def)
  from Cons show ?case
    using hx lit not_escaped_query [of d] by (auto simp: query_escape_def split: if_splits)
qed (simp add: query_escape_def)

lemma query_safe_not:
  assumes "query_safe c"
  shows "c \<noteq> CHR ''&'' \<and> c \<noteq> CHR '';'' \<and> c \<noteq> CHR ''='' \<and> c \<noteq> CHR ''#'' \<and> c \<noteq> CHR ''?'' \<and>
    c \<noteq> CHR '':'' \<and> c \<noteq> CHR ''/'' \<and> \<not> is_ctl c"
  using assms
  by (auto simp: query_safe_def is_alnum_def is_lower_def is_upper_def is_digit_def is_ctl_def byte_def)

definition plain_key :: "string \<Rightarrow> bool" where
  "plain_key k = (k \<noteq> [] \<and> list_all is_alnum k)"

lemma plain_keyD:
  assumes "plain_key k" "c \<in> set k"
  shows "query_safe c" "c \<noteq> CHR ''+'' \<and> c \<noteq> CHR ''%''"
  using assms
  by (auto simp: plain_key_def list_all_iff query_safe_def is_alnum_def is_lower_def is_upper_def
      is_digit_def byte_def)

lemma plain_key_unescape: "plain_key k \<Longrightarrow> unescape EncQueryComponent k = Inr k"
proof -
  have "unescape EncQueryComponent k = Inr k"
    if "\<forall>c \<in> set k. c \<noteq> CHR ''+'' \<and> c \<noteq> CHR ''%''"
    using that by (induction k) auto
  then show "plain_key k \<Longrightarrow> ?thesis" using plain_keyD(2) by blast
qed

lemma query_get_escaped:
  assumes k: "plain_key k"
  shows "query_get (k @ CHR ''='' # query_escape m) k' = (if k' = k then m else [])"
proof -
  let ?q = "k @ CHR ''='' # query_escape m"
  have safe: "query_safe c" if "c \<in> set k \<union> set (query_escape m)" for c
    using that plain_keyD(1) [OF k] query_escape_safe by blast
  have amp: "CHR ''&'' \<notin> set ?q" and semi: "CHR '';'' \<notin> set ?q" and eq: "CHR ''='' \<notin> set k"
    using query_safe_not [OF safe] by auto
  have "query_pair ?q = [(k, m)]"
    using semi plain_key_unescape [OF k] unescape_escape [of EncQueryComponent m]
    by (simp add: query_pair_def cut_byte_found [OF eq] query_escape_def)
  then show ?thesis using amp by (simp add: query_get_def count_byte_0)
qed

lemma parse_redirect:
  assumes k: "plain_key k"
  shows "\<exists>u. url_parse (''/?'' @ k @ CHR ''='' # query_escape m) = Inr u \<and>
    u_path u = ''/'' \<and> u_host u = [] \<and> u_raw_query u = k @ CHR ''='' # query_escape m"
proof -
  let ?q = "k @ CHR ''='' # query_escape m"
  have safe: "query_safe c" if "c \<in> set k \<union> set (query_escape m)" for c
    using that plain_keyD(1) [OF k] query_escape_safe by blast
  have lit: "\<not> is_ctl (CHR ''/'')" "\<not> is_ctl (CHR ''?'')" "\<not> is_ctl (CHR ''='')"
    by (simp_all add: is_ctl_def byte_def)
  have q: "CHR ''#'' \<notin> set ?q" "CHR ''?'' \<notin> set ?q" "\<forall>c \<in> set ?q. \<not> is_ctl c"
    using query_safe_not [OF safe] lit by auto
  have "\<not> has_suffix (''/?'' @ ?q) ''?''"
    using q(2) by (auto simp: has_suffix_single) (metis last_in_set list.distinct(1) append_is_Nil_conv)
  then have cq: "cut_query (''/?'' @ ?q) = (''/'', False, ?q)"
    using cut_byte_found [of "CHR ''?''" "''/''" ?q] by (simp add: cut_query_def)
  have sch: "get_scheme (''/?'' @ ?q) = Inr ([], ''/?'' @ ?q)"
    by (simp add: get_scheme_def is_letter_def is_lower_def is_upper_def is_digit_def byte_def)
  have noctl: "\<not> list_ex is_ctl (''/?'' @ ?q)" using q(3) lit by (auto simp: list_ex_iff)
  have path: "unescape EncPath ''/'' = Inr ''/''" by code_simp
  have pn: "\<exists>u. parse_no_fragment (''/?'' @ ?q) = Inr u \<and> u_path u = ''/'' \<and> u_host u = [] \<and> u_raw_query u = ?q"
    using noctl cq sch path
    by (simp add: parse_no_fragment_def parse_hier_def set_path_def Let_def empty_url_def to_lower_def)
  have "cut_byte (''/?'' @ ?q) (CHR ''#'') = (''/?'' @ ?q, [], False)"
    using q(1) by (intro cut_byte_none) simp
  with pn show ?thesis by (auto simp: url_parse_def)
qed

text \<open>
  The reference reading of a \<open>Forwarded\<close> header: entries separated by commas, of parts separated by
  semicolons; the first part that is a host pair decides.
\<close>

fun first_some :: "('a \<Rightarrow> 'b option) \<Rightarrow> 'a list \<Rightarrow> 'b option" where
  "first_some f [] = None"
| "first_some f (x # xs) = (case f x of None \<Rightarrow> first_some f xs | Some y \<Rightarrow> Some y)"

lemma first_some_append:
  "first_some f (xs @ ys) = (case first_some f xs of None \<Rightarrow> first_some f ys | Some y \<Rightarrow> Some y)"
  by (induction xs) (auto split: option.split)

lemma hostInParts_first: "hostInParts ps = first_some partHost ps"
  by (induction ps) (auto split: option.split)

lemma hostInEntries_first:
  "hostInEntries es = first_some partHost (concat (map (\<lambda>e. split_byte e (CHR '';'')) es))"
  by (induction es) (auto simp: hostInParts_first first_some_append split: option.split)

definition forwarded_header :: "string list list \<Rightarrow> string" where
  "forwarded_header entries = join_byte (map (\<lambda>e. join_byte e (CHR '';'')) entries) (CHR '','')"

definition entries_ok :: "string list list \<Rightarrow> bool" where
  "entries_ok entries \<longleftrightarrow> entries \<noteq> [] \<and>
     (\<forall>e \<in> set entries. e \<noteq> [] \<and> (\<forall>p \<in> set e. CHR '';'' \<notin> set p \<and> CHR '','' \<notin> set p))"

lemma forwardedHeaderHost_first:
  assumes "entries_ok entries"
  shows "forwardedHeaderHost (forwarded_header entries) =
    (case first_some partHost (concat entries) of None \<Rightarrow> [] | Some host \<Rightarrow> host)"
proof -
  have "CHR '','' \<notin> set (join_byte e (CHR '';''))" if "e \<in> set entries" for e
    using assms that set_join_byte [of "CHR '',''" e "CHR '';''"] by (auto simp: entries_ok_def)
  moreover have "map (\<lambda>e. join_byte e (CHR '';'')) entries \<noteq> []" using assms by (simp add: entries_ok_def)
  ultimately have "split_byte (forwarded_header entries) (CHR '','') = map (\<lambda>e. join_byte e (CHR '';'')) entries"
    unfolding forwarded_header_def by (intro split_join_byte) auto
  moreover have "map ((\<lambda>e. split_byte e (CHR '';'')) \<circ> (\<lambda>e. join_byte e (CHR '';''))) entries = entries"
    using assms by (intro map_idI) (auto simp: entries_ok_def split_join_byte)
  ultimately show ?thesis
    by (simp add: forwardedHeaderHost_def hostInEntries_first)
qed

text \<open>A host pair, plain or quoted, in any case.\<close>

lemma space_edge_host: "\<not> space_edge (CHR ''h'')" "\<not> space_edge (CHR 0x22)" "\<not> space_edge (CHR ''['')"
  "\<not> space_edge (CHR '']'')"
  by (simp_all add: space_edge_def space_seqs_def)

lemma join_char_edge:
  assumes "client_name h" "plain_port q" "c \<in> set (join_host_port h q)"
  shows "\<not> space_edge c" "c \<noteq> CHR 0x22" "c \<noteq> CHR '',''"
proof -
  have "CHR '','' \<noteq> d" if "is_alnum d \<or> d \<in> set ''-.:''" for d
    using that by (auto simp: is_alnum_def is_lower_def is_upper_def is_digit_def byte_def)
  with join_chars [OF assms] client_char [of c] space_edge_host
  show "\<not> space_edge c" "c \<noteq> CHR 0x22" "c \<noteq> CHR '',''" by auto
qed

lemma trim_space_join:
  assumes "client_name h" "plain_port q"
  shows "trim_space (join_host_port h q) = join_host_port h q"
    "trim_cutset (join_host_port h q) [CHR 0x22] = join_host_port h q"
proof -
  have ne: "join_host_port h q \<noteq> []" by (simp add: join_host_port_def)
  then have "hd (join_host_port h q) \<in> set (join_host_port h q)"
    "last (join_host_port h q) \<in> set (join_host_port h q)" by auto
  note e = join_char_edge [OF assms this(1)] join_char_edge [OF assms this(2)]
  show "trim_space (join_host_port h q) = join_host_port h q" using e by (intro trim_space_id) blast
  show "trim_cutset (join_host_port h q) [CHR 0x22] = join_host_port h q"
    using e by (intro trim_cutset_id) auto
qed

lemma partHost_pair:
  assumes "client_name h" "plain_port q"
  shows "partHost (''host='' @ join_host_port h q) = Some (join_host_port h q)"
proof -
  have ne: "join_host_port h q \<noteq> []" by (simp add: join_host_port_def)
  then have l: "last (join_host_port h q) \<in> set (join_host_port h q)" by auto
  have "trim_space (''host='' @ join_host_port h q) = ''host='' @ join_host_port h q"
    using ne space_edge_host join_char_edge(1) [OF assms l] by (intro trim_space_id) simp
  then show ?thesis using trim_space_join [OF assms] by (simp add: partHost_def Let_def)
qed

lemma firstForwardedHost_join:
  assumes "client_name h" "plain_port q"
  shows "firstForwardedHost (join_host_port h q @ CHR '','' # rest) = join_host_port h q"
    "firstForwardedHost (join_host_port h q) = join_host_port h q"
proof -
  have c: "CHR '','' \<notin> set (join_host_port h q)" using join_char_edge(3) [OF assms] by blast
  then show "firstForwardedHost (join_host_port h q @ CHR '','' # rest) = join_host_port h q"
    using trim_space_join [OF assms] by (simp add: firstForwardedHost_def)
  have "join_host_port h q \<noteq> []" by (simp add: join_host_port_def)
  with c show "firstForwardedHost (join_host_port h q) = join_host_port h q"
    using trim_space_join [OF assms] by (simp add: firstForwardedHost_def)
qed

text \<open>Which host decides, and the base URL it gives.\<close>

definition host_source :: "request \<Rightarrow> string \<Rightarrow> bool" where
  "host_source r hp \<longleftrightarrow>
     (\<exists>entries. entries_ok entries \<and> header_get r ''Forwarded'' = forwarded_header entries \<and>
        first_some partHost (concat entries) = Some hp) \<or>
     (header_get r ''Forwarded'' = [] \<and>
       (\<exists>rest. header_get r ''X-Forwarded-Host'' = hp @ rest \<and> (rest = [] \<or> hd rest = CHR '',''))) \<or>
     (header_get r ''Forwarded'' = [] \<and> header_get r ''X-Forwarded-Host'' = [] \<and> rq_host r = hp)"

lemma forwarded_empty: "forwardedHeaderHost [] = []" "firstForwardedHost [] = []"
proof -
  have "trim_space [] = []" by (rule trim_space_id) simp
  then show "forwardedHeaderHost [] = []" "firstForwardedHost [] = []"
    by (simp_all add: forwardedHeaderHost_def firstForwardedHost_def partHost_def Let_def)
qed

lemma host_source_decides:
  assumes "client_name h" "plain_port q" "host_source r (join_host_port h q)"
  shows "forwardedOrRequestHost r = join_host_port h q"
proof -
  have ne: "join_host_port h q \<noteq> []" by (simp add: join_host_port_def)
  from assms(3) consider
      (fwd) entries where "entries_ok entries" "header_get r ''Forwarded'' = forwarded_header entries"
        "first_some partHost (concat entries) = Some (join_host_port h q)"
    | (xfwd) rest where "header_get r ''Forwarded'' = []"
        "header_get r ''X-Forwarded-Host'' = join_host_port h q @ rest" "rest = [] \<or> hd rest = CHR '',''"
    | (host) "header_get r ''Forwarded'' = []" "header_get r ''X-Forwarded-Host'' = []"
        "rq_host r = join_host_port h q"
    unfolding host_source_def by blast
  then show ?thesis
  proof cases
    case fwd
    with forwardedHeaderHost_first [OF fwd(1)] ne show ?thesis by (simp add: forwardedOrRequestHost_def)
  next
    case xfwd
    then have "firstForwardedHost (header_get r ''X-Forwarded-Host'') = join_host_port h q"
      using firstForwardedHost_join [OF assms(1,2)] by (cases rest) auto
    with xfwd(1) ne forwarded_empty show ?thesis by (simp add: forwardedOrRequestHost_def)
  next
    case host
    with forwarded_empty show ?thesis by (simp add: forwardedOrRequestHost_def)
  qed
qed

lemma request_base_url:
  assumes "client_name h" "plain_port q0" "s \<noteq> []" "plain_port q" "host_source r (join_host_port h q0)"
  shows "requestExternalBaseURL r s q = Inr (s @ ''://'' @ join_host_port h q)"
  using external_base_url [OF assms(1-4)] host_source_decides [OF assms(1,2,5)]
  by (simp add: requestExternalBaseURL_def)

section \<open>The front end runs the provisioner's steps\<close>

text \<open>
  Every request and every round of the background loop is a path of the provisioner's step
  relation; a request for a kubeconfig or the admin kubeconfig is one of at most two steps.
\<close>

lemma create_path: "handleCreateWorkspace E errText p r w = (x, w') \<Longrightarrow> (prov_step E p view)\<^sup>*\<^sup>* w w'"
  by (auto simp: handleCreateWorkspace_def Let_def split: if_splits prod.splits sum.splits
      intro!: r_into_rtranclp prov_step.provision)

lemma delete_path: "handleDeleteWorkspace E errText p name r w = (x, w') \<Longrightarrow> (prov_step E p view)\<^sup>*\<^sup>* w w'"
  by (auto simp: handleDeleteWorkspace_def split: prod.splits sum.splits
      intro!: r_into_rtranclp prov_step.delete)

lemma index_path: "handleIndex E errText p r w = (x, w') \<Longrightarrow> (prov_step E p view)\<^sup>*\<^sup>* w w'"
  by (auto simp: handleIndex_def Let_def split: prod.splits sum.splits
      intro!: r_into_rtranclp prov_step.list)

lemma admin_path: "handleAdminKubeconfig E errText p r w = (x, w') \<Longrightarrow> (prov_step E p view)\<^sup>*\<^sup>* w w'"
  by (auto simp: handleAdminKubeconfig_def split: prod.splits sum.splits
      intro!: r_into_rtranclp prov_step.adminKubeconfig)

lemma round_path:
  assumes "reconcileRound E p rn w = (x, w')" and "orders_ok (fst rn)"
  shows "(prov_step E p view)\<^sup>*\<^sup>* w w'"
proof -
  obtain r1 w1 where 1: "ReconcileWorkspaceBindings E p w = (r1, w1)" by fastforce
  obtain l2 w2 where 2: "ReconcileHeadlamp E (fst rn) (snd rn) p w1 = (l2, w2)" by fastforce
  from assms(1) 1 2 have "w' = w2" by (auto simp: reconcileRound_def split: prod.splits)
  moreover have "prov_step E p view w w1" using 1 by (rule prov_step.reconcile)
  moreover have "prov_step E p view w1 w2"
    using 2 assms(2) unfolding ReconcileHeadlamp_def by (intro prov_step.sync_secret)
  ultimately show ?thesis by (simp add: rtranclp.rtrancl_into_rtrancl)
qed

lemma loop_path:
  assumes "startHeadlampReconcileLoop E p rns w = (x, w')" and "\<forall>rn \<in> set rns. orders_ok (fst rn)"
  shows "(prov_step E p view)\<^sup>*\<^sup>* w w'"
  using assms
proof (induction rns arbitrary: w x)
  case (Cons rn rns)
  obtain l1 t1 w1 where 1: "reconcileRound E p rn w = ((l1, t1), w1)" by (metis prod.collapse)
  obtain y where 2: "startHeadlampReconcileLoop E p rns w1 = (y, w')"
    using Cons.prems(1) 1 by (auto split: prod.splits)
  have "orders_ok (fst rn)" "\<forall>rn \<in> set rns. orders_ok (fst rn)" using Cons.prems(2) by simp_all
  from round_path [OF 1 this(1)] Cons.IH [OF 2 this(2)] show ?case by (rule rtranclp_trans)
qed simp

context api_server
begin

lemma keeps_GetWorkspace: "keeps view (GetWorkspace E p name)"
  unfolding GetWorkspace_def by (intro keeps_intros server_reads)

lemma GetWorkspace_ok:
  assumes "GetWorkspace E p name w = (Inr x, w')"
  shows "v_workspaces (view w) (workspaceKey p name) = Some x"
proof -
  from assms obtain c w1 where c: "kcpClientForWorkspace E p (pv_consumers p) = Inr c"
    and r: "rget (p_workspaces E) c ([], name) w = (Inr x, w1)"
    by (auto simp: GetWorkspace_def elim!: or_fail_InrE)
  from ws.get_found [OF r] client_host(1) [OF c] show ?thesis
    by (simp add: workspaceKey_def consumersHost_def)
qed

text \<open>The kubeconfig handler only reads; its status says why there is no kubeconfig.\<close>

lemma kubeconfig_handler:
  assumes run: "handleKubeconfig E errText p name r w = ((resp, ts), w')"
  shows "view w' = view w \<and> ts = [] \<and>
    (case resp of
       Attachment f data \<Rightarrow> f = name @ ''.kubeconfig'' \<and>
         (\<exists>x base server n au. v_workspaces (view w) (workspaceKey p name) = Some x \<and> ws_url x \<noteq> [] \<and>
            requestExternalBaseURL r ''https'' ''6443'' = Inr base \<and>
            externalURLForServer (ws_url x) base = Inr server \<and>
            kubeconfig_auth p (view w) x n au \<and>
            kc_write E (workspaceKubeconfig p server au n) = Inr data)
     | HttpError c m \<Rightarrow>
         c = 404 \<or>
         c = 409 \<and> (\<exists>x. v_workspaces (view w) (workspaceKey p name) = Some x \<and> ws_url x = []) \<or>
         c = 400 \<and> (\<exists>e. requestExternalBaseURL r ''https'' ''6443'' = Inl e) \<or> c = 500
     | _ \<Rightarrow> False)"
proof -
  obtain g w1 where g: "GetWorkspace E p name w = (g, w1)" by fastforce
  have v1: "view w1 = view w" by (rule keepsD [OF keeps_GetWorkspace g])
  show ?thesis
  proof (cases g)
    case (Inl e)
    with run g v1 show ?thesis by (auto simp: handleKubeconfig_def)
  next
    case (Inr x)
    note x = GetWorkspace_ok [OF g [unfolded Inr]]
    show ?thesis
    proof (cases "ws_url x = []")
      case True
      with run g Inr v1 x show ?thesis by (auto simp: handleKubeconfig_def)
    next
      case url: False
      show ?thesis
      proof (cases "requestExternalBaseURL r ''https'' ''6443''")
        case (Inl e)
        with run g \<open>g = Inr x\<close> url v1 show ?thesis by (auto simp: handleKubeconfig_def)
      next
        case base: (Inr base)
        obtain k w2 where k: "KubeconfigBytesForExternalBaseURL E p x base w1 = (k, w2)" by fastforce
        have v2: "view w2 = view w" using keepsD [OF keeps_kubeconfig k] v1 by simp
        show ?thesis
        proof (cases k)
          case (Inl e)
          with run g \<open>g = Inr x\<close> url base k v2 show ?thesis by (auto simp: handleKubeconfig_def)
        next
          case (Inr data)
          with run g \<open>g = Inr x\<close> url base k
          have "resp = Attachment (name @ ''.kubeconfig'') data" "ts = []" "w' = w2"
            by (auto simp: handleKubeconfig_def)
          moreover from kubeconfig_ok [OF k [unfolded Inr], unfolded v1]
          obtain server n au where "externalURLForServer (ws_url x) base = Inr server"
            "kubeconfig_auth p (view w) x n au" "kc_write E (workspaceKubeconfig p server au n) = Inr data"
            by blast
          ultimately show ?thesis using v2 x url base by auto
        qed
      qed
    qed
  qed
qed

end

lemma kubeconfig_path:
  assumes "handleKubeconfig E errText p name r w = (x, w')" and "api_server E view"
  shows "(prov_step E p view)\<^sup>*\<^sup>* w w'"
proof -
  obtain resp ts where "x = (resp, ts)" by fastforce
  with api_server.kubeconfig_handler [OF assms(2)] assms(1) have "view w' = view w" by blast
  then have "prov_step E p view w w'" by (intro prov_step.env) (simp add: env_step_def)
  then show ?thesis by blast
qed

text \<open>The create handler reports its outcome through the redirect, and the page shows it.\<close>

definition message_at :: "string \<Rightarrow> string \<Rightarrow> string \<Rightarrow> bool" where
  "message_at loc key msg \<longleftrightarrow>
     (\<exists>u. url_parse loc = Inr u \<and> u_path u = ''/'' \<and> u_host u = [] \<and>
        query_get (u_raw_query u) key = msg \<and>
        (\<forall>k. k \<noteq> key \<longrightarrow> query_get (u_raw_query u) k = []))"

lemma message_roundtrip: "plain_key key \<Longrightarrow> message_at (''/?'' @ key @ CHR ''='' # query_escape msg) key msg"
  using parse_redirect [of key msg] query_get_escaped [of key msg] by (auto simp: message_at_def)

lemma plain_keys: "plain_key ''error''" "plain_key ''success''"
  by code_simp+

end
