(* ===== verification/Prov_Main.thy ===== *)
theory Prov_Main
  imports Prov_Http
begin

text \<open>
  \<open>main\<close> of \<open>cmd/provisioner/main.go\<close>: flags, the configuration built from them, and the routes of the
  HTTP server.  Logging and flag parsing are the libraries'; the running process is in \<open>Prov_Process\<close>.
\<close>

section \<open>Start-up\<close>

record provisioner_flags =
  pf_addr :: string
  pf_kubeconfig :: string
  pf_providerWorkspace :: string
  pf_exportName :: string
  pf_kubernetesExport :: string
  pf_consumersWorkspace :: string

text \<open>The defaults; the kubeconfig's is the environment variable.\<close>

definition defaultProvisionerFlags :: "string \<Rightarrow> provisioner_flags" where
  "defaultProvisionerFlags env =
     \<lparr>pf_addr = '':8090'', pf_kubeconfig = env, pf_providerWorkspace = ''root:dbaas-provider'',
      pf_exportName = ''databases.dbaas.mongodb.com'', pf_kubernetesExport = ''kubernetes.dbaas.mongodb.com'',
      pf_consumersWorkspace = ''root:consumers''\<rparr>"

record prov_launcher =
  pl_buildConfig :: "string \<Rightarrow> string \<Rightarrow> go_error + rest_config" \<comment> \<open>\<open>clientcmd.BuildConfigFromFlags\<close>\<close>
  pl_inCluster :: "go_error + rest_config" \<comment> \<open>\<open>rest.InClusterConfig\<close>\<close>

datatype prov_launch = ProvExit string "go_error option" | ProvServe provisioner string

text \<open>The client for Headlamp: none, with a log entry, outside a cluster or when it cannot be built.\<close>

definition headlampClient :: "'w platform \<Rightarrow> prov_launcher \<Rightarrow> rest_config option" where
  "headlampClient E L =
     (case pl_inCluster L of
        Inl _ \<Rightarrow> None
      | Inr k8sCfg \<Rightarrow> (case kube_new E k8sCfg of None \<Rightarrow> Some k8sCfg | Some _ \<Rightarrow> None))"

definition provisionerMain :: "'w platform \<Rightarrow> prov_launcher \<Rightarrow> provisioner_flags \<Rightarrow> prov_launch" where
  "provisionerMain E L f =
     (if pf_kubeconfig f = [] then ProvExit ''--kubeconfig or KUBECONFIG env var is required'' None
      else (case pl_buildConfig L [] (pf_kubeconfig f) of
         Inl err \<Rightarrow> ProvExit ''loading kubeconfig'' (Some err)
       | Inr cfg \<Rightarrow>
           ProvServe (mainProvisioner E cfg (pf_providerWorkspace f) (pf_exportName f)
             (pf_kubernetesExport f) (pf_consumersWorkspace f) (headlampClient E L)) (pf_addr f)))"

section \<open>Routes\<close>

text \<open>
  \<open>http.ServeMux\<close> on a clean path, given by its segments: the most specific pattern that matches
  method and path, a GET pattern matching HEAD too, and 405 when only another method matches (the
  pattern \<open>GET /\<close> matches every path).
\<close>

datatype mux_route =
    RouteIndex | RouteAdmin | RouteCreate
  | RouteKubeconfig string | RouteDelete string | RouteNotAllowed

definition muxRoute :: "string \<Rightarrow> string list \<Rightarrow> mux_route" where
  "muxRoute method path =
     (if method = ''GET'' \<or> method = ''HEAD'' then
        (if path = [''api'', ''admin.kubeconfig''] then RouteAdmin
         else (case path of
             [a, b, name, c] \<Rightarrow>
               if a = ''api'' \<and> b = ''workspaces'' \<and> c = ''kubeconfig'' then RouteKubeconfig name
               else RouteIndex
           | _ \<Rightarrow> RouteIndex))
      else if method = ''POST'' then
        (if path = [''api'', ''workspaces''] then RouteCreate
         else (case path of
             [a, b, name, c] \<Rightarrow>
               if a = ''api'' \<and> b = ''workspaces'' \<and> c = ''delete'' then RouteDelete name
               else RouteNotAllowed
           | _ \<Rightarrow> RouteNotAllowed))
      else RouteNotAllowed)"

definition serve ::
  "'w platform \<Rightarrow> (go_error \<Rightarrow> string) \<Rightarrow> provisioner \<Rightarrow> string \<Rightarrow> string list \<Rightarrow> 'w handler" where
  "serve E errText p method path =
     (case muxRoute method path of
        RouteIndex \<Rightarrow> handleIndex E errText p
      | RouteAdmin \<Rightarrow> handleAdminKubeconfig E errText p
      | RouteCreate \<Rightarrow> handleCreateWorkspace E errText p
      | RouteKubeconfig name \<Rightarrow> handleKubeconfig E errText p name
      | RouteDelete name \<Rightarrow> handleDeleteWorkspace E errText p name
      | RouteNotAllowed \<Rightarrow> (\<lambda>r w. ((HttpError 405 ''Method Not Allowed'', []), w)))"

section \<open>Lemmas\<close>

lemma muxRoute_read:
  "method = ''GET'' \<or> method = ''HEAD'' \<Longrightarrow>
     muxRoute method path = RouteIndex \<or> muxRoute method path = RouteAdmin \<or>
     (\<exists>name. muxRoute method path = RouteKubeconfig name)"
  by (auto simp: muxRoute_def split: list.splits)

context api_server
begin

lemma index_reads:
  assumes "handleIndex E errText p r w = ((resp, ts), w')"
  shows "view w' = view w \<and> ts = []"
  using assms keepsD [OF keeps_ListWorkspaces, of p w]
  by (auto simp: handleIndex_def Let_def split: prod.splits sum.splits)

lemma admin_reads:
  assumes "handleAdminKubeconfig E errText p r w = ((resp, ts), w')"
  shows "view w' = view w \<and> ts = []"
  using assms keepsD [OF keeps_admin_kubeconfig, of p _ w]
  by (auto simp: handleAdminKubeconfig_def split: prod.splits sum.splits)

text \<open>A GET or HEAD request reads; whatever is requested, the invariant survives.\<close>

lemma serve_reads:
  assumes "method = ''GET'' \<or> method = ''HEAD''" and "serve E errText p method path r w = ((resp, ts), w')"
  shows "view w' = view w \<and> ts = []"
  using muxRoute_read [OF assms(1), of path] assms(2) index_reads admin_reads kubeconfig_handler
  by (auto simp: serve_def)

end

lemma serve_path:
  assumes "serve E errText p method path r w = (x, w')" and "api_server E view"
  shows "(prov_step E p view)\<^sup>*\<^sup>* w w'"
proof (cases "muxRoute method path")
  case RouteIndex
  with assms(1) show ?thesis by (intro index_path [of E errText p r w x]) (simp add: serve_def)
next
  case RouteAdmin
  with assms(1) show ?thesis by (intro admin_path [of E errText p r w x]) (simp add: serve_def)
next
  case RouteCreate
  with assms(1) show ?thesis by (intro create_path [of E errText p r w x]) (simp add: serve_def)
next
  case (RouteKubeconfig name)
  with assms(1) show ?thesis
    by (intro kubeconfig_path [of E errText p name r w x, OF _ assms(2)]) (simp add: serve_def)
next
  case (RouteDelete name)
  with assms(1) show ?thesis by (intro delete_path [of E errText p name r w x]) (simp add: serve_def)
next
  case RouteNotAllowed
  with assms(1) show ?thesis by (auto simp: serve_def)
qed

end
