(* ===== verification/Prov_Typing.thy ===== *)
theory Prov_Typing
  imports Prov_Headlamp
begin

text \<open>
  The kubeconfigs the provisioner produces are well typed: keys are unique and every reference of a
  context resolves, so that a client that reads one can use any of its contexts.
\<close>

section \<open>Well-typed kubeconfigs\<close>

definition typed_config :: "kube_config \<Rightarrow> bool" where
  "typed_config c \<longleftrightarrow> wf_config c \<and>
     list_all (\<lambda>(n, x). map_of (kc_clusters c) (kcx_cluster x) \<noteq> None \<and>
       map_of (kc_authInfos c) (kcx_authInfo x) \<noteq> None) (kc_contexts c) \<and>
     (kc_current c = [] \<or> map_of (kc_contexts c) (kc_current c) \<noteq> None)"

lemma typed_workspace: "typed_config (workspaceKubeconfig p s au n)"
  by (simp add: typed_config_def wf_config_def workspaceKubeconfig_def new_config_def new_context_def)

lemma typed_admin: "typed_config (adminKubeconfig p b)"
  by (simp add: typed_config_def wf_config_def adminKubeconfig_def new_config_def new_context_def)

text \<open>
  The kubeconfig for Headlamp, in which a context names the cluster and the user of its own name and
  none is current, as the installed one has it.
\<close>

fun entry_ok :: "string \<Rightarrow> kc_cluster option \<times> auth_info option \<times> kc_context option \<Rightarrow> bool" where
  "entry_ok n (cl, au, cx) =
     (cx = None \<or> cx = Some \<lparr>kcx_cluster = n, kcx_authInfo = n\<rparr> \<and> cl \<noteq> None \<and> au \<noteq> None)"

definition headlamp_config_ok :: "kube_config \<Rightarrow> bool" where
  "headlamp_config_ok c \<longleftrightarrow> wf_config c \<and> kc_current c = [] \<and> (\<forall>n. entry_ok n (entry c n))"

lemma headlamp_config_typed:
  assumes "headlamp_config_ok c"
  shows "typed_config c"
proof -
  have "map_of (kc_clusters c) (kcx_cluster x) \<noteq> None \<and> map_of (kc_authInfos c) (kcx_authInfo x) \<noteq> None"
    if "(n, x) \<in> set (kc_contexts c)" for n x
  proof -
    have "map_of (kc_contexts c) n = Some x"
      using that assms by (intro map_of_is_SomeI) (simp_all add: headlamp_config_ok_def wf_config_def)
    moreover have "entry_ok n (entry c n)" using assms by (simp add: headlamp_config_ok_def)
    ultimately show ?thesis by (simp add: entry_def del: map_of_eq_Some_iff)
  qed
  then show ?thesis using assms by (auto simp: headlamp_config_ok_def typed_config_def list_all_iff)
qed

lemma new_config_ok: "headlamp_config_ok new_config"
  by (simp add: headlamp_config_ok_def new_config_def wf_config_def entry_def)

text \<open>The decoder reads back what the encoder wrote, up to the order of its maps.\<close>

definition reloads :: "'w platform \<Rightarrow> bool" where
  "reloads E \<longleftrightarrow> (\<forall>c b. wf_config c \<and> kc_write E c = Inr b \<longrightarrow>
     (\<exists>c'. kc_load E b = Inr c' \<and> wf_config c' \<and> kc_current c' = kc_current c \<and>
        (\<forall>n. entry c' n = entry c n)))"

section \<open>Every operation keeps them so\<close>

lemma delete_entry_ok: "headlamp_config_ok c \<Longrightarrow> headlamp_config_ok (deleteEntry n c)"
  unfolding headlamp_config_ok_def using wf_delete by (auto simp: deleteEntry_def entry_def delete_conv)

lemma write_entry_ok:
  assumes "headlamp_config_ok c"
  shows "headlamp_config_ok (writeEntry p n au c)"
proof -
  have "entry_ok m (entry (writeEntry p n au c) m)" for m
    using assms by (simp add: headlamp_config_ok_def written_entry_def)
  moreover have "kc_current (writeEntry p n au c) = kc_current c" by (simp add: writeEntry_def)
  ultimately show ?thesis using assms wf_write by (simp add: headlamp_config_ok_def)
qed

lemma removeStale_ok:
  assumes "headlamp_config_ok c"
  shows "headlamp_config_ok (removeStaleHeadlampEntries ro p c desired)"
proof -
  have step: "headlamp_config_ok c \<Longrightarrow> headlamp_config_ok (dropStale p desired c e)" for c e
    by (cases e) (simp add: delete_entry_ok)
  have "headlamp_config_ok c \<Longrightarrow> headlamp_config_ok (foldl (dropStale p desired) c cs)" for c cs
    by (induction cs arbitrary: c) (simp_all only: foldl_Nil foldl_Cons step)
  with assms show ?thesis by (simp add: removeStaleHeadlampEntries_def)
qed

lemma headlampEntry_ok:
  assumes "headlampEntry E p n ws cfg w = ((l, cfg'), w')" and "headlamp_config_ok cfg"
  shows "headlamp_config_ok cfg'"
  using assms write_entry_ok by (auto simp: headlampEntry_def split: if_splits prod.splits sum.splits)

lemma headlampEntries_ok:
  "headlampEntries E p al cfg w = ((l, cfg'), w') \<Longrightarrow> headlamp_config_ok cfg \<Longrightarrow> headlamp_config_ok cfg'"
proof (induction al arbitrary: cfg w l)
  case (Cons e al)
  obtain n x where e: "e = (n, x)" by fastforce
  obtain l1 cfg1 w1 where 1: "headlampEntry E p n x cfg w = ((l1, cfg1), w1)" by (metis prod.collapse)
  obtain l2 cfg2 w2 where 2: "headlampEntries E p al cfg1 w1 = ((l2, cfg2), w2)" by (metis prod.collapse)
  from Cons.prems(1) 1 2 e have "cfg' = cfg2" "w' = w2" by auto
  with Cons.IH 2 headlampEntry_ok [OF 1 Cons.prems(2)] show ?case by blast
qed simp

text \<open>What is in the Secret, after the first sync and before.\<close>

definition headlamp_typed :: "'w platform \<Rightarrow> provisioner \<Rightarrow> rest_config \<Rightarrow> cluster_view \<Rightarrow> bool" where
  "headlamp_typed E p k8s v \<longleftrightarrow>
     (case v_secrets v (headlampKey p k8s) of None \<Rightarrow> True | Some s \<Rightarrow> headlamp_config_ok (headlampConfig E s))"

lemma reloaded_ok:
  assumes "reloads E" "headlamp_config_ok c" "kc_write E c = Inr b" "gm_string (sec_data s) ''config'' = b"
  shows "headlamp_config_ok (headlampConfig E s)"
proof (cases "b = []")
  case True
  with assms(4) new_config_ok show ?thesis by (simp add: headlampConfig_def)
next
  case False
  have "wf_config c" using assms(2) by (simp add: headlamp_config_ok_def)
  with assms(1,3) obtain c' where c': "kc_load E b = Inr c'" "wf_config c'" "kc_current c' = kc_current c"
    "\<forall>n. entry c' n = entry c n" unfolding reloads_def by blast
  then have "headlamp_config_ok c'" using assms(2) by (simp add: headlamp_config_ok_def)
  with False assms(4) c'(1) show ?thesis by (simp add: headlampConfig_def)
qed

context api_server
begin

lemma headlampEntries_view:
  "headlampEntries E p al cfg w = ((l, cfg'), w') \<Longrightarrow> view w' = view w"
proof (induction al arbitrary: cfg w l)
  case (Cons e al)
  obtain n x where e: "e = (n, x)" by fastforce
  obtain l1 cfg1 w1 where 1: "headlampEntry E p n x cfg w = ((l1, cfg1), w1)" by (metis prod.collapse)
  obtain l2 cfg2 w2 where 2: "headlampEntries E p al cfg1 w1 = ((l2, cfg2), w2)" by (metis prod.collapse)
  from Cons.prems 1 2 e have "cfg' = cfg2" "w' = w2" by auto
  with Cons.IH 2 headlampEntry_run(1) [OF 1] show ?case by metis
qed simp

text \<open>Whatever fails, the Secret is as it was or has the new kubeconfig in it.\<close>

lemma store_any:
  assumes run: "storeHeadlamp E now p k8s s cfg w = (l, w')"
    and s: "v_secrets (view w) (headlampKey p k8s) = Some s"
  shows "v_secrets (view w') = v_secrets (view w) \<or>
    (\<exists>o2 data. kc_write E cfg = Inr data \<and> gm_string (sec_data o2) ''config'' = data \<and>
       v_secrets (view w') = (v_secrets (view w))(headlampKey p k8s \<mapsto> o2))"
proof (cases "kc_write E cfg")
  case (Inl e)
  with run show ?thesis by (auto simp: storeHeadlamp_def)
next
  case (Inr data)
  let ?s = "s\<lparr>sec_data := gm_put (sec_data s) ''config'' data\<rparr>"
  have nm: "sec_name ?s = pv_headlampSecret p" using s sec.named by (simp add: headlampKey_def)
  obtain r w1 where u: "rupdate (p_secrets E) k8s (pv_headlampNamespace p) ?s w = (r, w1)" by fastforce
  obtain r2 w2 where pt: "p_patchDeployment E k8s (pv_headlampNamespace p, pv_headlampDeployment p)
      (restartPatch now) w1 = (r2, w2)" by fastforce
  have "v_secrets (view w2) = v_secrets (view w1)" using patch_any [OF pt] by auto
  moreover from run Inr u pt have "w' = w1 \<or> w' = w2"
    by (auto simp: storeHeadlamp_def split: sum.splits)
  ultimately have v: "v_secrets (view w') = v_secrets (view w1)" by auto
  from update_secret_any [OF u nm] show ?thesis
  proof (elim disjE exE conjE)
    assume "view w1 = view w"
    with v show ?thesis by simp
  next
    fix o2
    assume o2: "sec_stored ?s o2"
      and w1: "view w1 = (view w)\<lparr>v_secrets := (v_secrets (view w))(headlampKey p k8s \<mapsto> o2)\<rparr>"
    have "gm_string (sec_data o2) ''config'' = data"
      using o2 by (auto simp: sec_stored_def dest: extends_put_string)
    moreover have "v_secrets (view w') = (v_secrets (view w))(headlampKey p k8s \<mapsto> o2)" using v w1 by simp
    ultimately show ?thesis using Inr by blast
  qed
qed

lemma sync_typed:
  assumes run: "syncHeadlamp E ro now p name add w = (l, w')" and k: "pv_k8s p = Some k8s"
    and ok: "reloads E" "headlamp_typed E p k8s (view w)"
  shows "headlamp_typed E p k8s (view w')"
proof -
  obtain g w1 where g: "rget (p_secrets E) k8s (pv_headlampNamespace p, pv_headlampSecret p) w = (g, w1)"
    by fastforce
  have v1: "view w1 = view w" by (rule sec.get_reads [OF g])
  show ?thesis
  proof (cases g)
    case (Inl e)
    with run k g v1 ok(2) show ?thesis by (simp add: syncHeadlamp_def)
  next
    case s: (Inr s)
    from sec.get_found [OF g [unfolded s]]
    have S: "v_secrets (view w) (headlampKey p k8s) = Some s" by (simp add: headlampKey_def)
    obtain r w2 where ls: "listConsumerWorkspaces E p w1 = (r, w2)" by fastforce
    have v2: "view w2 = view w" using keepsD [OF keeps_consumer_list ls] v1 by simp
    show ?thesis
    proof (cases r)
      case (Inl e)
      with run k g s ls v2 ok(2) show ?thesis by (simp add: syncHeadlamp_def)
    next
      case (Inr items)
      let ?d = "desiredWorkspaces items" and ?c = "headlampConfig E s"
      obtain d w3 where a: "adjustDesired E p name add ?d w2 = (d, w3)" by fastforce
      obtain l1 cfg' w4 where h: "headlampEntries E p (ro_workspaces ro d)
          (removeStaleHeadlampEntries ro p ?c ?d) w3 = ((l1, cfg'), w4)" by (metis prod.collapse)
      obtain l2 w5 where st: "storeHeadlamp E now p k8s s cfg' w4 = (l2, w5)" by fastforce
      from run k g s ls Inr a h st have w': "w' = w5" by (simp add: syncHeadlamp_def Let_def)
      have "keeps view (GetWorkspace E p name)"
        unfolding GetWorkspace_def by (intro keeps_intros server_reads)
      then have v3: "view w3 = view w"
        using a v2 by (auto simp: adjustDesired_def dest: keepsD split: if_splits prod.splits sum.splits)
      have v4: "view w4 = view w" using headlampEntries_view [OF h] v3 by simp
      have "headlamp_config_ok ?c" using ok(2) S by (simp add: headlamp_typed_def)
      from headlampEntries_ok [OF h removeStale_ok [OF this]] have cfg': "headlamp_config_ok cfg'" .
      from store_any [OF st, unfolded v4, OF S] show ?thesis
      proof (elim disjE exE conjE)
        assume "v_secrets (view w5) = v_secrets (view w)"
        with ok(2) w' show ?thesis by (simp add: headlamp_typed_def)
      next
        fix o2 data
        assume d: "kc_write E cfg' = Inr data" "gm_string (sec_data o2) ''config'' = data"
          and v: "v_secrets (view w5) = (v_secrets (view w))(headlampKey p k8s \<mapsto> o2)"
        from reloaded_ok [OF ok(1) cfg' d] v w' show ?thesis by (simp add: headlamp_typed_def)
      qed
    qed
  qed
qed

end

end
