(* ===== verification/Reference_Cluster.thy ===== *)
theory Reference_Cluster
  imports Kube_Api
begin

text \<open>
  An executable set of API servers that satisfies the laws of \<open>Kube_Api\<close>: in-memory stores, with a
  schedule of faults in which a request is refused or its answer is lost.  It interprets the
  locales and instantiates the platform parameter in the examples; it is not a model of kcp.
\<close>

section \<open>Stores with faults\<close>

type_synonym 'o table = "((string \<times> objkey) \<times> 'o) list"

datatype fault = NoFault | Refused | AnswerLost

record ref_world =
  rw_faults :: "fault list"
  rw_workspaces :: "workspace table"
  rw_logicalclusters :: "logical_cluster table"
  rw_bindings :: "api_binding table"
  rw_namespaces :: "namespace_obj table"
  rw_accounts :: "service_account table"
  rw_secrets :: "secret table"
  rw_crbs :: "cluster_role_binding table"
  rw_databases :: "(string \<times> string list) list"
  rw_patches :: "string table"

definition tick :: "ref_world \<Rightarrow> fault \<times> ref_world" where
  "tick w = (case rw_faults w of [] \<Rightarrow> (NoFault, w) | f # fs \<Rightarrow> (f, w\<lparr>rw_faults := fs\<rparr>))"

text \<open>Only well-keyed entries of a table count.\<close>

definition good :: "(objkey \<Rightarrow> 'o \<Rightarrow> bool) \<Rightarrow> 'o table \<Rightarrow> 'o table" where
  "good ok al = filter (\<lambda>(k, x). ok (snd k) x) al"

definition ref_get where
  "ref_get get ok c k w =
     (case tick w of (f, w1) \<Rightarrow>
        if f \<noteq> NoFault then (Inl (ApiFailure ''refused''), w1)
        else (case map_of (good ok (get w1)) (rc_host c, k) of
           None \<Rightarrow> (Inl NotFound, w1) | Some x \<Rightarrow> (Inr x, w1)))"

definition ref_list where
  "ref_list get ok c ns w =
     (case tick w of (f, w1) \<Rightarrow>
        if f \<noteq> NoFault then (Inl (ApiFailure ''refused''), w1)
        else (Inr (map snd (filter (\<lambda>((h, (ns', n)), x). h = rc_host c \<and> (ns = [] \<or> ns' = ns))
                (AList.clearjunk (good ok (get w1))))), w1))"

definition ref_write where
  "ref_write get upd ok name_of fill exists c ns x w =
     (case tick w of (f, w1) \<Rightarrow>
        let k = (rc_host c, (ns, name_of x)); there = (map_of (good ok (get w1)) k \<noteq> None) in
        if f = Refused \<or> \<not> ok (ns, name_of x) (fill x) then (Inl (ApiFailure ''refused''), w1)
        else if there \<noteq> exists then (Inl (if exists then NotFound else AlreadyExists), w1)
        else (if f = AnswerLost then Inl (ApiFailure ''timeout'') else Inr (fill x),
              upd ((k, fill x) # get w1) w1))"

definition ref_delete where
  "ref_delete get upd ok kill c k w =
     (case tick w of (f, w1) \<Rightarrow>
        if f = Refused then (Inl (ApiFailure ''refused''), w1)
        else (case map_of (good ok (get w1)) (rc_host c, k) of
           None \<Rightarrow> (Inl NotFound, w1)
         | Some x \<Rightarrow>
             (if f = AnswerLost then Inl (ApiFailure ''timeout'') else Inr (),
              upd ((case kill x of None \<Rightarrow> [] | Some y \<Rightarrow> [((rc_host c, k), y)]) @
                   filter (\<lambda>(k', _). k' \<noteq> (rc_host c, k)) (get w1)) w1)))"

definition ref_resource ::
  "(ref_world \<Rightarrow> 'o table) \<Rightarrow> ('o table \<Rightarrow> ref_world \<Rightarrow> ref_world) \<Rightarrow> (objkey \<Rightarrow> 'o \<Rightarrow> bool) \<Rightarrow>
   ('o \<Rightarrow> string) \<Rightarrow> ('o \<Rightarrow> 'o) \<Rightarrow> ('o \<Rightarrow> 'o option) \<Rightarrow> (ref_world, 'o) resource" where
  "ref_resource get upd ok name_of fill kill =
     \<lparr>rget = ref_get get ok, rlist = ref_list get ok,
      rcreate = ref_write get upd ok name_of fill False,
      rupdate = ref_write get upd ok name_of fill True,
      rdelete = ref_delete get upd ok kill\<rparr>"

lemma good_Cons [simp]: "good ok ((k, x) # al) = (if ok (snd k) x then (k, x) # good ok al else good ok al)"
  by (simp add: good_def)

lemma good_append [simp]: "good ok (al @ bl) = good ok al @ good ok bl"
  by (simp add: good_def)

lemma good_Nil [simp]: "good ok [] = []"
  by (simp add: good_def)

lemma map_of_good_filter:
  "map_of (good ok (filter (\<lambda>(k', _). k' \<noteq> k) al)) = (map_of (good ok al))(k := None)"
proof (induction al)
  case (Cons e al)
  then show ?case by (cases e) (auto simp: fun_eq_iff)
qed simp

lemma map_of_good: "map_of (good ok al) k = Some x \<Longrightarrow> ok (snd k) x"
  by (drule map_of_SomeD) (auto simp: good_def)

text \<open>The table after a delete, as a map.\<close>

lemma map_of_good_deleted:
  assumes "map_of (good ok al) k = Some x" and "\<And>y. kill x = Some y \<Longrightarrow> ok (snd k) y"
  shows "map_of (good ok ((case kill x of None \<Rightarrow> [] | Some y \<Rightarrow> [(k, y)]) @
      filter (\<lambda>(k', _). k' \<noteq> k) al)) = (map_of (good ok al))(k := kill x)"
  using assms by (cases "kill x") (simp_all add: map_of_good_filter)

lemma clearjunk_iff: "(k, x) \<in> set (AList.clearjunk al) \<longleftrightarrow> map_of al k = Some x"
  by (metis distinct_clearjunk map_of_clearjunk map_of_eq_Some_iff)

text \<open>One kind of the reference servers obeys the laws, given how its table sits in the world.\<close>

lemma ref_resource_laws:
  fixes get :: "ref_world \<Rightarrow> 'o table" and abs :: "ref_world \<Rightarrow> 'v"
  assumes sel: "\<And>w. sel (abs w) = map_of (good ok (get w))"
    and upd: "\<And>al w. abs (upd al w) = put (map_of (good ok al)) (abs w)"
    and sp: "\<And>m v. sel (put m v) = m"
    and tk: "\<And>f w w1. tick w = (f, w1) \<Longrightarrow> abs w1 = abs w"
    and nm: "\<And>ns n x. ok (ns, n) x \<Longrightarrow> name_of x = n"
    and st: "\<And>x. stored x (fill x)"
    and kl: "\<And>k x y. ok k x \<Longrightarrow> kill x = Some y \<Longrightarrow> dying x y \<and> ok k y"
  shows "resource_laws (ref_resource get upd ok name_of fill kill) abs sel put name_of stored dying"
proof (standard, goal_cases)
  case 1 show ?case by (rule sp)
next
  case (2 w h ns n x)
  then show ?case using map_of_good nm by (metis sel snd_conv)
next
  case (3 c k w r w')
  then show ?case
    by (auto simp: ref_resource_def ref_get_def dest: tk split: prod.splits if_splits option.splits)
next
  case (4 c k w x w')
  then show ?case
    by (auto simp: ref_resource_def ref_get_def sel dest!: tk split: prod.splits if_splits option.splits)
      (metis sel)
next
  case (5 c k w w')
  then show ?case
    by (auto simp: ref_resource_def ref_get_def sel dest!: tk split: prod.splits if_splits option.splits)
      (metis sel)
next
  case (6 c ns w l w')
  then show ?case
    by (auto simp: ref_resource_def ref_list_def dest: tk split: prod.splits if_splits)
next
  case (7 c ns w os w' x)
  then obtain w1 ns' n where t: "tick w = (NoFault, w1)"
    and "((rc_host c, (ns', n)), x) \<in> set (AList.clearjunk (good ok (get w1)))"
    and ns: "ns = [] \<or> ns' = ns"
    by (auto simp: ref_resource_def ref_list_def split: prod.splits if_splits)
  then have "map_of (good ok (get w1)) (rc_host c, (ns', n)) = Some x"
    by (simp add: clearjunk_iff)
  moreover from this have "name_of x = n" using map_of_good nm by (metis snd_conv)
  moreover have "map_of (good ok (get w1)) = sel (abs w)"
    using tk [OF t] sel by metis
  ultimately show ?case using ns by auto
next
  case (8 c ns w os w' ns' n x)
  then obtain w1 where t: "tick w = (NoFault, w1)"
    and os: "os = map snd (filter (\<lambda>((h, (ns', n)), x). h = rc_host c \<and> (ns = [] \<or> ns' = ns))
                (AList.clearjunk (good ok (get w1))))"
    by (auto simp: ref_resource_def ref_list_def split: prod.splits if_splits)
  have "map_of (good ok (get w1)) = sel (abs w)" using tk [OF t] sel by metis
  then have "((rc_host c, (ns', n)), x) \<in> set (AList.clearjunk (good ok (get w1)))"
    using 8(3) by (simp add: clearjunk_iff)
  then show ?case using 8(2) by (force simp: os)
next
  case (9 c ns x w y w')
  then obtain f w1 where t: "tick w = (f, w1)" by fastforce
  have "map_of (good ok (get w1)) = sel (abs w)" using tk [OF t] sel by metis
  with 9 show ?case
    using t tk [OF t] by (auto simp: ref_resource_def ref_write_def Let_def upd st split: if_splits)
next
  case (10 c ns x w w')
  then obtain f w1 where t: "tick w = (f, w1)" by fastforce
  have "map_of (good ok (get w1)) = sel (abs w)" using tk [OF t] sel by metis
  with 10 show ?case
    using t tk [OF t] by (auto simp: ref_resource_def ref_write_def Let_def upd st split: if_splits)
next
  case (11 c ns x w e w')
  then obtain f w1 where t: "tick w = (f, w1)" by fastforce
  have "map_of (good ok (get w1)) = sel (abs w)" using tk [OF t] sel by metis
  with 11 show ?case
    using t tk [OF t] st [of x]
    by (auto simp: ref_resource_def ref_write_def Let_def upd split: if_splits)
next
  case (12 c ns x w y w')
  then obtain f w1 where t: "tick w = (f, w1)" by fastforce
  have "map_of (good ok (get w1)) = sel (abs w)" using tk [OF t] sel by metis
  with 12 show ?case
    using t tk [OF t] by (auto simp: ref_resource_def ref_write_def Let_def upd st split: if_splits)
next
  case (13 c ns x w e w')
  then obtain f w1 where t: "tick w = (f, w1)" by fastforce
  have "map_of (good ok (get w1)) = sel (abs w)" using tk [OF t] sel by metis
  with 13 show ?case
    using t tk [OF t] st [of x]
    by (auto simp: ref_resource_def ref_write_def Let_def upd split: if_splits)
next
  case (14 c k w u w')
  then obtain f w1 where t: "tick w = (f, w1)" by fastforce
  have m: "map_of (good ok (get w1)) = sel (abs w)" using tk [OF t] sel by metis
  have "abs (upd ((case kill x of None \<Rightarrow> [] | Some y \<Rightarrow> [((rc_host c, k), y)]) @
          filter (\<lambda>(k', _). k' \<noteq> (rc_host c, k)) (get w1)) w1) =
      put ((sel (abs w))((rc_host c, k) := kill x)) (abs w) \<and>
      (case kill x of None \<Rightarrow> True | Some y \<Rightarrow> dying x y)"
    if "sel (abs w) (rc_host c, k) = Some x" for x
  proof -
    have x: "map_of (good ok (get w1)) (rc_host c, k) = Some x" using that m by simp
    from map_of_good [OF x] have "ok k x" by simp
    with kl have "\<And>y. kill x = Some y \<Longrightarrow> dying x y \<and> ok k y" by blast
    then show ?thesis
      using map_of_good_deleted [OF x, of kill] tk [OF t] by (simp add: upd m split: option.split)
  qed
  with 14 t tk [OF t] m show ?case
    by (auto simp: ref_resource_def ref_delete_def split: if_splits option.splits)
next
  case (15 c k w w')
  then obtain f w1 where t: "tick w = (f, w1)" by fastforce
  have "map_of (good ok (get w1)) = sel (abs w)" using tk [OF t] sel by metis
  with 15 show ?case
    using t tk [OF t] by (auto simp: ref_resource_def ref_delete_def split: if_splits option.splits)
next
  case (16 c k w e w')
  then obtain f w1 where t: "tick w = (f, w1)" by fastforce
  have m: "map_of (good ok (get w1)) = sel (abs w)" using tk [OF t] sel by metis
  have "abs (upd ((case kill x of None \<Rightarrow> [] | Some y \<Rightarrow> [((rc_host c, k), y)]) @
          filter (\<lambda>(k', _). k' \<noteq> (rc_host c, k)) (get w1)) w1) =
      put ((sel (abs w))((rc_host c, k) := kill x)) (abs w) \<and>
      (case kill x of None \<Rightarrow> True | Some y \<Rightarrow> dying x y)"
    if "sel (abs w) (rc_host c, k) = Some x" for x
  proof -
    have x: "map_of (good ok (get w1)) (rc_host c, k) = Some x" using that m by simp
    from map_of_good [OF x] have "ok k x" by simp
    with kl have "\<And>y. kill x = Some y \<Longrightarrow> dying x y \<and> ok k y" by blast
    then show ?thesis
      using map_of_good_deleted [OF x, of kill] tk [OF t] by (simp add: upd m split: option.split)
  qed
  with 16 t tk [OF t] m show ?case
    by (auto simp: ref_resource_def ref_delete_def split: if_splits option.splits)
qed

section \<open>A text format for kubeconfigs\<close>

text \<open>
  The reference \<open>clientcmd.Write\<close> and \<open>Load\<close>: a kubeconfig as rows of fields, each field with its
  bytes marked and ended.  Loading what was written gives it back.
\<close>

fun enc_field :: "string \<Rightarrow> string" where
  "enc_field [] = [CHR 0x00]"
| "enc_field (c # s) = CHR 0x01 # c # enc_field s"

fun dec_field :: "string \<Rightarrow> (string \<times> string) option" where
  "dec_field [] = None"
| "dec_field [x] = (if x = CHR 0x00 then Some ([], []) else None)"
| "dec_field (x # c # r) =
     (if x = CHR 0x00 then Some ([], c # r)
      else (case dec_field r of None \<Rightarrow> None | Some (s, t) \<Rightarrow> Some (c # s, t)))"

lemma dec_enc_field: "dec_field (enc_field s @ t) = Some (s, t)"
proof (induction s)
  case Nil
  show ?case by (cases t) auto
qed simp

text \<open>A row is a list of fields; \<open>fuel\<close> bounds the number of fields and rows read.\<close>

definition enc_row :: "string list \<Rightarrow> string" where
  "enc_row fs = concat (map (\<lambda>f. CHR 0x01 # enc_field f) fs) @ [CHR 0x00]"

fun dec_row :: "nat \<Rightarrow> string \<Rightarrow> (string list \<times> string) option" where
  "dec_row 0 s = None"
| "dec_row (Suc n) s =
     (case s of [] \<Rightarrow> None
      | x # r \<Rightarrow>
          if x = CHR 0x00 then Some ([], r)
          else (case dec_field r of None \<Rightarrow> None
             | Some (f, r') \<Rightarrow> map_option (\<lambda>(fs, t). (f # fs, t)) (dec_row n r')))"

lemma dec_enc_row: "length fs < n \<Longrightarrow> dec_row n (enc_row fs @ t) = Some (fs, t)"
proof (induction fs arbitrary: n)
  case Nil
  then show ?case by (cases n) (auto simp: enc_row_def)
next
  case (Cons f fs)
  then obtain m where "n = Suc m" "length fs < m" by (cases n) auto
  with Cons.IH [of m] show ?case by (simp add: enc_row_def dec_enc_field)
qed

declare dec_row.simps [simp del]

fun dec_rows :: "nat \<Rightarrow> string \<Rightarrow> string list list option" where
  "dec_rows 0 s = None"
| "dec_rows (Suc n) s =
     (if s = [] then Some []
      else (case dec_row (Suc (length s)) s of None \<Rightarrow> None
         | Some (fs, t) \<Rightarrow> map_option ((#) fs) (dec_rows n t)))"

lemma length_enc_row: "length fs \<le> length (enc_row fs)"
  by (induction fs) (auto simp: enc_row_def)

lemma dec_enc_rows: "length rows < n \<Longrightarrow> dec_rows n (concat (map enc_row rows)) = Some rows"
proof (induction rows arbitrary: n)
  case (Cons r rows)
  then obtain m where "n = Suc m" "length rows < m" by (cases n) auto
  moreover have "enc_row r @ concat (map enc_row rows) \<noteq> []" by (simp add: enc_row_def)
  moreover have "length r < Suc (length (enc_row r @ concat (map enc_row rows)))"
    using length_enc_row [of r] by simp
  ultimately show ?case
    using Cons.IH [of m] dec_enc_row [of r _ "concat (map enc_row rows)"] by simp
next
  case Nil
  then show ?case by (cases n) auto
qed

fun enc_cluster :: "string \<times> kc_cluster \<Rightarrow> string list" where
  "enc_cluster (n, x) =
     [''c'', n, kcl_server x, (if kcl_insecure x then ''t'' else []), kcl_caData x]"

fun enc_auth :: "string \<times> auth_info \<Rightarrow> string list" where
  "enc_auth (n, x) =
     [''a'', n, au_token x, au_certData x, au_keyData x, au_certFile x, au_keyFile x]"

fun enc_context :: "string \<times> kc_context \<Rightarrow> string list" where
  "enc_context (n, x) = [''x'', n, kcx_cluster x, kcx_authInfo x]"

definition rows_of :: "kube_config \<Rightarrow> string list list" where
  "rows_of c = map enc_cluster (kc_clusters c) @ map enc_auth (kc_authInfos c) @
     map enc_context (kc_contexts c) @ [[''r'', kc_current c]]"

fun cluster_row :: "string list \<Rightarrow> (string \<times> kc_cluster) list" where
  "cluster_row [tag, n, s, i, ca] =
     (if tag = ''c'' then [(n, \<lparr>kcl_server = s, kcl_insecure = (i \<noteq> []), kcl_caData = ca\<rparr>)] else [])"
| "cluster_row _ = []"

fun auth_row :: "string list \<Rightarrow> (string \<times> auth_info) list" where
  "auth_row [tag, n, t, cd, kd, cf, kf] =
     (if tag = ''a'' then [(n, \<lparr>au_token = t, au_certData = cd, au_keyData = kd,
        au_certFile = cf, au_keyFile = kf\<rparr>)] else [])"
| "auth_row _ = []"

fun context_row :: "string list \<Rightarrow> (string \<times> kc_context) list" where
  "context_row [tag, n, c, a] =
     (if tag = ''x'' then [(n, \<lparr>kcx_cluster = c, kcx_authInfo = a\<rparr>)] else [])"
| "context_row _ = []"

fun current_row :: "string list \<Rightarrow> string list" where
  "current_row [tag, c] = (if tag = ''r'' then [c] else [])"
| "current_row _ = []"

definition of_rows :: "string list list \<Rightarrow> kube_config" where
  "of_rows rs =
     \<lparr>kc_clusters = concat (map cluster_row rs), kc_authInfos = concat (map auth_row rs),
      kc_contexts = concat (map context_row rs), kc_current = concat (concat (map current_row rs))\<rparr>"

lemma concat_singles: "(\<And>x. x \<in> set xs \<Longrightarrow> f x = [x]) \<Longrightarrow> concat (map f xs) = xs"
  by (induction xs) auto

lemma concat_none [simp]: "concat (map (\<lambda>x. []) xs) = []"
  by (induction xs) auto

lemma decoded_rows [simp]:
  "cluster_row (enc_cluster a) = [a]" "cluster_row (enc_auth b) = []" "cluster_row (enc_context d) = []"
  "auth_row (enc_cluster a) = []" "auth_row (enc_auth b) = [b]" "auth_row (enc_context d) = []"
  "context_row (enc_cluster a) = []" "context_row (enc_auth b) = []"
  "context_row (enc_context d) = [d]"
  "current_row (enc_cluster a) = []" "current_row (enc_auth b) = []" "current_row (enc_context d) = []"
  by (cases a; cases b; cases d; simp)+

lemma of_rows_of: "of_rows (rows_of c) = c"
  by (cases c) (simp add: of_rows_def rows_of_def o_def concat_singles)

definition ref_write_config :: "kube_config \<Rightarrow> go_error + string" where
  "ref_write_config c = Inr (concat (map enc_row (rows_of c)))"

definition ref_load_config :: "string \<Rightarrow> go_error + kube_config" where
  "ref_load_config s =
     (case dec_rows (Suc (length s)) s of
        None \<Rightarrow> Inl (errorf ''malformed kubeconfig'' []) | Some rs \<Rightarrow> Inr (of_rows rs))"

lemma length_concat_rows: "length rs \<le> length (concat (map enc_row rs))"
  by (induction rs) (auto simp: enc_row_def)

lemma ref_load_write: "ref_write_config c = Inr s \<Longrightarrow> ref_load_config s = Inr c"
  using dec_enc_rows [of "rows_of c" "Suc (length (concat (map enc_row (rows_of c))))"]
    length_concat_rows [of "rows_of c"]
  by (auto simp: ref_write_config_def ref_load_config_def of_rows_of simp del: dec_rows.simps)

section \<open>The reference platform\<close>

definition serverAnnotation :: string where
  "serverAnnotation = ''internal.tenancy.kcp.io/cluster''"

text \<open>What the reference kcp fills in: cluster, URL, phase and its own annotation.\<close>

definition fill_workspace :: "workspace \<Rightarrow> workspace" where
  "fill_workspace x =
     x\<lparr>ws_annotations :=
         (if gm_get (ws_annotations x) serverAnnotation = None
          then gm_put (ws_annotations x) serverAnnotation (''c-'' @ ws_name x)
          else ws_annotations x),
       ws_cluster := (if ws_cluster x = [] then ''c-'' @ ws_name x else ws_cluster x),
       ws_url := (if ws_url x = [] then ''https://kcp:6443/clusters/root:consumers:'' @ ws_name x
                  else ws_url x),
       ws_phase := (if ws_phase x = [] then ''Ready'' else ws_phase x)\<rparr>"

definition kill_workspace :: "workspace \<Rightarrow> workspace option" where
  "kill_workspace x =
     (if ws_phase x = ''Ready'' then Some (x\<lparr>ws_deletion := Some (At 1)\<rparr>) else None)"

definition saTokenType :: string where
  "saTokenType = ''kubernetes.io/service-account-token''"

definition fill_secret :: "secret \<Rightarrow> secret" where
  "fill_secret x =
     (if sec_type x = saTokenType \<and> gm_get (sec_data x) ''token'' = None
      then x\<lparr>sec_data := gm_put (sec_data x) ''token'' (''token-of-'' @ sec_name x)\<rparr> else x)"

definition scoped_key :: "('o \<Rightarrow> string) \<Rightarrow> objkey \<Rightarrow> 'o \<Rightarrow> bool" where
  "scoped_key name_of k x = (k = ([], name_of x))"

definition named_key :: "('o \<Rightarrow> string) \<Rightarrow> objkey \<Rightarrow> 'o \<Rightarrow> bool" where
  "named_key name_of k x = (snd k = name_of x)"

definition ref_list_databases where
  "ref_list_databases c (g :: string \<times> string \<times> string) (ns :: string) w =
     (case tick w of (f, w1) \<Rightarrow>
        if f \<noteq> NoFault then (Inl (ApiFailure ''refused''), w1)
        else (Inr (case map_of (rw_databases w1) (rc_host c) of None \<Rightarrow> [] | Some l \<Rightarrow> l), w1))"

definition ref_patch where
  "ref_patch c (k :: objkey) b w =
     (case tick w of (f, w1) \<Rightarrow>
        if f = Refused then (Inl (ApiFailure ''refused''), w1)
        else (if f = AnswerLost then Inl (ApiFailure ''timeout'') else Inr (),
              w1\<lparr>rw_patches := ((rc_host c, k), b) # rw_patches w1\<rparr>))"

definition ref_platform :: "ref_world platform" where
  "ref_platform =
     \<lparr>c_saNameKey = ''kubernetes.io/service-account.name'', c_saTokenType = saTokenType,
      c_rbacGroup = ''rbac.authorization.k8s.io'', c_saKind = ''ServiceAccount'',
      c_contentDeleted = ''WorkspaceContentDeleted'', c_lcName = ''cluster'',
      c_claimAccepted = ''Accepted'',
      kcp_new = (\<lambda>_. None), kube_new = (\<lambda>_. None), dyn_new = (\<lambda>_. None),
      kc_load = ref_load_config, kc_write = ref_write_config,
      p_workspaces = ref_resource rw_workspaces (\<lambda>t. rw_workspaces_update (\<lambda>_. t))
        (scoped_key ws_name) ws_name fill_workspace kill_workspace,
      p_logicalclusters = ref_resource rw_logicalclusters (\<lambda>t. rw_logicalclusters_update (\<lambda>_. t))
        (scoped_key lc_name) lc_name (\<lambda>x. x) (\<lambda>_. None),
      p_bindings = ref_resource rw_bindings (\<lambda>t. rw_bindings_update (\<lambda>_. t))
        (scoped_key ab_name) ab_name (\<lambda>x. x) (\<lambda>_. None),
      p_namespaces = ref_resource rw_namespaces (\<lambda>t. rw_namespaces_update (\<lambda>_. t))
        (scoped_key ns_name) ns_name (\<lambda>x. x) (\<lambda>_. None),
      p_accounts = ref_resource rw_accounts (\<lambda>t. rw_accounts_update (\<lambda>_. t))
        (named_key sa_name) sa_name (\<lambda>x. x) (\<lambda>_. None),
      p_secrets = ref_resource rw_secrets (\<lambda>t. rw_secrets_update (\<lambda>_. t))
        (named_key sec_name) sec_name fill_secret (\<lambda>_. None),
      p_crbs = ref_resource rw_crbs (\<lambda>t. rw_crbs_update (\<lambda>_. t))
        (scoped_key crb_name) crb_name (\<lambda>x. x) (\<lambda>_. None),
      p_listDatabases = ref_list_databases, p_patchDeployment = ref_patch\<rparr>"

definition ref_view :: "ref_world \<Rightarrow> cluster_view" where
  "ref_view w =
     \<lparr>v_workspaces = map_of (good (scoped_key ws_name) (rw_workspaces w)),
      v_logicalclusters = map_of (good (scoped_key lc_name) (rw_logicalclusters w)),
      v_bindings = map_of (good (scoped_key ab_name) (rw_bindings w)),
      v_namespaces = map_of (good (scoped_key ns_name) (rw_namespaces w)),
      v_accounts = map_of (good (named_key sa_name) (rw_accounts w)),
      v_secrets = map_of (good (named_key sec_name) (rw_secrets w)),
      v_crbs = map_of (good (scoped_key crb_name) (rw_crbs w)),
      v_patches = map_of (rw_patches w)\<rparr>"

lemma tick_view: "tick w = (f, w1) \<Longrightarrow> ref_view w1 = ref_view w"
  by (auto simp: tick_def ref_view_def split: list.splits)

lemma tick_rest: "tick w = (f, w1) \<Longrightarrow> \<exists>fs. w1 = w\<lparr>rw_faults := fs\<rparr>"
  by (cases "rw_faults w") (auto simp: tick_def intro: exI [of _ "[]"])

lemma fill_workspace_stored: "ws_stored x (fill_workspace x)"
  by (auto simp: ws_stored_def fill_workspace_def extends_def server_key_def serverAnnotation_def)

lemma fill_secret_stored: "sec_stored x (fill_secret x)"
  by (auto simp: sec_stored_def fill_secret_def extends_def)

interpretation ref: api_server ref_platform ref_view
proof (intro api_server.intro api_server_axioms.intro, goal_cases)
  case 1
  show ?case unfolding ref_platform_def platform.select_convs
    by (rule ref_resource_laws)
      (auto dest!: tick_rest simp: ref_view_def scoped_key_def fill_workspace_stored kill_workspace_def
        ws_dying_def split: if_splits)
next
  case 2
  show ?case unfolding ref_platform_def platform.select_convs
    by (rule ref_resource_laws) (auto dest!: tick_rest simp: ref_view_def scoped_key_def)
next
  case 3
  show ?case unfolding ref_platform_def platform.select_convs
    by (rule ref_resource_laws) (auto dest!: tick_rest simp: ref_view_def scoped_key_def ab_stored_def)
next
  case 4
  show ?case unfolding ref_platform_def platform.select_convs
    by (rule ref_resource_laws) (auto dest!: tick_rest simp: ref_view_def scoped_key_def)
next
  case 5
  show ?case unfolding ref_platform_def platform.select_convs
    by (rule ref_resource_laws) (auto dest!: tick_rest simp: ref_view_def named_key_def)
next
  case 6
  show ?case unfolding ref_platform_def platform.select_convs
    by (rule ref_resource_laws) (auto dest!: tick_rest simp: ref_view_def named_key_def fill_secret_stored)
next
  case 7
  show ?case unfolding ref_platform_def platform.select_convs
    by (rule ref_resource_laws) (auto dest!: tick_rest simp: ref_view_def scoped_key_def)
next
  case (8 w h ns n x)
  then show ?case by (auto dest!: tick_rest simp: ref_view_def scoped_key_def dest!: map_of_good)
next
  case (9 c g ns w r w')
  then show ?case
    by (auto simp: ref_platform_def ref_list_databases_def dest: tick_view split: prod.splits if_splits)
next
  case (10 c k b w u w')
  then show ?case
    by (auto simp: ref_platform_def ref_patch_def dest!: tick_view split: prod.splits if_splits)
      (auto simp: ref_view_def)
next
  case (11 c k b w e w')
  then show ?case
    by (auto simp: ref_platform_def ref_patch_def dest!: tick_view split: prod.splits if_splits)
      (auto simp: ref_view_def)
qed

end
