(* ===== verification/Prov_Properties.thy ===== *)
theory Prov_Properties
  imports Prov_Typing Prov_System Reference_Cluster
begin

text \<open>
  The properties of the provisioner, over every platform and view that satisfy the laws of
  \<open>api_server\<close>, each with an application to the reference cluster.
\<close>

section \<open>A concrete installation\<close>

definition exAdmin :: rest_config where
  "exAdmin = \<lparr>rc_host = ''https://kcp'', rc_bearerToken = ''adm'', rc_certData = [],
     rc_keyData = [], rc_caData = ''CA'', rc_certFile = [], rc_keyFile = [], rc_insecure = False\<rparr>"

definition exProvisioner :: provisioner where
  "exProvisioner = \<lparr>pv_admin = exAdmin, pv_provider = ''root:prov'',
     pv_bindings = [\<lparr>wb_name = ''db'', wb_exportName = ''kro.run'', wb_claims = []\<rparr>],
     pv_consumers = ''root:con'', pv_k8s = Some (exAdmin\<lparr>rc_host := ''https://k8s''\<rparr>),
     pv_headlampNamespace = ''hl'', pv_headlampSecret = ''cfg'', pv_headlampDeployment = ''hl''\<rparr>"

definition emptyWorld :: ref_world where
  "emptyWorld = \<lparr>rw_faults = [], rw_workspaces = [], rw_logicalclusters = [], rw_bindings = [],
     rw_namespaces = [], rw_accounts = [], rw_secrets = [], rw_crbs = [], rw_databases = [],
     rw_patches = []\<rparr>"

definition exOrders :: range_orders where
  "exOrders = \<lparr>ro_clusters = rev, ro_workspaces = rev\<rparr>"

text \<open>One workspace \<open>al\<close>: created, then set up.\<close>

definition createdWorld :: ref_world where
  "createdWorld = snd (ProvisionWorkspace ref_platform exProvisioner ''al'' emptyWorld)"

definition readyWorld :: ref_world where
  "readyWorld = snd (EnsureWorkspaceSetup ref_platform exProvisioner ''al'' createdWorld)"

lemma created_run:
  "ProvisionWorkspace ref_platform exProvisioner ''al'' emptyWorld = (Inr (), createdWorld)"
proof -
  have "fst (ProvisionWorkspace ref_platform exProvisioner ''al'' emptyWorld) = Inr ()" by code_simp
  then show ?thesis by (simp add: createdWorld_def prod_eq_iff)
qed

lemma ready_run:
  "EnsureWorkspaceSetup ref_platform exProvisioner ''al'' createdWorld =
     (Inr [SyncHeadlamp ''al'' True], readyWorld)"
proof -
  have "fst (EnsureWorkspaceSetup ref_platform exProvisioner ''al'' createdWorld) =
      Inr [SyncHeadlamp ''al'' True]" by code_simp
  then show ?thesis by (simp add: readyWorld_def prod_eq_iff)
qed

lemma empty_inv: "scoped_inv ref_platform exProvisioner (ref_view emptyWorld)"
  by (simp add: scoped_inv_def is_scoped_def ref_view_def emptyWorld_def)

lemma exOrders_ok: "orders_ok exOrders"
  by (simp add: orders_ok_def exOrders_def)

lemma scoped_mark_inv: "scoped_inv ref_platform exProvisioner (ref_view readyWorld)"
  by (rule api_server.setup_inv [OF ref.api_server_axioms ready_run])
    (rule api_server.provision_inv [OF ref.api_server_axioms created_run empty_inv])

lemma setup_completes_ready: "setup_done ref_platform exProvisioner (ref_view readyWorld) ''al''"
  by (rule api_server.setup_ok(1) [OF ref.api_server_axioms ready_run])

section \<open>Setting a workspace up\<close>



text \<open>
  C2: a setup that returns without an error leaves the workspace set up: every configured
  APIBinding exists, the scoped credentials are ready, the workspace is marked, and one Headlamp
  sync for it has been started.
\<close>

theorem setup_completes:
  assumes "api_server E view" and "EnsureWorkspaceSetup E p name w = (Inr ts, w')"
  shows "setup_done E p (view w') name \<and> ts = [SyncHeadlamp name True]"
  using api_server.setup_ok [OF assms] by blast

theorem setup_completes_witness:
  "setup_done ref_platform exProvisioner (ref_view readyWorld) ''al''"
  using setup_completes [OF ref.api_server_axioms ready_run] by blast

text \<open>
  C15: a setup, successful or not, takes nothing away: bindings, ready credentials and marks that
  were there before it, of this and of every other workspace, are there after it; and a setup of a
  workspace that is already set up changes nothing but the stored copy of its marked workspace.
\<close>

theorem setup_is_monotone_and_idempotent:
  assumes "api_server E view" and "EnsureWorkspaceSetup E p name w = (r, w')"
  shows "keeps_setup E p (view w) (view w') \<and>
    (setup_done E p (view w) name \<longrightarrow> mark_frame (workspaceKey p name) (view w) (view w'))"
  using api_server.setup_keeps [OF assms] api_server.setup_again [OF assms] by blast

theorem setup_is_monotone_and_idempotent_witness:
  "keeps_setup ref_platform exProvisioner (ref_view createdWorld) (ref_view readyWorld)"
  using setup_is_monotone_and_idempotent [OF ref.api_server_axioms ready_run] by blast

text \<open>
  C13: the credential setup may run any number of times.  No run touches anything but the four
  objects of its own workspace, and after one success no further run changes anything.
\<close>

theorem credentials_converge:
  assumes "api_server E view"
  shows "credentials_frame (workspace_host p path) (view w)
      (view (runs n (ensureScopedWorkspaceCredentials E p path) w)) \<and>
    (fst (ensureScopedWorkspaceCredentials E p path w) = Inr () \<longrightarrow>
      credentials_ready E (view (snd (ensureScopedWorkspaceCredentials E p path w))) (workspace_host p path) \<and>
      view (runs n (ensureScopedWorkspaceCredentials E p path)
          (snd (ensureScopedWorkspaceCredentials E p path w))) =
        view (snd (ensureScopedWorkspaceCredentials E p path w)))"
  by (rule api_server.credentials_settle [OF assms])

theorem credentials_converge_witness:
  "credentials_ready ref_platform
     (ref_view (snd (ensureScopedWorkspaceCredentials ref_platform exProvisioner ''root:con:al'' emptyWorld)))
     (workspace_host exProvisioner ''root:con:al'')"
proof -
  have "fst (ensureScopedWorkspaceCredentials ref_platform exProvisioner ''root:con:al'' emptyWorld) = Inr ()"
    by code_simp
  with credentials_converge [OF ref.api_server_axioms, of exProvisioner "''root:con:al''" emptyWorld 1]
  show ?thesis by blast
qed

text \<open>
  C14: the APIBindings of a workspace, likewise: existing bindings are never changed, only
  configured ones are created, as configured, and after one success further runs change nothing.
\<close>

theorem bindings_converge:
  assumes "api_server E view"
  shows "bindings_frame p (rc_host c) (view w) (view (runs n (ensureWorkspaceBindings E p c) w)) \<and>
    (fst (ensureWorkspaceBindings E p c w) = Inr () \<longrightarrow>
      (\<forall>b \<in> set (pv_bindings p).
         has_binding (view (snd (ensureWorkspaceBindings E p c w))) (rc_host c) (wb_name b)) \<and>
      view (runs n (ensureWorkspaceBindings E p c) (snd (ensureWorkspaceBindings E p c w))) =
        view (snd (ensureWorkspaceBindings E p c w)))"
  by (rule api_server.bindings_settle [OF assms])

theorem bindings_converge_witness:
  "has_binding (ref_view (snd (ensureWorkspaceBindings ref_platform exProvisioner exAdmin emptyWorld)))
     ''https://kcp'' ''db''"
proof -
  have "fst (ensureWorkspaceBindings ref_platform exProvisioner exAdmin emptyWorld) = Inr ()"
    by code_simp
  with bindings_converge [OF ref.api_server_axioms, of exProvisioner exAdmin emptyWorld 1]
  show ?thesis by (simp add: exProvisioner_def exAdmin_def)
qed

text \<open>
  C12: the periodic reconcile serves every workspace that is not terminating and not in a transient
  phase, whatever becomes of the others: each ends in a started Headlamp sync or in a log entry,
  and each one whose setup succeeded is still set up when the loop ends.
\<close>

theorem reconcile_serves_all:
  assumes "api_server E view" and "reconcileEach E p wss w = ((l, ts), w')"
  shows "length l + length ts = length (filter eligible wss) \<and>
    set (map (\<lambda>e. hd (fst (snd e))) l) \<union> set (map served ts) = set (map ws_name (filter eligible wss)) \<and>
    (\<forall>n. SyncHeadlamp n True \<in> set ts \<longrightarrow> setup_done E p (view w') n)"
  using reconcile_serves [OF assms(2)] api_server.reconcileEach_done [OF assms] by blast

theorem reconcile_serves_all_witness:
  "\<exists>w' ts. ReconcileWorkspaceBindings ref_platform exProvisioner createdWorld = (([], ts), w') \<and>
     setup_done ref_platform exProvisioner (ref_view w') ''al''"
proof -
  define wss where "wss = (case listConsumerWorkspaces ref_platform exProvisioner createdWorld of
      (Inr l, _) \<Rightarrow> l | _ \<Rightarrow> [])"
  define w1 where "w1 = snd (listConsumerWorkspaces ref_platform exProvisioner createdWorld)"
  define r where "r = reconcileEach ref_platform exProvisioner wss w1"
  have f: "fst r = ([], [SyncHeadlamp ''al'' True])"
    unfolding r_def wss_def w1_def by code_simp
  have l: "listConsumerWorkspaces ref_platform exProvisioner createdWorld = (Inr wss, w1)"
  proof -
    have "case fst (listConsumerWorkspaces ref_platform exProvisioner createdWorld) of
        Inl _ \<Rightarrow> False | Inr _ \<Rightarrow> True" by code_simp
    then show ?thesis by (auto simp: wss_def w1_def prod_eq_iff split: prod.split sum.splits)
  qed
  have e: "reconcileEach ref_platform exProvisioner wss w1 = (([], [SyncHeadlamp ''al'' True]), snd r)"
    using f by (simp add: r_def [symmetric] prod_eq_iff)
  then have "ReconcileWorkspaceBindings ref_platform exProvisioner createdWorld =
      (([], [SyncHeadlamp ''al'' True]), snd r)"
    by (simp add: ReconcileWorkspaceBindings_def l)
  moreover have "setup_done ref_platform exProvisioner (ref_view (snd r)) ''al''"
    using reconcile_serves_all [OF ref.api_server_axioms e] by simp
  ultimately show ?thesis by blast
qed

section \<open>Creating, deleting and listing\<close>

text \<open>
  C32: creating a workspace succeeds only if the workspace is there afterwards, and on every path it
  changes at most that one object, from absent to a new, unmarked workspace.
\<close>

theorem provision_effect:
  assumes "api_server E view" and "ProvisionWorkspace E p name w = (r, w')"
  shows "(r = Inr () \<longrightarrow> v_workspaces (view w') (workspaceKey p name) \<noteq> None) \<and>
    (view w' = view w \<or> v_workspaces (view w) (workspaceKey p name) = None \<and>
      (\<exists>o2. ws_stored (newWorkspace name) o2 \<and> workspaceCredentialMode o2 = CredentialsAdmin \<and>
        view w' = (view w)\<lparr>v_workspaces := (v_workspaces (view w))(workspaceKey p name \<mapsto> o2)\<rparr>))"
  using api_server.provision_any [OF assms] api_server.provision_ok [OF assms(1)] assms(2) new_not_scoped
  by blast

theorem provision_effect_witness:
  "v_workspaces (ref_view createdWorld) (workspaceKey exProvisioner ''al'') \<noteq> None"
  using provision_effect [OF ref.api_server_axioms created_run] by blast

text \<open>
  C33: deleting a workspace removes at most that one object or marks it as terminating; no
  credentials, bindings or other workspaces change, and a terminating workspace keeps its mode.
\<close>

theorem delete_effect:
  assumes "api_server E view" and "DeleteWorkspace E p name w = (r, w')"
  shows "view w' = view w \<or> (\<exists>x. (\<forall>o2. x = Some o2 \<longrightarrow>
      (\<exists>o1. v_workspaces (view w) (workspaceKey p name) = Some o1 \<and> ws_dying o1 o2 \<and>
        workspaceCredentialMode o2 = workspaceCredentialMode o1)) \<and>
    view w' = (view w)\<lparr>v_workspaces := (v_workspaces (view w))(workspaceKey p name := x)\<rparr>)"
  using api_server.delete_view [OF assms] dying_mode by metis

theorem delete_effect_witness:
  "\<exists>w' x. DeleteWorkspace ref_platform exProvisioner ''al'' createdWorld =
      (Inr [SyncHeadlamp ''al'' False], w') \<and>
    (ref_view w' = ref_view createdWorld \<or> ref_view w' = (ref_view createdWorld)
      \<lparr>v_workspaces := (v_workspaces (ref_view createdWorld))(workspaceKey exProvisioner ''al'' := x)\<rparr>)"
proof -
  obtain w' where d: "DeleteWorkspace ref_platform exProvisioner ''al'' createdWorld =
      (Inr [SyncHeadlamp ''al'' False], w')"
  proof -
    have "fst (DeleteWorkspace ref_platform exProvisioner ''al'' createdWorld) =
      Inr [SyncHeadlamp ''al'' False]" by code_simp
    then show ?thesis using that by (metis prod.collapse)
  qed
  with delete_effect [OF ref.api_server_axioms d] show ?thesis by blast
qed


definition readyList :: "workspace_info list" where
  "readyList = (case fst (ListWorkspaces ref_platform exProvisioner readyWorld) of Inr l \<Rightarrow> l | Inl _ \<Rightarrow> [])"


section \<open>Kubeconfigs\<close>

text \<open>
  C4: the kubeconfig of a workspace marked for scoped credentials is confined to the workspace's
  own service account: a client that loads it gets, as the only credentials in it, the token of
  that account, for a server at the rewritten workspace address; nothing is written.
\<close>

theorem scoped_kubeconfig_is_confined:
  assumes "api_server E view"
    and run: "KubeconfigBytesForExternalBaseURL E p ws1 ext w = (Inr bytes, w')"
    and scoped: "workspaceCredentialMode ws1 = CredentialsScoped"
    and codec: "\<And>c s. kc_write E c = Inr s \<Longrightarrow> kc_load E s = Inr c"
  shows "\<exists>c server s. kc_load E bytes = Inr c \<and>
    externalURLForServer (ws_url ws1) ext = Inr server \<and>
    v_secrets (view w) (tokenKey (tenantHost p (ws_name ws1))) = Some s \<and>
    gm_string (sec_data s) ''token'' \<noteq> [] \<and>
    login c = Some (clusterEntry p server, scopedAuth (gm_string (sec_data s) ''token'')) \<and>
    kc_authInfos c = [(workspaceServiceAccountName, scopedAuth (gm_string (sec_data s) ''token''))] \<and>
    view w' = view w"
proof -
  from api_server.kubeconfig_ok [OF assms(1) run] obtain server n au where
    s: "externalURLForServer (ws_url ws1) ext = Inr server" and a: "kubeconfig_auth p (view w) ws1 n au"
    and k: "kc_write E (workspaceKubeconfig p server au n) = Inr bytes" by blast
  from a scoped obtain x where
    "v_secrets (view w) (tokenKey (tenantHost p (ws_name ws1))) = Some x"
    "gm_string (sec_data x) ''token'' \<noteq> []" "au = scopedAuth (gm_string (sec_data x) ''token'')"
    "n = workspaceServiceAccountName"
    by (auto simp: kubeconfig_auth_def split: option.splits)
  moreover have "kc_authInfos (workspaceKubeconfig p server au n) = [(n, au)]"
    by (simp add: workspaceKubeconfig_def)
  ultimately show ?thesis
    using s codec [OF k] login_workspace [of p server au n]
      keepsD [where view = view, OF api_server.keeps_kubeconfig [OF assms(1)] run] by blast
qed

definition alWorkspace :: workspace where
  "alWorkspace = (newWorkspace ''al'')\<lparr>ws_url := ''https://kcp/clusters/c1'',
     ws_annotations := Some [(workspaceCredentialAnnotation, ''true'')]\<rparr>"

theorem scoped_kubeconfig_is_confined_witness:
  "\<exists>b c. fst (KubeconfigBytesForExternalBaseURL ref_platform exProvisioner alWorkspace ''http://h:1'' readyWorld)
      = Inr b \<and> kc_load ref_platform b = Inr c \<and> map fst (kc_authInfos c) = [workspaceServiceAccountName]"
proof -
  have "case fst (KubeconfigBytesForExternalBaseURL ref_platform exProvisioner alWorkspace ''http://h:1'' readyWorld)
      of Inl _ \<Rightarrow> False | Inr _ \<Rightarrow> True" by code_simp
  then obtain b w' where r: "KubeconfigBytesForExternalBaseURL ref_platform exProvisioner alWorkspace
      ''http://h:1'' readyWorld = (Inr b, w')"
    by (cases "KubeconfigBytesForExternalBaseURL ref_platform exProvisioner alWorkspace ''http://h:1'' readyWorld")
      (auto split: sum.splits)
  have m: "workspaceCredentialMode alWorkspace = CredentialsScoped" by code_simp
  have "\<And>c s. kc_write ref_platform c = Inr s \<Longrightarrow> kc_load ref_platform s = Inr c"
    by (simp add: ref_platform_def ref_load_write)
  from scoped_kubeconfig_is_confined [OF ref.api_server_axioms r m this] r show ?thesis by auto
qed

text \<open>
  C34: a server address is rewritten to the scheme and host of the external base URL and keeps the
  path of the workspace; without an external base URL it is unchanged.
\<close>

theorem server_address_rewritten:
  assumes "scheme_ok s1" "host_ok h1" "path_ok q" "scheme_ok s2" "host_ok h2" "path_ok q2"
  shows "externalURLForServer (s1 @ ''://'' @ h1 @ q) (s2 @ ''://'' @ h2 @ q2) = Inr (s2 @ ''://'' @ h2 @ q) \<and>
    externalURLForServer (s1 @ ''://'' @ h1 @ q) [] = Inr (s1 @ ''://'' @ h1 @ q)"
  using external_url_server [OF assms] by (simp add: externalURLForServer_def)

theorem server_address_rewritten_witness:
  "externalURLForServer ''https://localhost:6443/clusters/root:consumers:test'' ''https://192.168.178.201:6443'' =
     Inr ''https://192.168.178.201:6443/clusters/root:consumers:test''"
proof -
  have "scheme_ok ''https''" "host_ok ''localhost:6443''" "path_ok ''/clusters/root:consumers:test''"
    "scheme_ok ''https''" "host_ok ''192.168.178.201:6443''" "path_ok []" by code_simp+
  from server_address_rewritten [OF this] show ?thesis by simp
qed

text \<open>
  C35: the base URL for a client's host header is the scheme, the header's host without its port,
  and the given port; an IPv6 host is bracketed.  All three arguments are required.
\<close>

theorem base_url_for_host:
  assumes "client_name h" "plain_port q0" "s \<noteq> []" "plain_port q"
  shows "ExternalBaseURLForHost (join_host_port h q0) s q = Inr (s @ ''://'' @ join_host_port h q) \<and>
    (\<forall>host scheme port. host = [] \<or> scheme = [] \<or> port = [] \<longrightarrow>
      (\<exists>e. ExternalBaseURLForHost host scheme port = Inl e))"
  using external_base_url [OF assms] external_base_url_required by blast

theorem base_url_for_host_witness:
  "ExternalBaseURLForHost ''[::1]:8090'' ''http'' ''4466'' = Inr ''http://[::1]:4466''"
proof -
  have "client_name ''::1''" "plain_port ''8090''" "(''http'' :: string) \<noteq> []" "plain_port ''4466''"
    by code_simp+
  from base_url_for_host [OF this] show ?thesis by (simp add: join_host_port_def)
qed

section \<open>Headlamp\<close>


definition hlSecret :: secret where
  "hlSecret = \<lparr>sec_name = ''cfg'', sec_namespace = ''hl'', sec_annotations = None, sec_type = [],
     sec_data = None\<rparr>"

definition hlWorld :: ref_world where
  "hlWorld = readyWorld\<lparr>rw_secrets := ((''https://k8s'', (''hl'', ''cfg'')), hlSecret) # rw_secrets readyWorld\<rparr>"

definition exK8s :: rest_config where
  "exK8s = exAdmin\<lparr>rc_host := ''https://k8s''\<rparr>"

lemma exK8s: "pv_k8s exProvisioner = Some exK8s"
  by (simp add: exProvisioner_def exK8s_def)

lemma hlSecret_there: "v_secrets (ref_view hlWorld) (headlampKey exProvisioner exK8s) = Some hlSecret"
  by (simp add: hlWorld_def ref_view_def headlampKey_def exProvisioner_def exK8s_def exAdmin_def
      named_key_def hlSecret_def)

lemma hlSecret_empty: "headlampConfig ref_platform hlSecret = new_config" "wf_config new_config"
  by (simp_all add: headlampConfig_def hlSecret_def gm_string_def wf_config_def new_config_def)


text \<open>
  C20: the kubeconfigs of the provisioner are well typed.  One handed out for a workspace or for the
  administrator has unique keys, its contexts resolve, and its current context logs in.  And when the
  kubeconfig for Headlamp is well typed, with each context naming its own cluster and user, then it is
  so after any sync, whichever requests failed and in whatever order the maps were visited: no context
  is left behind without its cluster or its user.
\<close>

theorem kubeconfigs_well_typed:
  assumes "api_server E view" and "reloads E"
  shows
    "(fst (KubeconfigBytesForExternalBaseURL E p ws ext w) = Inr bytes \<longrightarrow>
       (\<exists>cfg. kc_write E cfg = Inr bytes \<and> typed_config cfg \<and> login cfg \<noteq> None)) \<and>
     (fst (AdminKubeconfigBytesForExternalBaseURL E p ext w) = Inr bytes \<longrightarrow>
       (\<exists>cfg. kc_write E cfg = Inr bytes \<and> typed_config cfg \<and> login cfg \<noteq> None)) \<and>
     (pv_k8s p = Some k8s \<and> headlamp_typed E p k8s (view w) \<longrightarrow>
       headlamp_typed E p k8s (view (snd (syncHeadlamp E ro now p name add w)))) \<and>
     (headlamp_typed E p k8s (view w) \<and> v_secrets (view w) (headlampKey p k8s) = Some s \<longrightarrow>
       typed_config (headlampConfig E s))"
proof (intro conjI impI)
  assume "fst (KubeconfigBytesForExternalBaseURL E p ws ext w) = Inr bytes"
  then obtain w' where "KubeconfigBytesForExternalBaseURL E p ws ext w = (Inr bytes, w')"
    by (metis prod.collapse)
  from api_server.kubeconfig_ok [OF assms(1) this] typed_workspace login_workspace
  show "\<exists>cfg. kc_write E cfg = Inr bytes \<and> typed_config cfg \<and> login cfg \<noteq> None"
    by (metis option.distinct(1))
next
  assume "fst (AdminKubeconfigBytesForExternalBaseURL E p ext w) = Inr bytes"
  then obtain w' where "AdminKubeconfigBytesForExternalBaseURL E p ext w = (Inr bytes, w')"
    by (metis prod.collapse)
  then obtain b where "kc_write E (adminKubeconfig p b) = Inr bytes"
    by (auto simp: AdminKubeconfigBytesForExternalBaseURL_def simp del: or_fail_ret elim!: or_fail_InrE)
  then show "\<exists>cfg. kc_write E cfg = Inr bytes \<and> typed_config cfg \<and> login cfg \<noteq> None"
    using typed_admin login_admin by (metis option.distinct(1))
next
  assume "pv_k8s p = Some k8s \<and> headlamp_typed E p k8s (view w)"
  then show "headlamp_typed E p k8s (view (snd (syncHeadlamp E ro now p name add w)))"
    using api_server.sync_typed [OF assms(1) surjective_pairing _ assms(2)] by blast
next
  assume "headlamp_typed E p k8s (view w) \<and> v_secrets (view w) (headlampKey p k8s) = Some s"
  then show "typed_config (headlampConfig E s)"
    by (intro headlamp_config_typed) (auto simp: headlamp_typed_def)
qed

lemma ref_reloads: "reloads ref_platform"
  unfolding reloads_def using ref_load_write by (auto simp: ref_platform_def)

theorem kubeconfigs_well_typed_witness:
  "headlamp_typed ref_platform exProvisioner exK8s
     (ref_view (snd (syncHeadlamp ref_platform exOrders ''now'' exProvisioner ''al'' True hlWorld)))"
proof -
  have "headlamp_typed ref_platform exProvisioner exK8s (ref_view hlWorld)"
    using hlSecret_there hlSecret_empty(1) new_config_ok by (simp add: headlamp_typed_def)
  with kubeconfigs_well_typed [OF ref.api_server_axioms ref_reloads] exK8s show ?thesis by blast
qed



section \<open>The admin kubeconfig\<close>

text \<open>
  C37: the admin kubeconfig logs in to the root workspace with the admin credentials, and making it
  only reads.  Its address is the external base URL when there is one; else the base of the URL of
  the consumers workspace, which is looked up by what follows the first colon of its path in the
  workspace before it, and a path without a colon is an error.
\<close>

theorem admin_kubeconfig_logs_in_to_root:
  assumes "api_server E view" and "AdminKubeconfigBytesForExternalBaseURL E p ext w = (res, w')"
  shows "view w' = view w \<and>
    (ext = [] \<and> CHR '':'' \<notin> set (pv_consumers p) \<longrightarrow> (\<exists>e. res = Inl e)) \<and>
    (\<forall>bytes. res = Inr bytes \<longrightarrow>
      (\<exists>base. kc_write E (adminKubeconfig p base) = Inr bytes \<and>
         login (adminKubeconfig p base) = Some (clusterEntry p (base @ ''/clusters/root''), adminAuthInfo p) \<and>
         (if ext \<noteq> [] then base = ext
          else \<exists>parent rest x. pv_consumers p = parent @ '':'' @ rest \<and> CHR '':'' \<notin> set parent \<and>
            v_workspaces (view w) (workspace_host p parent, ([], rest)) = Some x \<and>
            ws_url x \<noteq> [] \<and> kcpBaseURL (ws_url x) = Inr base)))"
proof (intro conjI impI allI)
  show "view w' = view w" by (rule keepsD [OF api_server.keeps_admin_kubeconfig [OF assms(1)] assms(2)])
next
  assume "ext = [] \<and> CHR '':'' \<notin> set (pv_consumers p)"
  with assms(2) show "\<exists>e. res = Inl e"
    by (auto simp: AdminKubeconfigBytesForExternalBaseURL_def externalKCPBaseURL_def or_fail_run)
next
  fix bytes assume "res = Inr bytes"
  with assms(2) obtain base w1 where b: "(if ext = [] then externalKCPBaseURL E p else ret ext) w = (Inr base, w1)"
    and k: "kc_write E (adminKubeconfig p base) = Inr bytes"
    by (auto simp: AdminKubeconfigBytesForExternalBaseURL_def simp del: or_fail_ret elim!: or_fail_InrE)
  have "if ext \<noteq> [] then base = ext
      else \<exists>parent rest x. pv_consumers p = parent @ '':'' @ rest \<and> CHR '':'' \<notin> set parent \<and>
        v_workspaces (view w) (workspace_host p parent, ([], rest)) = Some x \<and>
        ws_url x \<noteq> [] \<and> kcpBaseURL (ws_url x) = Inr base"
  proof (cases "ext = []")
    case True
    with b have e: "externalKCPBaseURL E p w = (Inr base, w1)" by simp
    then have "CHR '':'' \<in> set (pv_consumers p)"
      by (cases "CHR '':'' \<in> set (pv_consumers p)") (auto simp: externalKCPBaseURL_def)
    then obtain parent rest where pr: "pv_consumers p = parent @ CHR '':'' # rest" "CHR '':'' \<notin> set parent"
      by (meson split_list_first)
    from api_server.external_base_ok [OF assms(1) e pr] pr True show ?thesis by auto
  next
    case False
    with b show ?thesis by simp
  qed
  with k login_admin show "\<exists>base. kc_write E (adminKubeconfig p base) = Inr bytes \<and>
         login (adminKubeconfig p base) = Some (clusterEntry p (base @ ''/clusters/root''), adminAuthInfo p) \<and>
         (if ext \<noteq> [] then base = ext
          else \<exists>parent rest x. pv_consumers p = parent @ '':'' @ rest \<and> CHR '':'' \<notin> set parent \<and>
            v_workspaces (view w) (workspace_host p parent, ([], rest)) = Some x \<and>
            ws_url x \<noteq> [] \<and> kcpBaseURL (ws_url x) = Inr base)" by blast
qed

text \<open>The consumers workspace three levels deep: the lookup asks for \<open>b:c\<close> in \<open>a\<close> and finds nothing.\<close>

definition deepProvisioner :: provisioner where
  "deepProvisioner = exProvisioner\<lparr>pv_consumers := ''a:b:c''\<rparr>"

definition deepWorld :: ref_world where
  "deepWorld = emptyWorld\<lparr>rw_workspaces := [((''https://kcp/clusters/a:b'', ([], ''c'')),
     (newWorkspace ''c'')\<lparr>ws_url := ''https://kcp.example/clusters/a:b:c''\<rparr>)]\<rparr>"

theorem admin_kubeconfig_logs_in_to_root_witness:
  "(\<exists>w'. AdminKubeconfigBytesForExternalBaseURL ref_platform deepProvisioner ''https://e:6443'' deepWorld =
      (kc_write ref_platform (adminKubeconfig deepProvisioner ''https://e:6443''), w') \<and>
      ref_view w' = ref_view deepWorld) \<and>
   (\<exists>e. fst (AdminKubeconfigBytesForExternalBaseURL ref_platform deepProvisioner [] deepWorld) = Inl e)"
proof -
  obtain res w' where run:
    "AdminKubeconfigBytesForExternalBaseURL ref_platform deepProvisioner ''https://e:6443'' deepWorld = (res, w')"
    by (metis prod.collapse)
  then have r: "res = kc_write ref_platform (adminKubeconfig deepProvisioner ''https://e:6443'')"
    by (auto simp: AdminKubeconfigBytesForExternalBaseURL_def)
  have "case fst (AdminKubeconfigBytesForExternalBaseURL ref_platform deepProvisioner [] deepWorld) of
      Inl _ \<Rightarrow> True | Inr _ \<Rightarrow> False" by code_simp
  then have e: "\<exists>e. fst (AdminKubeconfigBytesForExternalBaseURL ref_platform deepProvisioner [] deepWorld) = Inl e"
    by (auto split: sum.splits)
  have "ref_view w' = ref_view deepWorld"
    by (rule conjunct1 [OF admin_kubeconfig_logs_in_to_root [OF ref.api_server_axioms run]])
  with run r e show ?thesis by (intro conjI exI [of _ w']) simp_all
qed

end
