(* ===== verification/Http_Properties.thy ===== *)
theory Http_Properties
  imports Prov_Main Prov_Properties
begin

text \<open>The properties of the provisioner's HTTP front end and of its background loop.\<close>

definition exRequest :: request where
  "exRequest = \<lparr>rq_header = [(''Forwarded'', ''for=10.0.0.1;host=db.example.com:8443, for=10.0.0.2'')],
     rq_host = ''10.1.2.3:8090'', rq_query = [], rq_form = [(''name'', ''al'')]\<rparr>"

definition exErrText :: "go_error \<Rightarrow> string" where
  "exErrText e = (case e of ApiErr _ \<Rightarrow> ''api error'' | Errorf f _ _ \<Rightarrow> f)"

text \<open>
  C17: creating and deleting workspaces over HTTP reports the outcome: the handler redirects to a
  location whose query the index page decodes to exactly the message of what happened, whatever
  bytes the name or the error text holds, and to no other message.
\<close>

theorem http_outcome_reported:
  assumes "name \<noteq> []" and "gm_string (Some (rq_form r)) ''name'' = name"
  shows "(case handleCreateWorkspace E errText p r w of
      ((SeeOther loc, ts), w') \<Rightarrow> ts = [] \<and>
        (case ProvisionWorkspace E p name w of
           (Inl e, w1) \<Rightarrow> w' = w1 \<and> message_at loc ''error'' (errText e)
         | (Inr _, w1) \<Rightarrow> w' = w1 \<and>
             message_at loc ''success'' (''Workspace '' @ name @ '' provisioned successfully''))
    | _ \<Rightarrow> False) \<and>
   (case handleDeleteWorkspace E errText p name r w of
      ((SeeOther loc, ts), w') \<Rightarrow>
        (case DeleteWorkspace E p name w of
           (Inl e, w1) \<Rightarrow> w' = w1 \<and> ts = [] \<and> message_at loc ''error'' (errText e)
         | (Inr tasks, w1) \<Rightarrow> w' = w1 \<and> ts = tasks \<and>
             message_at loc ''success'' (''Workspace '' @ name @ '' deleted''))
    | _ \<Rightarrow> False)"
  using assms message_roundtrip [OF plain_keys(1)] message_roundtrip [OF plain_keys(2)]
  by (simp add: handleCreateWorkspace_def handleDeleteWorkspace_def Let_def split: prod.split sum.split)

theorem http_outcome_reported_witness:
  "\<exists>loc w'. handleCreateWorkspace ref_platform exErrText exProvisioner exRequest emptyWorld =
      ((SeeOther loc, []), w') \<and> message_at loc ''success'' ''Workspace al provisioned successfully''"
proof -
  have n: "(''al'' :: string) \<noteq> []" "gm_string (Some (rq_form exRequest)) ''name'' = ''al''"
    by (simp_all add: exRequest_def gm_string_def)
  from http_outcome_reported [where E = ref_platform and errText = exErrText and p = exProvisioner and
      w = emptyWorld, OF n] created_run
  show ?thesis by (auto split: prod.splits response.splits)
qed



text \<open>
  C19: the safety invariant holds across every request and any number of rounds of the background
  loop, whatever the map orders and the clock.
\<close>

theorem front_end_preserves_invariant:
  assumes "api_server E view" and "scoped_inv E p (view w)" and "\<forall>rn \<in> set rns. orders_ok (fst rn)"
  shows "scoped_inv E p (view (snd (handleIndex E errText p r w))) \<and>
    scoped_inv E p (view (snd (handleCreateWorkspace E errText p r w))) \<and>
    scoped_inv E p (view (snd (handleDeleteWorkspace E errText p name r w))) \<and>
    scoped_inv E p (view (snd (handleAdminKubeconfig E errText p r w))) \<and>
    scoped_inv E p (view (snd (handleKubeconfig E errText p name r w))) \<and>
    scoped_inv E p (view (snd (startHeadlampReconcileLoop E p rns w)))"
proof -
  note inv = api_server.reachable_inv [OF assms(1) _ assms(2)]
  show ?thesis
    by (intro conjI inv index_path [OF surjective_pairing] create_path [OF surjective_pairing]
        delete_path [OF surjective_pairing] admin_path [OF surjective_pairing]
        kubeconfig_path [OF surjective_pairing assms(1)]
        loop_path [OF surjective_pairing assms(3)])
qed

theorem front_end_preserves_invariant_witness:
  "scoped_inv ref_platform exProvisioner
     (ref_view (snd (startHeadlampReconcileLoop ref_platform exProvisioner
        [(exOrders, ''t0''), (exOrders, ''t1'')] createdWorld)))"
proof -
  have i: "scoped_inv ref_platform exProvisioner (ref_view createdWorld)"
    by (rule api_server.provision_inv [OF ref.api_server_axioms created_run empty_inv])
  have o: "\<forall>rn \<in> set [(exOrders, ''t0''), (exOrders, ''t1'')]. orders_ok (fst rn)"
    by (simp add: exOrders_ok)
  from front_end_preserves_invariant [OF ref.api_server_axioms i o] show ?thesis by blast
qed



text \<open>
  C16: over the routes of the server, a GET or HEAD request of any path changes nothing and starts no
  background work, every other request than the two POST routes is refused unchanged, and every
  request keeps the safety invariant.
\<close>

theorem requests_are_safe:
  assumes "api_server E view" and "serve E errText p method path r w = ((resp, ts), w')"
  shows "(method = ''GET'' \<or> method = ''HEAD'' \<longrightarrow> view w' = view w \<and> ts = []) \<and>
    (method \<noteq> ''GET'' \<and> method \<noteq> ''HEAD'' \<and>
       \<not> (method = ''POST'' \<and> (path = [''api'', ''workspaces''] \<or>
            (\<exists>name. path = [''api'', ''workspaces'', name, ''delete'']))) \<longrightarrow>
     w' = w \<and> ts = [] \<and> resp = HttpError 405 ''Method Not Allowed'') \<and>
    (scoped_inv E p (view w) \<longrightarrow> scoped_inv E p (view w'))"
proof (intro conjI impI)
  assume "method \<noteq> ''GET'' \<and> method \<noteq> ''HEAD'' \<and>
       \<not> (method = ''POST'' \<and> (path = [''api'', ''workspaces''] \<or>
            (\<exists>name. path = [''api'', ''workspaces'', name, ''delete''])))"
  then have "muxRoute method path = RouteNotAllowed"
    by (auto simp: muxRoute_def split: list.splits)
  with assms(2) have "w' = w \<and> ts = [] \<and> resp = HttpError 405 ''Method Not Allowed''"
    by (simp add: serve_def)
  then show "w' = w" "ts = []" "resp = HttpError 405 ''Method Not Allowed''" by simp_all
next
  assume "scoped_inv E p (view w)"
  with api_server.reachable_inv [OF assms(1) serve_path [OF assms(2,1)]]
  show "scoped_inv E p (view w')" by blast
qed (use api_server.serve_reads [OF assms(1) _ assms(2)] in blast)+

theorem requests_are_safe_witness:
  "\<exists>resp w'. serve ref_platform exErrText exProvisioner ''GET'' [] exRequest readyWorld = ((resp, []), w') \<and>
     ref_view w' = ref_view readyWorld"
proof -
  obtain resp ts w' where run:
    "serve ref_platform exErrText exProvisioner ''GET'' [] exRequest readyWorld = ((resp, ts), w')"
    by (metis prod.collapse)
  from requests_are_safe [OF ref.api_server_axioms run] run show ?thesis by blast
qed

end
