(* ===== verification/Ctrl_Types.thy ===== *)
theory Ctrl_Types
  imports Kube_Api Go_Url
begin

text \<open>
  The objects and the platform of the Kubernetes controller (\<open>internal/controller/kubernetes\<close>):
  Cluster API clusters, nodes and manifests as far as the code reads them, and, as parameters, the
  client libraries and the \<open>controllerutil\<close> and \<open>apimeta\<close> helpers it calls.
\<close>

record capi_cluster =
  cl_namespace :: string
  cl_name :: string
  cl_annotations :: "string gomap option"
  cl_phase :: string
  cl_conditions :: "condition list"

record config_map =
  cm_name :: string
  cm_data :: "string gomap option"

record taint =
  ta_key :: string
  ta_value :: string
  ta_effect :: string
  ta_timeAdded :: "timestamp option"

record node =
  no_name :: string
  no_labels :: "string gomap option"
  no_taints :: "taint list"

text \<open>
  One document of a manifest as the decoder yields it: how many keys it has, its kind, its name
  and namespace, and what \<open>json.Marshal\<close> makes of it.
\<close>

record manifest_object =
  mo_keys :: nat
  mo_group :: string
  mo_version :: string
  mo_kind :: string
  mo_name :: string
  mo_namespace :: string
  mo_json :: "go_error + string"

text \<open>\<open>cp_decode\<close> gives the results of \<open>Decode\<close> before \<open>io.EOF\<close>, an error being the last.\<close>

record 'w ctrl_platform =
  cp_base :: "'w platform"
  cp_kubes :: "('w, kubernetes) resource"
  cp_clusters :: "('w, capi_cluster) resource"
  cp_patchCluster :: "rest_config \<Rightarrow> capi_cluster \<Rightarrow> capi_cluster \<Rightarrow> ('w, api_error, unit) call"
  cp_configmaps :: "('w, config_map) resource"
  cp_listNodes :: "rest_config \<Rightarrow> string \<Rightarrow> ('w, api_error, node list) call"
  cp_updateNode :: "rest_config \<Rightarrow> node \<Rightarrow> ('w, api_error, node) call"
  cp_restConfig :: "string \<Rightarrow> go_error + rest_config" \<comment> \<open>\<open>clientcmd.RESTConfigFromKubeConfig\<close>\<close>
  cp_discovery_new :: "rest_config \<Rightarrow> go_error option"
  cp_decode :: "string \<Rightarrow> (go_error + manifest_object) list"
  cp_mapping :: "rest_config \<Rightarrow> string \<times> string \<Rightarrow> string \<Rightarrow> ('w, go_error, string \<times> bool) call"
    \<comment> \<open>the resource of a kind, and whether it is namespaced\<close>
  cp_apply :: "rest_config \<Rightarrow> string \<Rightarrow> string option \<Rightarrow> string \<Rightarrow> string \<Rightarrow>
    string \<times> bool option \<Rightarrow> ('w, api_error, unit) call" \<comment> \<open>\<open>Patch\<close> with \<open>ApplyPatchType\<close>\<close>
  cp_addFinalizer :: "string list \<Rightarrow> string \<Rightarrow> string list \<times> bool"
  cp_removeFinalizer :: "string list \<Rightarrow> string \<Rightarrow> string list \<times> bool"
  cp_containsFinalizer :: "string list \<Rightarrow> string \<Rightarrow> bool"
  cp_conditionTrue :: "condition list \<Rightarrow> string \<Rightarrow> bool" \<comment> \<open>\<open>apimeta.IsStatusConditionTrue\<close>\<close>
  cp_transport :: "rest_config \<Rightarrow> go_error option" \<comment> \<open>\<open>rest.TransportFor\<close>\<close>
  cp_noSchedule :: string \<comment> \<open>\<open>corev1.TaintEffectNoSchedule\<close>\<close>

text \<open>The \<open>Reconciler\<close> struct; \<open>re_manager\<close> is the cluster of the embedded \<open>client.Client\<close>.\<close>

record reconciler =
  re_manager :: rest_config
  re_k8s :: rest_config
  re_kcp :: rest_config
  re_consumers :: string
  re_proxyBaseURL :: string

datatype ctrl_result = Done | RequeueAfter nat

end
