(* ===== verification/Go_Sha1.thy ===== *)
theory Go_Sha1
  imports Go_Url "HOL-Library.Word"
begin

text \<open>
  \<open>crypto/sha1.Sum\<close> and \<open>encoding/hex.EncodeToString\<close>: the hash and the hex digits the
  controller puts into names of mounted workspaces.
\<close>

unbundle bit_operations_syntax

type_synonym w8 = "8 word"
type_synonym w32 = "32 word"
type_synonym chain = "w32 \<times> w32 \<times> w32 \<times> w32 \<times> w32"

definition sha1_init :: chain where
  "sha1_init = (0x67452301, 0xEFCDAB89, 0x98BADCFE, 0x10325476, 0xC3D2E1F0)"

text \<open>Padding: the bit 1, zeros up to 56 modulo 64 bytes, and the length in bits as 8 bytes.\<close>

definition length_bytes :: "64 word \<Rightarrow> w8 list" where
  "length_bytes n = map (\<lambda>i. ucast (drop_bit i n)) [56, 48, 40, 32, 24, 16, 8, 0]"

definition word_bytes :: "w32 \<Rightarrow> w8 list" where
  "word_bytes x = map (\<lambda>i. ucast (drop_bit i x)) [24, 16, 8, 0]"

definition sha1_pad :: "w8 list \<Rightarrow> w8 list" where
  "sha1_pad bs =
     (let n = length bs in
      bs @ [0x80] @ replicate ((119 - n mod 64) mod 64) 0 @ length_bytes (8 * of_nat n))"

fun be_words :: "w8 list \<Rightarrow> w32 list" where
  "be_words (a # b # c # d # r) =
     (push_bit 24 (ucast a) OR push_bit 16 (ucast b) OR push_bit 8 (ucast c) OR ucast d) # be_words r"
| "be_words _ = []"

fun blocks :: "nat \<Rightarrow> 'a list \<Rightarrow> 'a list list" where
  "blocks 0 xs = []"
| "blocks (Suc n) xs = take 64 xs # blocks n (drop 64 xs)"

text \<open>\<open>bits.RotateLeft32\<close>.\<close>

definition rotl :: "nat \<Rightarrow> w32 \<Rightarrow> w32" where
  "rotl k x = push_bit k x OR drop_bit (32 - k) x"

text \<open>The message schedule keeps a window of the last 16 words.\<close>

definition next_word :: "w32 list \<Rightarrow> w32" where
  "next_word ws = rotl 1 (ws ! 13 XOR ws ! 8 XOR ws ! 2 XOR ws ! 0)"

definition round_f :: "nat \<Rightarrow> w32 \<Rightarrow> w32 \<Rightarrow> w32 \<Rightarrow> w32 \<times> w32" where
  "round_f q b c d =
     (if q = 0 then (b AND c OR NOT b AND d, 0x5A827999)
      else if q = 1 then (b XOR c XOR d, 0x6ED9EBA1)
      else if q = 2 then (((b OR c) AND d) OR (b AND c), 0x8F1BBCDC)
      else (b XOR c XOR d, 0xCA62C1D6))"

text \<open>\<open>n\<close> rounds of the kind \<open>q\<close>; there are four kinds of 20 rounds.\<close>

fun sha1_rounds :: "nat \<Rightarrow> nat \<Rightarrow> w32 list \<times> chain \<Rightarrow> w32 list \<times> chain" where
  "sha1_rounds q 0 st = st"
| "sha1_rounds q (Suc n) (ws, (a, b, c, d, e)) =
     (case round_f q b c d of (f, k) \<Rightarrow>
        sha1_rounds q n (drop 1 ws @ [next_word ws],
          (rotl 5 a + f + e + hd ws + k, a, rotl 30 b, c, d)))"

fun chain_add :: "chain \<Rightarrow> chain \<Rightarrow> chain" where
  "chain_add (a, b, c, d, e) (a', b', c', d', e') = (a + a', b + b', c + c', d + d', e + e')"

definition sha1_block :: "chain \<Rightarrow> w8 list \<Rightarrow> chain" where
  "sha1_block h blk =
     chain_add h (snd (foldl (\<lambda>st q. sha1_rounds q 20 st) (be_words blk, h) [0, 1, 2, 3]))"

fun chain_bytes :: "chain \<Rightarrow> w8 list" where
  "chain_bytes (a, b, c, d, e) =
     word_bytes a @ word_bytes b @ word_bytes c @ word_bytes d @ word_bytes e"

definition sha1_sum :: "string \<Rightarrow> w8 list" where
  "sha1_sum s =
     (let m = sha1_pad (map of_char s) in
      chain_bytes (foldl sha1_block sha1_init (blocks (length m div 64) m)))"

section \<open>Hex digits\<close>

definition lower_hex :: "nat \<Rightarrow> char" where
  "lower_hex n = (if n < 10 then char_of (48 + n) else char_of (87 + n))"

definition hex_encode :: "w8 list \<Rightarrow> string" where
  "hex_encode bs = concat (map (\<lambda>b. [lower_hex (unat (drop_bit 4 b)), lower_hex (unat (b AND 15))]) bs)"

section \<open>Lemmas\<close>

lemma sha1_pad_length: "length (sha1_pad bs) mod 64 = 0"
proof -
  have "(n + 1 + (119 - n mod 64) mod 64 + 8) mod 64 = 0" for n :: nat
  proof -
    have "(n + 1 + x mod 64 + 8) mod 64 = (n mod 64 + x + 9) mod 64" for x
      using mod_add_right_eq [of "n + 9" x 64] mod_add_left_eq [of n 64 "x + 9"] by (simp add: ac_simps)
    then have "(n + 1 + (119 - n mod 64) mod 64 + 8) mod 64 = (n mod 64 + (119 - n mod 64) + 9) mod 64" .
    also have "n mod 64 + (119 - n mod 64) = 119"
      using mod_less_divisor [of 64 n] by linarith
    finally show ?thesis by simp
  qed
  then show ?thesis by (simp add: sha1_pad_def Let_def length_bytes_def)
qed

lemma length_chain_bytes [simp]: "length (chain_bytes h) = 20"
  by (cases h rule: chain_bytes.cases) (simp add: word_bytes_def)

lemma sha1_sum_length: "length (sha1_sum s) = 20"
  by (simp add: sha1_sum_def Let_def)

definition is_lower_hex :: "char \<Rightarrow> bool" where
  "is_lower_hex c = (is_digit c \<or> 97 \<le> byte c \<and> byte c \<le> 102)"

lemma lower_hex_ok: "n < 16 \<Longrightarrow> is_lower_hex (lower_hex n)"
  by (auto simp: lower_hex_def is_lower_hex_def is_digit_def)

lemma hex_encode_length [simp]: "length (hex_encode bs) = 2 * length bs"
  by (induction bs) (auto simp: hex_encode_def)

lemma nibbles:
  fixes b :: w8
  shows "unat (drop_bit 4 b) < 16" "unat (b AND 15) < 16"
proof -
  have "unat b < 256" using unsigned_less [of b] by simp
  then show "unat (drop_bit 4 b) < 16" by (simp add: unat_drop_bit_eq drop_bit_eq_div unat_div)
  have "b AND 15 = b mod 16" using take_bit_eq_mask [of 4 b] take_bit_eq_mod [of 4 b] by (simp add: mask_numeral)
  then show "unat (b AND 15) < 16" by (simp add: unat_mod)
qed

lemma hex_encode_ok: "list_all is_lower_hex (hex_encode bs)"
  by (induction bs) (auto simp: hex_encode_def intro!: lower_hex_ok nibbles)

end
