(* ===== verification/Go_Json.thy ===== *)
theory Go_Json
  imports Go_Sha1
begin

text \<open>
  \<open>encoding/json.Marshal\<close> of strings (HTML characters escaped, invalid UTF-8 replaced), as the status
  annotation uses it, and a reader of JSON strings to state what a consumer gets back.
\<close>

section \<open>UTF-8\<close>

definition cont :: "nat \<Rightarrow> bool" where
  "cont b = (128 \<le> b \<and> b \<le> 191)"

text \<open>
  The length of the multi-byte sequence at the start of a string, 0 if it is not a valid one
  (\<open>utf8.DecodeRune\<close> with \<open>RuneError\<close> of size 1).
\<close>

definition utf8_len :: "string \<Rightarrow> nat" where
  "utf8_len s =
     (case map byte (take 4 s) of
        a # b # r \<Rightarrow>
          if 194 \<le> a \<and> a \<le> 223 \<and> cont b then 2
          else (case r of [] \<Rightarrow> 0 | c # r' \<Rightarrow>
            if cont c \<and> (a = 224 \<and> 160 \<le> b \<and> b \<le> 191 \<or> a = 237 \<and> 128 \<le> b \<and> b \<le> 159 \<or>
                225 \<le> a \<and> a \<le> 239 \<and> a \<noteq> 237 \<and> cont b) then 3
            else (case r' of [] \<Rightarrow> 0 | d # _ \<Rightarrow>
              if cont c \<and> cont d \<and> (a = 240 \<and> 144 \<le> b \<and> b \<le> 191 \<or> a = 244 \<and> 128 \<le> b \<and> b \<le> 143 \<or>
                  241 \<le> a \<and> a \<le> 243 \<and> cont b) then 4 else 0))
      | _ \<Rightarrow> 0)"

section \<open>Writing\<close>

definition escape_ascii :: "char \<Rightarrow> string" where
  "escape_ascii c =
     (if c = CHR 0x22 \<or> c = CHR 0x5C then [CHR 0x5C, c]
      else if byte c = 8 then [CHR 0x5C, CHR ''b'']
      else if byte c = 12 then [CHR 0x5C, CHR ''f'']
      else if byte c = 10 then [CHR 0x5C, CHR ''n'']
      else if byte c = 13 then [CHR 0x5C, CHR ''r'']
      else if byte c = 9 then [CHR 0x5C, CHR ''t'']
      else if byte c < 32 \<or> c \<in> set ''<>&'' then
        [CHR 0x5C, CHR ''u'', CHR ''0'', CHR ''0'', lower_hex (byte c div 16), lower_hex (byte c mod 16)]
      else [c])"

function json_body :: "string \<Rightarrow> string" where
  "json_body s =
     (case s of
        [] \<Rightarrow> []
      | c # r \<Rightarrow>
          if byte c < 128 then escape_ascii c @ json_body r
          else if utf8_len s = 0 then CHR 0x5C # ''ufffd'' @ json_body r
          else if take 3 s = [CHR 0xE2, CHR 0x80, CHR 0xA8] then CHR 0x5C # ''u2028'' @ json_body (drop 3 s)
          else if take 3 s = [CHR 0xE2, CHR 0x80, CHR 0xA9] then CHR 0x5C # ''u2029'' @ json_body (drop 3 s)
          else take (utf8_len s) s @ json_body (drop (utf8_len s) s))"
  by pat_completeness auto
termination
  by (relation "measure length") auto

declare json_body.simps [simp del]

definition json_string :: "string \<Rightarrow> string" where
  "json_string s = CHR 0x22 # json_body s @ [CHR 0x22]"

definition json_bool :: "bool \<Rightarrow> string" where
  "json_bool b = (if b then ''true'' else ''false'')"

section \<open>Reading\<close>

definition utf8_encode :: "nat \<Rightarrow> string" where
  "utf8_encode n =
     (if n < 128 then [char_of n]
      else if n < 2048 then [char_of (192 + n div 64), char_of (128 + n mod 64)]
      else [char_of (224 + n div 4096), char_of (128 + n div 64 mod 64), char_of (128 + n mod 64)])"

fun unescape_char :: "char \<Rightarrow> char option" where
  "unescape_char e =
     (if e \<in> {CHR 0x22, CHR 0x5C, CHR ''/''} then Some e
      else if e = CHR ''b'' then Some (char_of (8 :: nat))
      else if e = CHR ''f'' then Some (char_of (12 :: nat))
      else if e = CHR ''n'' then Some (char_of (10 :: nat))
      else if e = CHR ''r'' then Some (char_of (13 :: nat))
      else if e = CHR ''t'' then Some (char_of (9 :: nat)) else None)"

text \<open>Read up to the closing quote; the rest of the text is returned with the string.\<close>

fun read_string :: "string \<Rightarrow> (string \<times> string) option" where
  "read_string [] = None"
| "read_string (c # r) =
     (if c = CHR 0x22 then Some ([], r)
      else if c = CHR 0x5C then
        (case r of
           [] \<Rightarrow> None
         | e # r1 \<Rightarrow>
             if e = CHR ''u'' then
               (case r1 of
                  h1 # h2 # h3 # h4 # r2 \<Rightarrow>
                    if is_hex h1 \<and> is_hex h2 \<and> is_hex h3 \<and> is_hex h4 then
                      map_option (\<lambda>(s, t).
                        (utf8_encode (4096 * unhex h1 + 256 * unhex h2 + 16 * unhex h3 + unhex h4) @ s, t))
                        (read_string r2)
                    else None
                | _ \<Rightarrow> None)
             else (case unescape_char e of
                None \<Rightarrow> None | Some x \<Rightarrow> map_option (\<lambda>(s, t). (x # s, t)) (read_string r1)))
      else if byte c < 32 then None
      else map_option (\<lambda>(s, t). (c # s, t)) (read_string r))"

section \<open>Round trip\<close>

text \<open>A string is valid UTF-8 if every byte of it is ASCII or part of a valid sequence.\<close>

function utf8_ok :: "string \<Rightarrow> bool" where
  "utf8_ok s =
     (case s of
        [] \<Rightarrow> True
      | c # r \<Rightarrow>
          if byte c < 128 then utf8_ok r
          else if utf8_len s = 0 then False
          else utf8_ok (drop (utf8_len s) s))"
  by pat_completeness auto
termination
  by (relation "measure length") auto

declare utf8_ok.simps [simp del]

lemma utf8_ok_ascii: "\<forall>c \<in> set s. byte c < 128 \<Longrightarrow> utf8_ok s"
  by (induction s) (simp_all add: utf8_ok.simps)

lemma lower_hex_read: "n < 16 \<Longrightarrow> is_hex (lower_hex n) \<and> unhex (lower_hex n) = n"
  by (auto simp: lower_hex_def is_hex_def unhex_def is_digit_def)

text \<open>An escape of two characters, an escape of six, a byte that stands for itself.\<close>

lemma read_short:
  "unescape_char e = Some x \<Longrightarrow> e \<noteq> CHR ''u'' \<Longrightarrow> read_string t = Some (s, r) \<Longrightarrow>
   read_string (CHR 0x5C # e # t) = Some (x # s, r)"
  by (simp del: unescape_char.simps)

lemma read_hex:
  assumes "is_hex h1" "is_hex h2" "is_hex h3" "is_hex h4" "read_string t = Some (s, r)"
  shows "read_string (CHR 0x5C # CHR ''u'' # h1 # h2 # h3 # h4 # t) =
    Some (utf8_encode (4096 * unhex h1 + 256 * unhex h2 + 16 * unhex h3 + unhex h4) @ s, r)"
  using assms by simp

lemma read_plain:
  "c \<noteq> CHR 0x22 \<Longrightarrow> c \<noteq> CHR 0x5C \<Longrightarrow> \<not> byte c < 32 \<Longrightarrow> read_string t = Some (s, r) \<Longrightarrow>
   read_string (c # t) = Some (c # s, r)"
  by simp

declare read_string.simps [simp del]

lemma zero_digit: "is_hex (CHR ''0'')" "unhex (CHR ''0'') = 0"
  by (simp_all add: is_hex_def unhex_def is_digit_def byte_def)

lemma char_byte_eq: "byte c = k \<Longrightarrow> char_of k = c"
  by auto

lemma short_escapes:
  "unescape_char (CHR 0x22) = Some (CHR 0x22)" "unescape_char (CHR 0x5C) = Some (CHR 0x5C)"
  "unescape_char (CHR ''b'') = Some (char_of (8 :: nat))" "unescape_char (CHR ''f'') = Some (char_of (12 :: nat))"
  "unescape_char (CHR ''n'') = Some (char_of (10 :: nat))" "unescape_char (CHR ''r'') = Some (char_of (13 :: nat))"
  "unescape_char (CHR ''t'') = Some (char_of (9 :: nat))"
  by simp_all

lemma read_escape:
  assumes b: "byte c < 128" and t: "read_string t = Some (s, r)"
  shows "read_string (escape_ascii c @ t) = Some (c # s, r)"
proof -
  consider "c = CHR 0x22 \<or> c = CHR 0x5C" | "byte c \<in> {8, 12, 10, 13, 9}"
    | (hex) "\<not> (c = CHR 0x22 \<or> c = CHR 0x5C)" "byte c \<notin> {8, 12, 10, 13, 9}" "byte c < 32 \<or> c \<in> set ''<>&''"
    | (plain) "\<not> (c = CHR 0x22 \<or> c = CHR 0x5C)" "byte c \<notin> {8, 12, 10, 13, 9}"
        "\<not> (byte c < 32 \<or> c \<in> set ''<>&'')" by blast
  then show ?thesis
  proof cases
    case 1
    then have "escape_ascii c = [CHR 0x5C, c]" "unescape_char c = Some c" "c \<noteq> CHR ''u''"
      by (auto simp: escape_ascii_def)
    with t show ?thesis by (simp add: read_short del: unescape_char.simps)
  next
    case 2
    then have "byte c = 8 \<or> byte c = 12 \<or> byte c = 10 \<or> byte c = 13 \<or> byte c = 9" by simp
    moreover have "c \<noteq> CHR 0x22" "c \<noteq> CHR 0x5C" using 2 by (auto simp: byte_def)
    ultimately show ?thesis
      by (elim disjE)
        (simp_all add: escape_ascii_def read_short [OF short_escapes(3) _ t] read_short [OF short_escapes(4) _ t]
          read_short [OF short_escapes(5) _ t] read_short [OF short_escapes(6) _ t]
          read_short [OF short_escapes(7) _ t] char_byte_eq)
  next
    case hex
    have lt: "byte c div 16 < 16" "byte c mod 16 < 16" using b by auto
    note hx = lower_hex_read [OF lt(1)] lower_hex_read [OF lt(2)]
    have "escape_ascii c = [CHR 0x5C, CHR ''u'', CHR ''0'', CHR ''0'', lower_hex (byte c div 16), lower_hex (byte c mod 16)]"
      using hex by (simp add: escape_ascii_def)
    moreover have "16 * (byte c div 16) + byte c mod 16 = byte c" by simp
    ultimately show ?thesis
      using b hx read_hex [OF zero_digit(1) zero_digit(1) _ _ t] by (simp add: zero_digit utf8_encode_def)
  next
    case plain
    then have "escape_ascii c = [c]" by (simp add: escape_ascii_def)
    with plain t show ?thesis by (simp add: read_plain)
  qed
qed

lemma read_high:
  assumes "\<forall>c \<in> set hs. byte c \<ge> 128" and "read_string t = Some (s, r)"
  shows "read_string (hs @ t) = Some (hs @ s, r)"
  using assms
proof (induction hs)
  case (Cons c hs)
  then have "byte c \<ge> 128" by simp
  then have "c \<noteq> CHR 0x22" "c \<noteq> CHR 0x5C" "\<not> byte c < 32" by (auto simp: byte_def)
  with Cons show ?case by (simp add: read_plain)
qed simp

lemma utf8_len_high:
  assumes "utf8_len s \<noteq> 0"
  shows "\<forall>c \<in> set (take (utf8_len s) s). byte c \<ge> 128"
proof -
  obtain a b r where s: "s = a # b # r"
    using assms by (cases s; cases "tl s") (auto simp: utf8_len_def)
  show ?thesis
  proof (cases r)
    case Nil
    with assms show ?thesis by (auto simp: s utf8_len_def cont_def split: if_splits)
  next
    case (Cons c r')
    show ?thesis
    proof (cases r')
      case Nil
      with Cons assms show ?thesis by (auto simp: s utf8_len_def cont_def split: if_splits)
    next
      case (Cons d r'')
      with \<open>r = c # r'\<close> assms show ?thesis by (auto simp: s utf8_len_def cont_def split: if_splits)
    qed
  qed
qed

lemma separator_bytes:
  "char_of (226 :: nat) = CHR 0xE2" "char_of (128 :: nat) = CHR 0x80"
  "char_of (168 :: nat) = CHR 0xA8" "char_of (169 :: nat) = CHR 0xA9"
  by (simp_all add: char_of_eq_iff)

lemma utf8_encode_separators:
  "utf8_encode (4096 * unhex (CHR ''2'') + 256 * unhex (CHR ''0'') + 16 * unhex (CHR ''2'') + unhex (CHR ''8'')) =
     [CHR 0xE2, CHR 0x80, CHR 0xA8]"
  "utf8_encode (4096 * unhex (CHR ''2'') + 256 * unhex (CHR ''0'') + 16 * unhex (CHR ''2'') + unhex (CHR ''9'')) =
     [CHR 0xE2, CHR 0x80, CHR 0xA9]"
  "is_hex (CHR ''2'')" "is_hex (CHR ''8'')" "is_hex (CHR ''9'')"
  by (simp_all add: utf8_encode_def unhex_def is_hex_def is_digit_def byte_def separator_bytes)

text \<open>A separator is a sequence of three bytes.\<close>

lemma separator_len:
  assumes "take 3 s = [CHR 0xE2, CHR 0x80, x]" and "128 \<le> byte x" "byte x \<le> 191"
  shows "utf8_len s = 3" "s = [CHR 0xE2, CHR 0x80, x] @ drop 3 s"
proof -
  show s: "s = [CHR 0xE2, CHR 0x80, x] @ drop 3 s" using assms(1) append_take_drop_id [of 3 s] by simp
  have "byte (CHR 0xE2) = 226" "byte (CHR 0x80) = 128" by (simp_all add: byte_def)
  then show "utf8_len s = 3"
    using assms(2,3) by (subst s) (cases "drop 3 s", auto simp: utf8_len_def cont_def)
qed

lemma json_roundtrip:
  "utf8_ok s \<Longrightarrow> read_string (json_body s @ CHR 0x22 # t) = Some (s, t)"
proof (induction s rule: json_body.induct)
  case (1 s)
  show ?case
  proof (cases s)
    case Nil
    then show ?thesis by (simp add: json_body.simps read_string.simps)
  next
    case (Cons c r)
    show ?thesis
    proof (cases "byte c < 128")
      case True
      with 1 Cons show ?thesis
        by (simp add: json_body.simps [of "c # r"] utf8_ok.simps [of "c # r"] read_escape)
    next
      case False
      have len: "utf8_len s \<noteq> 0" and ok: "utf8_ok (drop (utf8_len s) s)"
        using "1.prems" False unfolding Cons by (simp_all add: utf8_ok.simps [of "c # r"] split: if_splits)
      have b: "128 \<le> byte (CHR 0xA8)" "byte (CHR 0xA8) \<le> 191" "128 \<le> byte (CHR 0xA9)" "byte (CHR 0xA9) \<le> 191"
        by (simp_all add: byte_def)
      consider (s8) "take 3 s = [CHR 0xE2, CHR 0x80, CHR 0xA8]" | (s9) "take 3 s = [CHR 0xE2, CHR 0x80, CHR 0xA9]"
        | (other) "take 3 s \<noteq> [CHR 0xE2, CHR 0x80, CHR 0xA8]" "take 3 s \<noteq> [CHR 0xE2, CHR 0x80, CHR 0xA9]" by blast
      then show ?thesis
      proof cases
        case s8
        note sl = separator_len [OF s8 b(1,2)]
        have IH: "read_string (json_body (drop 3 s) @ CHR 0x22 # t) = Some (drop 3 s, t)"
          using "1.IH"(3) [OF Cons False len s8] ok sl(1) by simp
        have "json_body s = CHR 0x5C # ''u2028'' @ json_body (drop 3 s)"
          using False len s8 by (subst json_body.simps) (simp add: Cons)
        then have "read_string (json_body s @ CHR 0x22 # t) = Some ([CHR 0xE2, CHR 0x80, CHR 0xA8] @ drop 3 s, t)"
          using read_hex [OF utf8_encode_separators(3) zero_digit(1) utf8_encode_separators(3,4) IH,
              unfolded utf8_encode_separators(1)] by simp
        then show ?thesis unfolding sl(2) [symmetric] .
      next
        case s9
        note sl = separator_len [OF s9 b(3,4)]
        have n: "take 3 s \<noteq> [CHR 0xE2, CHR 0x80, CHR 0xA8]" using s9 by simp
        have IH: "read_string (json_body (drop 3 s) @ CHR 0x22 # t) = Some (drop 3 s, t)"
          using "1.IH"(4) [OF Cons False len n s9] ok sl(1) by simp
        have "json_body s = CHR 0x5C # ''u2029'' @ json_body (drop 3 s)"
          using False len n s9 by (subst json_body.simps) (simp add: Cons)
        then have "read_string (json_body s @ CHR 0x22 # t) = Some ([CHR 0xE2, CHR 0x80, CHR 0xA9] @ drop 3 s, t)"
          using read_hex [OF utf8_encode_separators(3) zero_digit(1) utf8_encode_separators(3,5) IH,
              unfolded utf8_encode_separators(2)] by simp
        then show ?thesis unfolding sl(2) [symmetric] .
      next
        case other
        have IH: "read_string (json_body (drop (utf8_len s) s) @ CHR 0x22 # t) = Some (drop (utf8_len s) s, t)"
          using "1.IH"(5) [OF Cons False len other ok] .
        have "json_body s = take (utf8_len s) s @ json_body (drop (utf8_len s) s)"
          using False len other by (subst json_body.simps) (auto simp: Cons)
        then show ?thesis using read_high [OF utf8_len_high [OF len] IH] by simp
      qed
    qed
  qed
qed

end
