(* ===== verification/Ctrl_Naming.thy ===== *)
theory Ctrl_Naming
  imports Ctrl_Types Go_Json
begin

text \<open>
  The pure parts of \<open>internal/controller/kubernetes/controller.go\<close>: names of mounted workspaces,
  the taints of control plane nodes, the status annotation.
\<close>

section \<open>Constants\<close>

definition kubernetesFinalizer :: string where
  "kubernetesFinalizer = ''dbaas.mongodb.com/kubernetes-mount''"

definition controlPlaneNoScheduleTaintKey :: string where
  "controlPlaneNoScheduleTaintKey = ''node-role.kubernetes.io/control-plane''"

definition annotationStatus :: string where
  "annotationStatus = ''dbaas.mongodb.com/status''"

section \<open>Names\<close>

fun firstNonEmpty :: "string list \<Rightarrow> string" where
  "firstNonEmpty [] = []"
| "firstNonEmpty (value1 # values) = (if value1 \<noteq> [] then value1 else firstNonEmpty values)"

definition deriveMountedWorkspaceName :: "string \<Rightarrow> string \<Rightarrow> string" where
  "deriveMountedWorkspaceName remoteName remoteNamespace =
     (if remoteNamespace = [] \<or> remoteNamespace = ''default'' then remoteName
      else remoteName @ ''-'' @ hex_encode (take 4 (sha1_sum (remoteNamespace @ ''/'' @ remoteName))))"

text \<open>The three lines \<open>Reconcile\<close> and \<open>reconcileDelete\<close> share.\<close>

definition remoteName :: "kubernetes \<Rightarrow> string" where
  "remoteName obj =
     firstNonEmpty [gm_string (ku_annotations obj) ''syncagent.kcp.io/remote-object-name'', ku_name obj]"

definition remoteNamespace :: "kubernetes \<Rightarrow> string" where
  "remoteNamespace obj =
     firstNonEmpty [gm_string (ku_annotations obj) ''syncagent.kcp.io/remote-object-namespace'', ''default'']"

definition mountedWorkspace :: "kubernetes \<Rightarrow> string" where
  "mountedWorkspace obj = deriveMountedWorkspaceName (remoteName obj) (remoteNamespace obj)"

text \<open>The name is the remote name, or that with a dash and eight lower-case hex digits.\<close>

lemma derive_default: "deriveMountedWorkspaceName n ''default'' = n" "deriveMountedWorkspaceName n [] = n"
  by (simp_all add: deriveMountedWorkspaceName_def)

lemma derive_other:
  assumes "ns \<noteq> []" "ns \<noteq> ''default''"
  shows "\<exists>h. deriveMountedWorkspaceName n ns = n @ ''-'' @ h \<and> length h = 8 \<and> list_all is_lower_hex h"
  using assms hex_encode_ok sha1_sum_length by (simp add: deriveMountedWorkspaceName_def)

lemma derive_longer:
  assumes "ns \<noteq> []" "ns \<noteq> ''default''"
  shows "length (deriveMountedWorkspaceName n ns) = length n + 9"
proof -
  obtain h where "deriveMountedWorkspaceName n ns = n @ ''-'' @ h" "length h = 8"
    using derive_other [OF assms, of n] by blast
  then show ?thesis by simp
qed

text \<open>A name is derived from one remote name within a namespace.\<close>

lemma derive_inject:
  "deriveMountedWorkspaceName n ns = deriveMountedWorkspaceName n' ns \<longleftrightarrow> n = n'"
proof (cases "ns = [] \<or> ns = ''default''")
  case True
  then show ?thesis by (auto simp: derive_default)
next
  case False
  then have ns: "ns \<noteq> []" "ns \<noteq> ''default''" by auto
  obtain h where h: "deriveMountedWorkspaceName n ns = n @ ''-'' @ h" "length h = 8"
    using derive_other [OF ns, of n] by blast
  obtain h' where h': "deriveMountedWorkspaceName n' ns = n' @ ''-'' @ h'" "length h' = 8"
    using derive_other [OF ns, of n'] by blast
  from h(2) h'(2) have len: "length (''-'' @ h) = length (''-'' @ h')" by simp
  then have "n @ (''-'' @ h) = n' @ (''-'' @ h') \<Longrightarrow> n = n'"
    by (metis append_eq_append_conv)
  with h(1) h'(1) show ?thesis by metis
qed

text \<open>
  Different namespaces can clash: an object of the default namespace may carry a name that another
  one derives.
\<close>

lemma derive_clash:
  "deriveMountedWorkspaceName (deriveMountedWorkspaceName n ns) ''default'' = deriveMountedWorkspaceName n ns"
  by (rule derive_default)

text \<open>
  A DNS label (RFC 1123), a name that can stand in a path, a label value and a host name: at most 63
  lower-case letters, digits and dashes, no dash at either end.
\<close>

definition label_char :: "char \<Rightarrow> bool" where
  "label_char c = (is_lower c \<or> is_digit c \<or> c = CHR ''-'')"

definition dns_label :: "string \<Rightarrow> bool" where
  "dns_label s = (s \<noteq> [] \<and> length s \<le> 63 \<and> list_all label_char s \<and> hd s \<noteq> CHR ''-'' \<and> last s \<noteq> CHR ''-'')"

lemma lower_hex_label: "is_lower_hex c \<Longrightarrow> label_char c \<and> c \<noteq> CHR ''-''"
  by (auto simp: is_lower_hex_def label_char_def is_lower_def is_digit_def byte_def)

lemma derive_label:
  assumes "dns_label n"
  shows "dns_label (deriveMountedWorkspaceName n ns) \<longleftrightarrow> ns = [] \<or> ns = ''default'' \<or> length n \<le> 54"
proof (cases "ns = [] \<or> ns = ''default''")
  case True
  with assms show ?thesis by (auto simp: derive_default)
next
  case False
  then have ns: "ns \<noteq> []" "ns \<noteq> ''default''" by auto
  obtain h where h: "deriveMountedWorkspaceName n ns = n @ ''-'' @ h" "length h = 8" "list_all is_lower_hex h"
    using derive_other [OF ns, of n] by blast
  from h(2) have "h \<noteq> []" by auto
  moreover have "last h \<noteq> CHR ''-''"
    using h(3) lower_hex_label last_in_set [OF \<open>h \<noteq> []\<close>] by (auto simp: list_all_iff)
  moreover have "list_all label_char h" using h(3) lower_hex_label by (auto simp: list_all_iff)
  moreover have "label_char (CHR ''-'')" by (simp add: label_char_def)
  ultimately show ?thesis
    using assms h(2) ns unfolding h(1) by (auto simp: dns_label_def)
qed

text \<open>No separator of a workspace path or of a URL path comes in.\<close>

lemma derive_separators:
  assumes "c = CHR '':'' \<or> c = CHR ''/''"
  shows "c \<in> set (deriveMountedWorkspaceName n ns) \<longleftrightarrow> c \<in> set n"
proof (cases "ns = [] \<or> ns = ''default''")
  case True
  then show ?thesis by (auto simp: derive_default)
next
  case False
  then obtain h where h: "deriveMountedWorkspaceName n ns = n @ ''-'' @ h" "list_all is_lower_hex h"
    using derive_other [of ns n] by blast
  have "\<not> is_lower_hex c" using assms by (auto simp: is_lower_hex_def is_digit_def byte_def)
  then have "c \<notin> set h" using h(2) by (auto simp: list_all_iff)
  then show ?thesis using assms unfolding h(1) by auto
qed

section \<open>Control plane taints\<close>

text \<open>The loop: the taints kept, and the flags \<open>changed\<close> and \<open>found\<close>.\<close>

fun taintLoop ::
  "'w ctrl_platform \<Rightarrow> bool \<Rightarrow> taint list \<Rightarrow> taint list \<times> bool \<times> bool \<Rightarrow> taint list \<times> bool \<times> bool" where
  "taintLoop Q allow [] st = st"
| "taintLoop Q allow (taint1 # taints) (updated, changed, found) =
     (if ta_key taint1 = controlPlaneNoScheduleTaintKey \<and> ta_effect taint1 = cp_noSchedule Q then
        (if allow then taintLoop Q allow taints (updated, True, True)
         else taintLoop Q allow taints (updated @ [taint1], changed, True))
      else taintLoop Q allow taints (updated @ [taint1], changed, found))"

definition controlPlaneTaint :: "'w ctrl_platform \<Rightarrow> taint" where
  "controlPlaneTaint Q =
     \<lparr>ta_key = controlPlaneNoScheduleTaintKey, ta_value = [], ta_effect = cp_noSchedule Q,
      ta_timeAdded = None\<rparr>"

definition desiredControlPlaneTaints ::
  "'w ctrl_platform \<Rightarrow> taint list \<Rightarrow> bool \<Rightarrow> taint list \<times> bool" where
  "desiredControlPlaneTaints Q taints allow =
     (case taintLoop Q allow taints ([], False, False) of (updated, changed, found) \<Rightarrow>
        if \<not> allow \<and> \<not> found then (updated @ [controlPlaneTaint Q], True) else (updated, changed))"

definition blocks_scheduling :: "'w ctrl_platform \<Rightarrow> taint \<Rightarrow> bool" where
  "blocks_scheduling Q t = (ta_key t = controlPlaneNoScheduleTaintKey \<and> ta_effect t = cp_noSchedule Q)"

text \<open>
  The reference: without the taint when pods may be scheduled, with it otherwise, the rest in
  order.
\<close>

definition taints_spec :: "'w ctrl_platform \<Rightarrow> taint list \<Rightarrow> bool \<Rightarrow> taint list" where
  "taints_spec Q ts allow =
     (if allow then filter (\<lambda>t. \<not> blocks_scheduling Q t) ts
      else if list_ex (blocks_scheduling Q) ts then ts
      else ts @ [controlPlaneTaint Q])"

lemma taintLoop_eq:
  "taintLoop Q allow ts (u, c, f) =
     (u @ filter (\<lambda>t. \<not> (allow \<and> blocks_scheduling Q t)) ts,
      c \<or> allow \<and> list_ex (blocks_scheduling Q) ts, f \<or> list_ex (blocks_scheduling Q) ts)"
  by (induction ts arbitrary: u c f) (auto simp: blocks_scheduling_def)

lemma desired_taints_spec:
  "desiredControlPlaneTaints Q ts allow = (taints_spec Q ts allow, taints_spec Q ts allow \<noteq> ts)"
proof -
  have "filter (\<lambda>t. \<not> blocks_scheduling Q t) ts = ts \<longleftrightarrow> \<not> list_ex (blocks_scheduling Q) ts"
    by (auto simp: filter_id_conv list_ex_iff)
  then show ?thesis
    by (auto simp: desiredControlPlaneTaints_def taintLoop_eq taints_spec_def split: prod.split)
qed

lemma controlPlaneTaint_blocks [simp]: "blocks_scheduling Q (controlPlaneTaint Q)"
  by (simp add: blocks_scheduling_def controlPlaneTaint_def)

lemma taints_spec_blocks: "list_ex (blocks_scheduling Q) (taints_spec Q ts allow) \<longleftrightarrow> \<not> allow"
  by (auto simp: taints_spec_def list_ex_iff)

lemma taints_spec_others:
  "filter (\<lambda>t. \<not> blocks_scheduling Q t) (taints_spec Q ts allow) = filter (\<lambda>t. \<not> blocks_scheduling Q t) ts"
  by (simp add: taints_spec_def)

lemma taints_spec_idem: "taints_spec Q (taints_spec Q ts allow) allow = taints_spec Q ts allow"
  by (auto simp: taints_spec_def list_ex_iff)

section \<open>The status annotation\<close>

record status_annotation =
  sta_phase :: string
  sta_ready :: bool
  sta_url :: string
  sta_mountedWorkspace :: string

definition quote :: string where
  "quote = [CHR 0x22]"

definition json_key :: "string \<Rightarrow> string" where
  "json_key k = quote @ k @ quote @ '':''"

definition status_json :: "status_annotation \<Rightarrow> string" where
  "status_json st =
     ''{'' @ json_key ''phase'' @ json_string (sta_phase st) @
     '','' @ json_key ''ready'' @ json_bool (sta_ready st) @
     '','' @ json_key ''url'' @ json_string (sta_url st) @
     '','' @ json_key ''mountedWorkspace'' @ json_string (sta_mountedWorkspace st) @ ''}''"

text \<open>A reader of the annotation.\<close>

definition expect :: "string \<Rightarrow> string \<Rightarrow> string option" where
  "expect lit s = (if has_prefix s lit then Some (drop (length lit) s) else None)"

definition read_bool :: "string \<Rightarrow> (bool \<times> string) option" where
  "read_bool s =
     (case expect ''true'' s of Some t \<Rightarrow> Some (True, t)
      | None \<Rightarrow> map_option (\<lambda>t. (False, t)) (expect ''false'' s))"

definition read_status :: "string \<Rightarrow> status_annotation option" where
  "read_status s0 =
     Option.bind (expect (''{'' @ json_key ''phase'' @ quote) s0) (\<lambda>s1.
     Option.bind (read_string s1) (\<lambda>(phase, s2).
     Option.bind (expect ('','' @ json_key ''ready'') s2) (\<lambda>s3.
     Option.bind (read_bool s3) (\<lambda>(ready, s4).
     Option.bind (expect ('','' @ json_key ''url'' @ quote) s4) (\<lambda>s5.
     Option.bind (read_string s5) (\<lambda>(url1, s6).
     Option.bind (expect ('','' @ json_key ''mountedWorkspace'' @ quote) s6) (\<lambda>s7.
     Option.bind (read_string s7) (\<lambda>(mw, s8).
     if s8 = ''}'' then Some \<lparr>sta_phase = phase, sta_ready = ready, sta_url = url1,
       sta_mountedWorkspace = mw\<rparr> else None))))))))"

lemma expect_append [simp]: "expect lit (lit @ s) = Some s"
  by (simp add: expect_def)

lemma read_bool_json: "read_bool (json_bool b @ s) = Some (b, s)"
  by (cases b) (simp_all add: read_bool_def json_bool_def expect_def)

definition status_utf8 :: "status_annotation \<Rightarrow> bool" where
  "status_utf8 st = (utf8_ok (sta_phase st) \<and> utf8_ok (sta_url st) \<and> utf8_ok (sta_mountedWorkspace st))"

lemma read_status_json:
  assumes "status_utf8 st"
  shows "read_status (status_json st) = Some st"
proof -
  have str: "json_string s @ t = quote @ json_body s @ CHR 0x22 # t" for s t
    by (simp add: json_string_def quote_def)
  note rt = json_roundtrip
  have "status_json st = (''{'' @ json_key ''phase'' @ quote) @ json_body (sta_phase st) @ CHR 0x22 #
     (('','' @ json_key ''ready'') @ json_bool (sta_ready st) @
     ('','' @ json_key ''url'' @ quote) @ json_body (sta_url st) @ CHR 0x22 #
     (('','' @ json_key ''mountedWorkspace'' @ quote) @ json_body (sta_mountedWorkspace st) @ CHR 0x22 # ''}''))"
    by (simp add: status_json_def str)
  then show ?thesis
    using assms unfolding read_status_def status_utf8_def
    by (simp only: expect_append rt read_bool_json bind.bind_lunit prod.case) simp
qed

lemma status_json_inject:
  "status_utf8 st \<Longrightarrow> status_utf8 st' \<Longrightarrow> status_json st = status_json st' \<longleftrightarrow> st = st'"
  by (metis option.inject read_status_json)

end
