(* ===== verification/Ctrl_Reconcile.thy ===== *)
theory Ctrl_Reconcile
  imports Ctrl_Naming
begin

text \<open>
  \<open>internal/controller/kubernetes/controller.go\<close>: the operations of the Kubernetes controller, in
  the order of the file's calls.  A reconcile is a call over the world that holds the management
  cluster (\<open>re_manager\<close>, \<open>re_k8s\<close>), kcp (\<open>re_kcp\<close>) and the workload clusters.
\<close>

section \<open>Tenant workspaces in kcp\<close>

definition kcpClientForWorkspaceC :: "'w ctrl_platform \<Rightarrow> reconciler \<Rightarrow> string \<Rightarrow> go_error + rest_config" where
  "kcpClientForWorkspaceC Q r workspacePath =
     (case url_parse (rc_host (re_kcp r)) of
        Inl e \<Rightarrow> Inl (wrapf ''parsing kcp host %q: %w'' [rc_host (re_kcp r)] e)
      | Inr u \<Rightarrow>
          let base = url_string (u\<lparr>u_path := [], u_raw_query := [], u_fragment := []\<rparr>);
              cfg = (re_kcp r)\<lparr>rc_host := trim_suffix base ''/'' @ ''/clusters/'' @ workspacePath\<rparr>
          in client_or_error (kcp_new (cp_base Q) cfg) cfg)"

text \<open>The loop: the first workspace that is the logical cluster.\<close>

definition is_cluster :: "string \<Rightarrow> workspace \<Rightarrow> bool" where
  "is_cluster clusterID ws \<longleftrightarrow>
     ws_cluster ws = clusterID \<or>
     gm_string (ws_annotations ws) ''internal.tenancy.kcp.io/cluster'' = clusterID"

fun findCluster :: "reconciler \<Rightarrow> string \<Rightarrow> workspace list \<Rightarrow> string" where
  "findCluster r clusterID [] = []"
| "findCluster r clusterID (ws # wss) =
     (if is_cluster clusterID ws then re_consumers r @ '':'' @ ws_name ws
      else findCluster r clusterID wss)"

definition consumerWorkspacePathForCluster ::
  "'w ctrl_platform \<Rightarrow> reconciler \<Rightarrow> string \<Rightarrow> ('w, string) prog" where
  "consumerWorkspacePathForCluster Q r clusterID =
     or_fail (lift_sum (kcpClientForWorkspaceC Q r (re_consumers r))) (\<lambda>e. e) (\<lambda>clientset.
     or_fail (rlist (p_workspaces (cp_base Q)) clientset [])
       (wrap_api ''listing consumer workspaces: %w'' []) (\<lambda>items.
     ret (findCluster r clusterID items)))"

definition mountedWorkspaceObject :: "string \<Rightarrow> string \<Rightarrow> string \<Rightarrow> workspace" where
  "mountedWorkspaceObject mountedWs remoteNm remoteNs =
     \<lparr>ws_apiVersion = ''tenancy.kcp.io/v1alpha1'', ws_kind = ''Workspace'', ws_name = mountedWs,
      ws_annotations = None, ws_deletion = None, ws_type = None,
      ws_mount = Some \<lparr>mr_apiVersion = ''kro.run/v1alpha1'', mr_kind = ''Kubernetes'',
        mr_name = remoteNm, mr_namespace = remoteNs\<rparr>,
      ws_cluster = [], ws_url = [], ws_phase = []\<rparr>"

definition mounts :: "string \<Rightarrow> string \<Rightarrow> workspace \<Rightarrow> bool" where
  "mounts remoteNm remoteNs ws =
     (case ws_mount ws of None \<Rightarrow> False
      | Some m \<Rightarrow> mr_name m = remoteNm \<and> mr_namespace m = remoteNs)"

definition ensureMountedWorkspace ::
  "'w ctrl_platform \<Rightarrow> reconciler \<Rightarrow> string \<Rightarrow> string \<Rightarrow> string \<Rightarrow> string \<Rightarrow> ('w, unit) prog" where
  "ensureMountedWorkspace Q r clusterID mountedWs remoteNm remoteNs =
     or_fail (consumerWorkspacePathForCluster Q r clusterID) (\<lambda>e. e) (\<lambda>path.
     if path = [] then
       fail (errorf ''no tenant workspace found for logical cluster %q'' [clusterID])
     else
     or_fail (lift_sum (kcpClientForWorkspaceC Q r path)) (\<lambda>e. e) (\<lambda>clientset.
     on_result (rget (p_workspaces (cp_base Q)) clientset ([], mountedWs)) (\<lambda>res. case res of
       Inr existing \<Rightarrow>
         if mounts remoteNm remoteNs existing then ret ()
         else fail (errorf ''workspace %q already exists in %s with a different mount reference''
                [mountedWs, path])
     | Inl e \<Rightarrow>
         if e \<noteq> NotFound then fail (wrap_api ''getting mounted workspace %q: %w'' [mountedWs] e)
         else
           on_result (rcreate (p_workspaces (cp_base Q)) clientset []
               (mountedWorkspaceObject mountedWs remoteNm remoteNs)) (\<lambda>res'. case res' of
             Inl e' \<Rightarrow>
               if e' \<noteq> AlreadyExists
               then fail (wrap_api ''creating mounted workspace %q in %s: %w'' [mountedWs, path] e')
               else ret ()
           | Inr _ \<Rightarrow> ret ()))))"

definition deleteMountedWorkspace ::
  "'w ctrl_platform \<Rightarrow> reconciler \<Rightarrow> string \<Rightarrow> string \<Rightarrow> ('w, unit) prog" where
  "deleteMountedWorkspace Q r clusterID mountedWs =
     or_fail (consumerWorkspacePathForCluster Q r clusterID) (\<lambda>e. e) (\<lambda>path.
     if path = [] then ret ()
     else
     or_fail (lift_sum (kcpClientForWorkspaceC Q r path)) (\<lambda>e. e) (\<lambda>clientset.
     on_result (rdelete (p_workspaces (cp_base Q)) clientset ([], mountedWs)) (\<lambda>res. case res of
       Inl e \<Rightarrow>
         if e \<noteq> NotFound then fail (wrap_api ''deleting mounted workspace %q: %w'' [mountedWs] e)
         else ret ()
     | Inr _ \<Rightarrow> ret ())))"

section \<open>The management cluster\<close>

definition workloadClusterPhase ::
  "'w ctrl_platform \<Rightarrow> reconciler \<Rightarrow> string \<Rightarrow> string \<Rightarrow> ('w, bool \<times> string) prog" where
  "workloadClusterPhase Q r namespace name =
     on_result (rget (cp_clusters Q) (re_manager r) (namespace, name)) (\<lambda>res. case res of
       Inl e \<Rightarrow>
         if e = NotFound then ret (False, ''Initializing'')
         else fail (wrap_api ''getting CAPI Cluster %s/%s: %w'' [namespace, name] e)
     | Inr cluster \<Rightarrow>
         if cp_conditionTrue Q (cl_conditions cluster) ''Available'' then ret (True, ''Ready'')
         else if cl_phase cluster \<noteq> [] then ret (False, ''Connecting'')
         else ret (False, ''Initializing''))"

definition kubeconfigKey :: "string \<Rightarrow> string \<Rightarrow> objkey" where
  "kubeconfigKey namespace name = (namespace, name @ ''-kubeconfig'')"

definition clusterKubeconfigExists ::
  "'w ctrl_platform \<Rightarrow> reconciler \<Rightarrow> string \<Rightarrow> string \<Rightarrow> ('w, bool) prog" where
  "clusterKubeconfigExists Q r namespace name =
     on_result (rget (p_secrets (cp_base Q)) (re_k8s r) (kubeconfigKey namespace name)) (\<lambda>res. case res of
       Inr _ \<Rightarrow> ret True
     | Inl e \<Rightarrow>
         if e = NotFound then ret False
         else fail (wrap_api ''getting kubeconfig secret for %s/%s: %w'' [namespace, name] e))"

definition workloadRESTConfig ::
  "'w ctrl_platform \<Rightarrow> reconciler \<Rightarrow> string \<Rightarrow> string \<Rightarrow> ('w, rest_config) prog" where
  "workloadRESTConfig Q r namespace name =
     or_fail (rget (p_secrets (cp_base Q)) (re_k8s r) (kubeconfigKey namespace name))
       (wrap_api ''getting kubeconfig secret %s/%s-kubeconfig: %w'' [namespace, name]) (\<lambda>sec.
     or_fail (lift_sum (cp_restConfig Q (gm_string (sec_data sec) ''value'')))
       (wrapf ''building workload kubeconfig for %s/%s: %w'' [namespace, name]) ret)"

section \<open>The workload cluster\<close>

definition boolPtr :: "bool \<Rightarrow> bool option" where
  "boolPtr value1 = Some value1"

definition gvkString :: "manifest_object \<Rightarrow> string" where
  "gvkString u = mo_group u @ ''/'' @ mo_version u @ '', Kind='' @ mo_kind u"

definition applyObject ::
  "'w ctrl_platform \<Rightarrow> rest_config \<Rightarrow> manifest_object \<Rightarrow> ('w, unit) prog" where
  "applyObject Q cfg u =
     or_fail (cp_mapping Q cfg (mo_group u, mo_kind u) (mo_version u))
       (wrapf ''mapping %s: %w'' [gvkString u]) (\<lambda>(resource1, namespaced).
     or_fail (lift_sum (mo_json u)) (wrapf ''marshalling %s %s: %w'' [mo_kind u, mo_name u]) (\<lambda>body.
     or_fail (cp_apply Q cfg resource1 (if namespaced then Some (mo_namespace u) else None)
         (mo_name u) body (''dbaas-kubernetes-controller'', boolPtr True))
       (wrap_api ''applying %s %s: %w'' [mo_kind u, mo_name u]) ret))"

text \<open>The loop over the decoder; the end of the list is \<open>io.EOF\<close>.\<close>

fun applyManifest ::
  "'w ctrl_platform \<Rightarrow> rest_config \<Rightarrow> (go_error + manifest_object) list \<Rightarrow> ('w, unit) prog" where
  "applyManifest Q cfg [] = ret ()"
| "applyManifest Q cfg (d # ds) =
     or_fail (lift_sum d) (wrapf ''decoding calico manifest: %w'' []) (\<lambda>u.
     if mo_keys u = 0 then applyManifest Q cfg ds
     else or_fail (applyObject Q cfg u) (\<lambda>e. e) (\<lambda>_. applyManifest Q cfg ds))"

definition ensureCalicoInstalled ::
  "'w ctrl_platform \<Rightarrow> reconciler \<Rightarrow> string \<Rightarrow> string \<Rightarrow> ('w, unit) prog" where
  "ensureCalicoInstalled Q r namespace name =
     or_fail (rget (cp_configmaps Q) (re_k8s r) (''default'', ''dbaas-calico''))
       (wrap_api ''getting dbaas-calico configmap: %w'' []) (\<lambda>cm.
     let manifest = gm_string (cm_data cm) ''calico.yaml'' in
     if manifest = [] then fail (errorf ''configmap dbaas-calico is missing calico.yaml'' [])
     else
     or_fail (workloadRESTConfig Q r namespace name) (\<lambda>e. e) (\<lambda>cfg.
     or_fail (lift_sum (client_or_error (dyn_new (cp_base Q) cfg) cfg))
       (wrapf ''building workload dynamic client: %w'' []) (\<lambda>_.
     or_fail (lift_sum (client_or_error (cp_discovery_new Q cfg) cfg))
       (wrapf ''building workload discovery client: %w'' []) (\<lambda>_.
     applyManifest Q cfg (cp_decode Q manifest)))))"

text \<open>The loop over the nodes: a node whose taints are as wanted is not written.\<close>

definition reconcileNode ::
  "'w ctrl_platform \<Rightarrow> rest_config \<Rightarrow> bool \<Rightarrow> node \<Rightarrow> ('w, unit) prog" where
  "reconcileNode Q cfg allow nd =
     (case desiredControlPlaneTaints Q (no_taints nd) allow of (updated, changed) \<Rightarrow>
        if \<not> changed then ret ()
        else or_fail (cp_updateNode Q cfg (nd\<lparr>no_taints := updated\<rparr>))
          (wrap_api ''updating taints for node %s: %w'' [no_name nd]) (\<lambda>_. ret ()))"

definition allowScheduling :: "kubernetes \<Rightarrow> bool" where
  "allowScheduling obj = (case ks_allowScheduling (ku_spec obj) of None \<Rightarrow> True | Some b \<Rightarrow> b)"

definition reconcileControlPlaneScheduling ::
  "'w ctrl_platform \<Rightarrow> reconciler \<Rightarrow> kubernetes \<Rightarrow> ('w, unit) prog" where
  "reconcileControlPlaneScheduling Q r obj =
     or_fail (workloadRESTConfig Q r (ku_namespace obj) (ku_name obj)) (\<lambda>e. e) (\<lambda>cfg.
     or_fail (lift_sum (client_or_error (kube_new (cp_base Q) cfg) cfg))
       (wrapf ''building workload kubernetes client: %w'' []) (\<lambda>workloadClient.
     or_fail (cp_listNodes Q workloadClient ''node-role.kubernetes.io/control-plane'')
       (wrap_api ''listing control-plane nodes: %w'' []) (\<lambda>nodes.
     for_each (reconcileNode Q workloadClient (allowScheduling obj)) nodes)))"

section \<open>The status annotation\<close>

definition patchStatusAnnotation ::
  "'w ctrl_platform \<Rightarrow> reconciler \<Rightarrow> string \<Rightarrow> string \<Rightarrow> status_annotation \<Rightarrow> ('w, unit) prog" where
  "patchStatusAnnotation Q r namespace name st =
     on_result (rget (cp_clusters Q) (re_manager r) (namespace, name)) (\<lambda>res. case res of
       Inl e \<Rightarrow>
         if e = NotFound then ret ()
         else fail (wrap_api ''getting CAPI Cluster %s/%s for annotation: %w'' [namespace, name] e)
     | Inr cluster \<Rightarrow>
         let desired = status_json st; annotations = cl_annotations cluster in
         if annotations \<noteq> None \<and> gm_string annotations annotationStatus = desired then ret ()
         else
           or_fail (cp_patchCluster Q (re_manager r) cluster
               (cluster\<lparr>cl_annotations := gm_put annotations annotationStatus desired\<rparr>))
             (wrap_api ''patching CAPI Cluster status annotation: %w'' []) (\<lambda>_. ret ()))"

section \<open>Reconcile\<close>

definition updateObject ::
  "'w ctrl_platform \<Rightarrow> reconciler \<Rightarrow> kubernetes \<Rightarrow> ('w, api_error, kubernetes) call" where
  "updateObject Q r obj = rupdate (cp_kubes Q) (re_manager r) (ku_namespace obj) obj"

definition reconcileDelete ::
  "'w ctrl_platform \<Rightarrow> reconciler \<Rightarrow> kubernetes \<Rightarrow> ('w, ctrl_result) prog" where
  "reconcileDelete Q r obj =
     (if \<not> cp_containsFinalizer Q (ku_finalizers obj) kubernetesFinalizer then ret Done
      else
      or_fail (deleteMountedWorkspace Q r (ku_namespace obj) (mountedWorkspace obj)) (\<lambda>e. e) (\<lambda>_.
      case cp_removeFinalizer Q (ku_finalizers obj) kubernetesFinalizer of (fs, removed) \<Rightarrow>
        if removed then
          or_fail (updateObject Q r (obj\<lparr>ku_finalizers := fs\<rparr>))
            (wrap_api ''removing finalizer: %w'' []) (\<lambda>_. ret Done)
        else ret Done))"

definition statusURL :: "reconciler \<Rightarrow> kubernetes \<Rightarrow> string" where
  "statusURL r obj =
     trim_suffix (re_proxyBaseURL r) ''/'' @ ''/mounts/'' @ ku_namespace obj @ ''/'' @ ku_name obj"

text \<open>
  The part of \<open>Reconcile\<close> after the finalizer is in place.  \<open>connectWorkload\<close> is its block for an
  existing kubeconfig, \<open>exposeCluster\<close> the block that mounts the workspace and chooses phase and URL.
\<close>

definition connectWorkload ::
  "'w ctrl_platform \<Rightarrow> reconciler \<Rightarrow> kubernetes \<Rightarrow> bool \<Rightarrow> ('w, unit) prog" where
  "connectWorkload Q r obj kubeconfigReady =
     (if kubeconfigReady then
        or_fail (ensureCalicoInstalled Q r (ku_namespace obj) (ku_name obj)) (\<lambda>e. e) (\<lambda>_.
        reconcileControlPlaneScheduling Q r obj)
      else ret ())"

definition exposeCluster ::
  "'w ctrl_platform \<Rightarrow> reconciler \<Rightarrow> kubernetes \<Rightarrow> bool \<Rightarrow> bool \<Rightarrow> string \<Rightarrow> ('w, string \<times> string) prog" where
  "exposeCluster Q r obj clusterReady kubeconfigReady phase =
     (if clusterReady \<and> kubeconfigReady then
        or_fail (ensureMountedWorkspace Q r (ku_namespace obj) (mountedWorkspace obj) (remoteName obj)
            (remoteNamespace obj)) (\<lambda>e. e) (\<lambda>_.
        ret (''Ready'', statusURL r obj))
      else if clusterReady then ret (''Connecting'', [])
      else ret (phase, []))"

definition reconcilePresent ::
  "'w ctrl_platform \<Rightarrow> reconciler \<Rightarrow> kubernetes \<Rightarrow> ('w, ctrl_result) prog" where
  "reconcilePresent Q r obj =
     or_fail (workloadClusterPhase Q r (ku_namespace obj) (ku_name obj)) (\<lambda>e. e) (\<lambda>(clusterReady, phase).
     or_fail (clusterKubeconfigExists Q r (ku_namespace obj) (ku_name obj)) (\<lambda>e. e) (\<lambda>kubeconfigReady.
     or_fail (connectWorkload Q r obj kubeconfigReady) (\<lambda>e. e) (\<lambda>_.
     or_fail (exposeCluster Q r obj clusterReady kubeconfigReady phase) (\<lambda>e. e) (\<lambda>(phase', url1).
     or_fail (patchStatusAnnotation Q r (ku_namespace obj) (ku_name obj)
         \<lparr>sta_phase = phase', sta_ready = (clusterReady \<and> kubeconfigReady), sta_url = url1,
          sta_mountedWorkspace = mountedWorkspace obj\<rparr>) (\<lambda>e. e) (\<lambda>_.
     ret (RequeueAfter 15))))))"

definition Reconcile ::
  "'w ctrl_platform \<Rightarrow> reconciler \<Rightarrow> objkey \<Rightarrow> ('w, ctrl_result) prog" where
  "Reconcile Q r req =
     on_result (rget (cp_kubes Q) (re_manager r) req) (\<lambda>res. case res of
       Inl e \<Rightarrow> if e = NotFound then ret Done else fail (ApiErr e)
     | Inr obj \<Rightarrow>
         if ku_deletion obj \<noteq> None then reconcileDelete Q r obj
         else
           (case cp_addFinalizer Q (ku_finalizers obj) kubernetesFinalizer of (fs, added) \<Rightarrow>
              if added then
                or_fail (updateObject Q r (obj\<lparr>ku_finalizers := fs\<rparr>))
                  (wrap_api ''adding finalizer: %w'' []) (reconcilePresent Q r)
              else reconcilePresent Q r (obj\<lparr>ku_finalizers := fs\<rparr>)))"

end
