(* ===== verification/Mount_Proxy.thy ===== *)
theory Mount_Proxy
  imports Ctrl_Reconcile
begin

text \<open>
  \<open>internal/controller/kubernetes/mount_proxy.go\<close>: the HTTP proxy behind the published status URL.  The
  handler answers with an error or hands a rewritten request to the transport of the workload
  cluster; the round trip itself is not under \<open>src/\<close>.
\<close>

section \<open>Requests\<close>

record proxy_request =
  px_url :: url
  px_host :: string
  px_remote :: string
  px_tls :: bool
  px_header :: "string list gomap" \<comment> \<open>by canonical name\<close>

datatype proxy_response = ProxyError nat string | Forward rest_config proxy_request

definition header_set :: "string \<Rightarrow> string \<Rightarrow> proxy_request \<Rightarrow> proxy_request" where
  "header_set k v req = req\<lparr>px_header := AList.update k [v] (px_header req)\<rparr>"

definition header_del :: "string \<Rightarrow> proxy_request \<Rightarrow> proxy_request" where
  "header_del k req = req\<lparr>px_header := AList.delete k (px_header req)\<rparr>"

text \<open>
  What \<open>httputil.ReverseProxy\<close> does about forwarding headers before it calls \<open>Rewrite\<close>, and
  \<open>ProxyRequest.SetXForwarded\<close>.
\<close>

definition stripForwarding :: "proxy_request \<Rightarrow> proxy_request" where
  "stripForwarding req =
     header_del ''Forwarded'' (header_del ''X-Forwarded-For'' (header_del ''X-Forwarded-Host''
       (header_del ''X-Forwarded-Proto'' req)))"

fun join_comma :: "string list \<Rightarrow> string" where
  "join_comma [] = []"
| "join_comma [a] = a"
| "join_comma (a # b # l) = a @ '', '' @ join_comma (b # l)"

definition setXForwarded :: "proxy_request \<Rightarrow> proxy_request \<Rightarrow> proxy_request" where
  "setXForwarded inReq out =
     (let out1 = (case split_host_port (px_remote inReq) of
          Inl _ \<Rightarrow> header_del ''X-Forwarded-For'' out
        | Inr (clientIP, _) \<Rightarrow>
            header_set ''X-Forwarded-For''
              (case map_of (px_header out) ''X-Forwarded-For'' of
                 None \<Rightarrow> clientIP
               | Some prior \<Rightarrow> if prior = [] then clientIP else join_comma prior @ '', '' @ clientIP) out)
      in header_set ''X-Forwarded-Proto'' (if px_tls inReq then ''https'' else ''http'')
           (header_set ''X-Forwarded-Host'' (px_host inReq) out1))"

section \<open>The handler\<close>

definition joinURLPath :: "string \<Rightarrow> string \<Rightarrow> string" where
  "joinURLPath basePath requestPath =
     (if has_suffix basePath ''/'' \<and> has_prefix requestPath ''/''
      then basePath @ trim_prefix requestPath ''/''
      else if \<not> has_suffix basePath ''/'' \<and> \<not> has_prefix requestPath ''/''
      then basePath @ ''/'' @ requestPath
      else basePath @ requestPath)"

text \<open>Namespace, name and upstream path of a request path.\<close>

definition mountRoute :: "string \<Rightarrow> (string \<times> string \<times> string) option" where
  "mountRoute path =
     (case split_n 3 (trim_prefix path ''/mounts/'') (CHR ''/'') of
        [namespace, name, rest] \<Rightarrow> Some (namespace, name, ''/'' @ rest)
      | _ \<Rightarrow> None)"

definition rewriteRequest :: "url \<Rightarrow> string \<Rightarrow> proxy_request \<Rightarrow> proxy_request \<Rightarrow> proxy_request" where
  "rewriteRequest target upstreamPath inReq out =
     setXForwarded inReq (out\<lparr>
       px_url := (px_url out)\<lparr>u_scheme := u_scheme target, u_host := u_host target,
                   u_path := joinURLPath (u_path target) upstreamPath\<rparr>,
       px_host := u_host target\<rparr>)"

definition mountHandler ::
  "'w ctrl_platform \<Rightarrow> (go_error \<Rightarrow> string) \<Rightarrow> rest_config \<Rightarrow> proxy_request \<Rightarrow> 'w \<Rightarrow> proxy_response \<times> 'w" where
  "mountHandler Q errText k8s req w =
     (case mountRoute (u_path (px_url req)) of
        None \<Rightarrow> (ProxyError 400 ''expected /mounts/<namespace>/<name>/...'', w)
      | Some (namespace, name, upstreamPath) \<Rightarrow>
          (case rget (p_secrets (cp_base Q)) k8s (kubeconfigKey namespace name) w of
             (Inl err, w') \<Rightarrow> (ProxyError 502 (''loading kubeconfig secret: '' @ errText (ApiErr err)), w')
           | (Inr sec, w') \<Rightarrow>
               (let kubeconfigData = gm_string (sec_data sec) ''value'' in
                if kubeconfigData = [] then
                  (ProxyError 502 ''missing kubeconfig data in secret key value'', w')
                else (case cp_restConfig Q kubeconfigData of
                   Inl err \<Rightarrow> (ProxyError 502 (''parsing kubeconfig: '' @ errText err), w')
                 | Inr cfg \<Rightarrow>
                     (case url_parse (rc_host cfg) of
                        Inl err \<Rightarrow> (ProxyError 502 (''parsing upstream host: '' @ errText err), w')
                      | Inr target \<Rightarrow>
                          (case cp_transport Q cfg of
                             Some err \<Rightarrow>
                               (ProxyError 502 (''building upstream transport: '' @ errText err), w')
                           | None \<Rightarrow>
                               (Forward cfg (rewriteRequest target upstreamPath req (stripForwarding req)),
                                w')))))))"

section \<open>Lemmas\<close>

lemma split_3:
  "CHR ''/'' \<notin> set a \<Longrightarrow> CHR ''/'' \<notin> set b \<Longrightarrow>
   split_n 3 (a @ CHR ''/'' # b @ CHR ''/'' # c) (CHR ''/'') = [a, b, c]"
  by (simp add: numeral_3_eq_3)

lemma mountRoute_some:
  "mountRoute path = Some (ns, n, up) \<longleftrightarrow>
     (\<exists>rest. trim_prefix path ''/mounts/'' = ns @ CHR ''/'' # n @ CHR ''/'' # rest \<and>
        CHR ''/'' \<notin> set ns \<and> CHR ''/'' \<notin> set n \<and> up = CHR ''/'' # rest)"
proof -
  define p where "p = trim_prefix path ''/mounts/''"
  have parts: "split_n 3 p (CHR ''/'') = [a, b, c] \<longleftrightarrow>
      p = a @ CHR ''/'' # b @ CHR ''/'' # c \<and> CHR ''/'' \<notin> set a \<and> CHR ''/'' \<notin> set b" for a b c
  proof
    assume s: "split_n 3 p (CHR ''/'') = [a, b, c]"
    then obtain r where 1: "cut_byte p (CHR ''/'') = (a, r, True)"
      and 2: "cut_byte r (CHR ''/'') = (b, c, True)"
      by (auto simp: numeral_3_eq_3 split: prod.splits if_splits)
    from cut_byte_join [OF 1] cut_byte_join [OF 2]
    show "p = a @ CHR ''/'' # b @ CHR ''/'' # c \<and> CHR ''/'' \<notin> set a \<and> CHR ''/'' \<notin> set b" by simp
  qed (use split_3 in blast)
  have "mountRoute path = Some (ns, n, up) \<longleftrightarrow>
      (\<exists>rest. split_n 3 p (CHR ''/'') = [ns, n, rest] \<and> up = CHR ''/'' # rest)"
    by (auto simp: mountRoute_def p_def [symmetric] split: list.splits)
  then have "mountRoute path = Some (ns, n, up) \<longleftrightarrow> (\<exists>rest. p = ns @ CHR ''/'' # n @ CHR ''/'' # rest \<and>
      CHR ''/'' \<notin> set ns \<and> CHR ''/'' \<notin> set n \<and> up = CHR ''/'' # rest)"
    unfolding parts by blast
  then show ?thesis unfolding p_def .
qed

text \<open>Fewer than three parts: the path after the prefix has at most one slash.\<close>

lemma mountRoute_none:
  "mountRoute path = None \<longleftrightarrow> count_byte (trim_prefix path ''/mounts/'') (CHR ''/'') < 2"
proof -
  define p where "p = trim_prefix path ''/mounts/''"
  have none: "mountRoute path = None \<longleftrightarrow> (\<forall>a b c. split_n 3 p (CHR ''/'') \<noteq> [a, b, c])"
    by (auto simp: mountRoute_def p_def split: list.splits)
  show ?thesis
  proof (cases "CHR ''/'' \<in> set p")
    case False
    then show ?thesis unfolding none using p_def by (simp add: numeral_3_eq_3 count_byte_0)
  next
    case True
    then obtain a r where a: "p = a @ CHR ''/'' # r" "CHR ''/'' \<notin> set a" by (meson split_list_first)
    then have ca: "count_byte p (CHR ''/'') = 1 + count_byte r (CHR ''/'')"
      using count_byte_0 [OF a(2)] by (simp add: count_byte_def)
    show ?thesis
    proof (cases "CHR ''/'' \<in> set r")
      case False
      then show ?thesis unfolding none using a ca p_def by (simp add: numeral_3_eq_3 count_byte_0)
    next
      case True
      then obtain b c where b: "r = b @ CHR ''/'' # c" "CHR ''/'' \<notin> set b" by (meson split_list_first)
      then have "count_byte r (CHR ''/'') \<ge> 1" by (simp add: count_byte_def)
      then show ?thesis unfolding none using a b ca p_def split_3 [OF a(2) b(2)] by auto
    qed
  qed
qed

text \<open>The joined path has exactly one slash where the two meet.\<close>

lemma joinURLPath_slash: "joinURLPath base (CHR ''/'' # rest) = trim_suffix base ''/'' @ CHR ''/'' # rest"
proof (cases "has_suffix base ''/''")
  case True
  then obtain b where "base = b @ ''/''" by (auto simp: has_suffix_iff)
  then show ?thesis by (simp add: joinURLPath_def trim_prefix_def)
next
  case False
  then show ?thesis by (simp add: joinURLPath_def trim_suffix_other)
qed

lemma header_set_other [simp]:
  "px_url (header_set k v req) = px_url req" "px_host (header_set k v req) = px_host req"
  "px_url (header_del k req) = px_url req" "px_host (header_del k req) = px_host req"
  by (simp_all add: header_set_def header_del_def)

lemma header_values [simp]:
  "map_of (px_header (header_set k v req)) k' = (if k' = k then Some [v] else map_of (px_header req) k')"
  "map_of (px_header (header_del k req)) k' = (if k' = k then None else map_of (px_header req) k')"
  by (auto simp: header_set_def header_del_def update_conv' delete_conv')

lemma rewriteRequest_target:
  "px_url (rewriteRequest target up r out) = (px_url out)\<lparr>u_scheme := u_scheme target,
     u_host := u_host target, u_path := joinURLPath (u_path target) up\<rparr>"
  "px_host (rewriteRequest target up r out) = u_host target"
  by (auto simp: rewriteRequest_def setXForwarded_def Let_def split: sum.split)

text \<open>The forwarding headers name the client the connection came from, whatever it sent.\<close>

lemma forwarding_headers:
  "map_of (px_header (rewriteRequest target up r (stripForwarding r0))) ''X-Forwarded-For'' =
     (case split_host_port (px_remote r) of Inl _ \<Rightarrow> None | Inr (ip, _) \<Rightarrow> Some [ip])"
  "map_of (px_header (rewriteRequest target up r (stripForwarding r0))) ''X-Forwarded-Host'' = Some [px_host r]"
  "map_of (px_header (rewriteRequest target up r (stripForwarding r0))) ''Forwarded'' = None"
  by (auto simp: rewriteRequest_def setXForwarded_def stripForwarding_def Let_def header_set_def
      header_del_def update_conv' delete_conv' split: sum.split)

lemma stripForwarding_url [simp]: "px_url (stripForwarding r) = px_url r"
  by (simp add: stripForwarding_def)

end
