(* ===== verification/Ctrl_Main.thy ===== *)
theory Ctrl_Main
  imports Mount_Proxy
begin

text \<open>
  \<open>cmd/kubernetes-controller/main.go\<close>: the flags with their defaults, and how the process wires the
  reconciler and the mount proxy.  Flag parsing and logging are the libraries', whose constructors are
  parameters; the running process is in \<open>Ctrl_Process\<close>.
\<close>

record controller_flags =
  cf_metricsAddr :: string
  cf_proxyAddr :: string
  cf_kcpKubeconfig :: string
  cf_consumersWorkspace :: string
  cf_proxyBaseURL :: string
  cf_leaderElect :: bool

definition defaultFlags :: controller_flags where
  "defaultFlags =
     \<lparr>cf_metricsAddr = '':8081'', cf_proxyAddr = '':8080'', cf_kcpKubeconfig = ''/etc/kcp/kubeconfig'',
      cf_consumersWorkspace = ''root:consumers'',
      cf_proxyBaseURL = ''http://kubernetes-controller.default.svc.cluster.local:8080'',
      cf_leaderElect = False\<rparr>"

record manager_options =
  mo_metricsAddr :: string
  mo_leaderElection :: bool
  mo_leaderElectionID :: string
  mo_leaderElectionNamespace :: string

record launcher =
  la_buildConfig :: "string \<Rightarrow> string \<Rightarrow> go_error + rest_config" \<comment> \<open>\<open>clientcmd.BuildConfigFromFlags\<close>\<close>
  la_config :: "rest_config option" \<comment> \<open>\<open>ctrl.GetConfigOrDie\<close>, None when it exits\<close>
  la_newManager :: "rest_config \<Rightarrow> manager_options \<Rightarrow> go_error option"
  la_setup :: "reconciler \<Rightarrow> go_error option" \<comment> \<open>\<open>SetupWithManager\<close>\<close>

text \<open>The process exits with a logged error, or serves: the reconciler, the proxy's cluster and address.\<close>

datatype launch = Exit string "go_error option" | Serve reconciler rest_config string

definition controllerMain :: "'w platform \<Rightarrow> launcher \<Rightarrow> controller_flags \<Rightarrow> launch" where
  "controllerMain E L f =
     (case la_buildConfig L [] (cf_kcpKubeconfig f) of
        Inl err \<Rightarrow> Exit ''unable to load kcp kubeconfig'' (Some err)
      | Inr kcpConfig \<Rightarrow>
          (case la_config L of
             None \<Rightarrow> Exit ''unable to get kubeconfig'' None
           | Some k8sConfig \<Rightarrow>
               (case kube_new E k8sConfig of
                  Some err \<Rightarrow> Exit ''unable to build Kubernetes client'' (Some err)
                | None \<Rightarrow>
                    (case la_newManager L k8sConfig
                        \<lparr>mo_metricsAddr = cf_metricsAddr f, mo_leaderElection = cf_leaderElect f,
                         mo_leaderElectionID = ''kubernetes-controller.dbaas.mongodb.com'',
                         mo_leaderElectionNamespace = ''default''\<rparr> of
                       Some err \<Rightarrow> Exit ''unable to start manager'' (Some err)
                     | None \<Rightarrow>
                         (let r = \<lparr>re_manager = k8sConfig, re_k8s = k8sConfig, re_kcp = kcpConfig,
                               re_consumers = cf_consumersWorkspace f, re_proxyBaseURL = cf_proxyBaseURL f\<rparr> in
                          case la_setup L r of
                            Some err \<Rightarrow> Exit ''unable to create Kubernetes controller'' (Some err)
                          | None \<Rightarrow> Serve r k8sConfig (cf_proxyAddr f))))))"

text \<open>What is served uses one management cluster throughout.\<close>

lemma controllerMain_serve:
  assumes "controllerMain E L f = Serve r k8s addr"
  shows "re_manager r = k8s" "re_k8s r = k8s" "re_consumers r = cf_consumersWorkspace f"
    "re_proxyBaseURL r = cf_proxyBaseURL f" "addr = cf_proxyAddr f"
    "la_buildConfig L [] (cf_kcpKubeconfig f) = Inr (re_kcp r)" "la_config L = Some k8s"
  using assms by (auto simp: controllerMain_def Let_def split: sum.splits option.splits)

section \<open>From the published URL to the workload cluster\<close>

text \<open>A path segment that needs no escaping and holds no slash.\<close>

definition segment_ok :: "string \<Rightarrow> bool" where
  "segment_ok s = list_all (\<lambda>c. path_char c \<and> c \<noteq> CHR ''/'') s"

lemma segment_no_slash: "segment_ok s \<Longrightarrow> CHR ''/'' \<notin> set s"
  by (auto simp: segment_ok_def list_all_iff)

lemma path_char_slash: "path_char (CHR ''/'')"
  by (simp add: path_char_def should_escape_def is_alnum_def is_lower_def is_upper_def is_digit_def
      is_ctl_def byte_def)

lemma mounts_path_ok:
  assumes "segment_ok ns" "segment_ok n" "list_all path_char rest"
  shows "path_ok (''/mounts/'' @ ns @ ''/'' @ n @ ''/'' @ rest)" "path_ok (''/mounts/'' @ ns @ ''/'' @ n)"
proof -
  have "list_all path_char ''mounts''"
    by (simp add: path_char_def should_escape_def is_alnum_def is_lower_def is_upper_def is_digit_def
        is_ctl_def byte_def)
  with assms path_char_slash
  show "path_ok (''/mounts/'' @ ns @ ''/'' @ n @ ''/'' @ rest)" "path_ok (''/mounts/'' @ ns @ ''/'' @ n)"
    by (auto simp: path_ok_def segment_ok_def list_all_iff)
qed

text \<open>
  A proxy base URL is a server URL with at most a trailing slash.
\<close>

lemma statusURL_parts:
  assumes "re_proxyBaseURL r = s @ ''://'' @ h \<or> re_proxyBaseURL r = s @ ''://'' @ h @ ''/''"
    and "host_ok h"
  shows "statusURL r obj = s @ ''://'' @ h @ ''/mounts/'' @ ku_namespace obj @ ''/'' @ ku_name obj"
proof -
  have "h \<noteq> []" "CHR ''/'' \<notin> set h" using assms(2) host_ok_chars_absent by (auto simp: host_ok_def)
  then have "last h \<noteq> CHR ''/''" by (metis last_in_set)
  with \<open>h \<noteq> []\<close> have "\<not> has_suffix (s @ ''://'' @ h) ''/''" by (simp add: has_suffix_single)
  moreover have "s @ ''://'' @ h @ ''/'' = (s @ ''://'' @ h) @ ''/''" by simp
  ultimately have "trim_suffix (re_proxyBaseURL r) ''/'' = s @ ''://'' @ h"
    using assms(1) by (metis trim_suffix_append trim_suffix_other)
  then show ?thesis by (simp add: statusURL_def)
qed

lemma status_url_routes:
  assumes base: "re_proxyBaseURL r = s @ ''://'' @ h \<or> re_proxyBaseURL r = s @ ''://'' @ h @ ''/''"
    and ok: "scheme_ok s" "host_ok h" "segment_ok (ku_namespace obj)" "segment_ok (ku_name obj)"
      "list_all path_char rest"
  shows "url_parse (statusURL r obj @ ''/'' @ rest) = Inr (server_url s h
      (''/mounts/'' @ ku_namespace obj @ ''/'' @ ku_name obj @ ''/'' @ rest))"
    and "mountRoute (''/mounts/'' @ ku_namespace obj @ ''/'' @ ku_name obj @ ''/'' @ rest) =
      Some (ku_namespace obj, ku_name obj, ''/'' @ rest)"
    and "url_parse (statusURL r obj) = Inr (server_url s h
      (''/mounts/'' @ ku_namespace obj @ ''/'' @ ku_name obj))"
    and "mountRoute (''/mounts/'' @ ku_namespace obj @ ''/'' @ ku_name obj) = None"
proof -
  note p = mounts_path_ok [OF ok(3,4,5)]
  from parse_server_url [OF ok(1,2) p(1)] statusURL_parts [OF base ok(2), of obj]
  show "url_parse (statusURL r obj @ ''/'' @ rest) = Inr (server_url s h
      (''/mounts/'' @ ku_namespace obj @ ''/'' @ ku_name obj @ ''/'' @ rest))" by simp
  from parse_server_url [OF ok(1,2) p(2)] statusURL_parts [OF base ok(2), of obj]
  show "url_parse (statusURL r obj) = Inr (server_url s h
      (''/mounts/'' @ ku_namespace obj @ ''/'' @ ku_name obj))" by simp
  note slash = segment_no_slash [OF ok(3)] segment_no_slash [OF ok(4)]
  have t: "trim_prefix (''/mounts/'' @ x) ''/mounts/'' = x" for x by (rule trim_prefix_append)
  show "mountRoute (''/mounts/'' @ ku_namespace obj @ ''/'' @ ku_name obj @ ''/'' @ rest) =
      Some (ku_namespace obj, ku_name obj, ''/'' @ rest)"
    unfolding mountRoute_some t using slash by simp
  show "mountRoute (''/mounts/'' @ ku_namespace obj @ ''/'' @ ku_name obj) = None"
    unfolding mountRoute_none t using slash count_byte_0 [OF slash(1)] count_byte_0 [OF slash(2)]
    by (simp add: count_byte_def)
qed

end
