(* ===== verification/Mck_Controller.thy ===== *)
theory Mck_Controller
  imports Kube_Api
begin

text \<open>
  \<open>internal/controller/mck/mongodb_controller.go\<close>: the mock MongoDB controller, which reports every
  MongoDB resource as running.  The resource is that of the MongoDB operator, with the fields used.
\<close>

record mongodb_status =
  ms_phase :: string
  ms_version :: string
  ms_message :: string
  ms_observedGeneration :: int

record mongodb =
  mdb_namespace :: string
  mdb_name :: string
  mdb_generation :: int
  mdb_version :: string
  mdb_status :: mongodb_status

record 'w mck_platform =
  mk_get :: "rest_config \<Rightarrow> objkey \<Rightarrow> ('w, api_error, mongodb) call"
  mk_patchStatus :: "rest_config \<Rightarrow> mongodb \<Rightarrow> mongodb \<Rightarrow> ('w, api_error, unit) call"
    \<comment> \<open>the original and the modified object\<close>
  mk_running :: string \<comment> \<open>\<open>status.PhaseRunning\<close>\<close>

definition runningStatus :: "'w mck_platform \<Rightarrow> mongodb \<Rightarrow> mongodb_status" where
  "runningStatus M obj =
     \<lparr>ms_phase = mk_running M, ms_version = mdb_version obj, ms_message = ''Mock MCK MongoDB is running'',
      ms_observedGeneration = mdb_generation obj\<rparr>"

definition mckReconcile :: "'w mck_platform \<Rightarrow> rest_config \<Rightarrow> objkey \<Rightarrow> ('w, unit) prog" where
  "mckReconcile M c req =
     on_result (mk_get M c req) (\<lambda>res. case res of
       Inl e \<Rightarrow> if e = NotFound then ret () else fail (ApiErr e)
     | Inr obj \<Rightarrow>
         or_fail (mk_patchStatus M c obj (obj\<lparr>mdb_status := runningStatus M obj\<rparr>))
           (wrap_api ''patching MongoDB status: %w'' []) (\<lambda>_. ret ()))"

section \<open>The contract of the server\<close>

text \<open>A merge patch of the status: fields that differ from the original are set, the rest stays.\<close>

definition pick :: "'a \<Rightarrow> 'a \<Rightarrow> 'a \<Rightarrow> 'a" where
  "pick orig new old = (if new = orig then old else new)"

definition status_merged :: "mongodb_status \<Rightarrow> mongodb_status \<Rightarrow> mongodb_status \<Rightarrow> mongodb_status" where
  "status_merged orig new old =
     \<lparr>ms_phase = pick (ms_phase orig) (ms_phase new) (ms_phase old),
      ms_version = pick (ms_version orig) (ms_version new) (ms_version old),
      ms_message = pick (ms_message orig) (ms_message new) (ms_message old),
      ms_observedGeneration =
        pick (ms_observedGeneration orig) (ms_observedGeneration new) (ms_observedGeneration old)\<rparr>"

definition mdb_key :: "rest_config \<Rightarrow> mongodb \<Rightarrow> string \<times> objkey" where
  "mdb_key c obj = (rc_host c, (mdb_namespace obj, mdb_name obj))"

definition status_patched ::
  "rest_config \<Rightarrow> mongodb \<Rightarrow> mongodb \<Rightarrow> mongodb store \<Rightarrow> mongodb store \<Rightarrow> bool" where
  "status_patched c orig new m m' \<longleftrightarrow>
     (\<exists>old. m (mdb_key c new) = Some old \<and>
        m' = m(mdb_key c new \<mapsto> old\<lparr>mdb_status := status_merged (mdb_status orig) (mdb_status new) (mdb_status old)\<rparr>))"

locale mongodb_server =
  fixes M :: "'w mck_platform" and mview :: "'w \<Rightarrow> mongodb store"
  assumes get_reads: "mk_get M c k w = (r, w') \<Longrightarrow> mview w' = mview w"
    and get_named: "mk_get M c (ns, n) w = (Inr obj, w') \<Longrightarrow> mdb_namespace obj = ns \<and> mdb_name obj = n"
    and patch_ok: "mk_patchStatus M c orig new w = (Inr u, w') \<Longrightarrow>
      status_patched c orig new (mview w) (mview w')"
    and patch_error: "mk_patchStatus M c orig new w = (Inl e, w') \<Longrightarrow>
      mview w' = mview w \<or> status_patched c orig new (mview w) (mview w')"
begin

text \<open>
  Only the status of the object asked for can change, whatever the outcome.
\<close>

lemma mck_any:
  assumes run: "mckReconcile M c (ns, n) w = (res, w')"
  shows "mview w' = mview w \<or>
    (\<exists>old st. mview w (rc_host c, (ns, n)) = Some old \<and>
       mview w' = (mview w)((rc_host c, (ns, n)) \<mapsto> old\<lparr>mdb_status := st\<rparr>))"
proof -
  obtain g w1 where g: "mk_get M c (ns, n) w = (g, w1)" by (cases "mk_get M c (ns, n) w")
  note v1 = get_reads [OF g]
  show ?thesis
  proof (cases g)
    case (Inl e)
    with run g v1 show ?thesis by (auto simp: mckReconcile_def on_result_run split: if_splits)
  next
    case (Inr obj)
    let ?new = "obj\<lparr>mdb_status := runningStatus M obj\<rparr>"
    obtain x w2 where p: "mk_patchStatus M c obj ?new w1 = (x, w2)"
      by (cases "mk_patchStatus M c obj ?new w1")
    have w2: "w' = w2"
      using run g Inr p by (auto simp: mckReconcile_def on_result_run or_fail_run split: sum.splits)
    have k: "mdb_key c ?new = (rc_host c, (ns, n))"
      using get_named [OF g [unfolded Inr]] by (simp add: mdb_key_def)
    have "mview w2 = mview w1 \<or> status_patched c obj ?new (mview w1) (mview w2)"
      using patch_ok [of c obj ?new w1 _ w2] patch_error [of c obj ?new w1 _ w2] p by (cases x) auto
    then show ?thesis using v1 w2 k unfolding status_patched_def by auto
  qed
qed

text \<open>
  A run that read the object as the server holds it and returned without an error leaves it with
  the running status of its version and generation.
\<close>

lemma mck_ok:
  assumes run: "mckReconcile M c (ns, n) w = (Inr u, w')"
    and fresh: "mk_get M c (ns, n) w = (Inr obj, w1)" "mview w (rc_host c, (ns, n)) = Some obj"
  shows "mview w' = (mview w)((rc_host c, (ns, n)) \<mapsto> obj\<lparr>mdb_status := runningStatus M obj\<rparr>)"
proof -
  let ?new = "obj\<lparr>mdb_status := runningStatus M obj\<rparr>"
  obtain x where p: "mk_patchStatus M c obj ?new w1 = (Inr x, w')"
    using run fresh(1) by (auto simp: mckReconcile_def on_result_run or_fail_run split: prod.splits sum.splits)
  have k: "mdb_key c ?new = (rc_host c, (ns, n))"
    using get_named [OF fresh(1)] by (simp add: mdb_key_def)
  have "status_merged (mdb_status obj) (mdb_status ?new) (mdb_status obj) = mdb_status ?new"
    by (simp add: status_merged_def pick_def)
  with patch_ok [OF p] k fresh(2) get_reads [OF fresh(1)] show ?thesis
    by (auto simp: status_patched_def)
qed

lemma mck_missing:
  assumes "mckReconcile M c (ns, n) w = (res, w')" and "mk_get M c (ns, n) w = (Inl NotFound, w1)"
  shows "res = Inr () \<and> mview w' = mview w"
  using assms get_reads [OF assms(2)] by (simp add: mckReconcile_def on_result_run)

end

section \<open>A reference server\<close>

definition mck_get :: "rest_config \<Rightarrow> objkey \<Rightarrow> (bool \<times> (string \<times> mongodb) list, api_error, mongodb) call" where
  "mck_get c k w =
     (case find (\<lambda>(h, x). h = rc_host c \<and> (mdb_namespace x, mdb_name x) = k) (snd w) of
        None \<Rightarrow> (Inl NotFound, w) | Some (h, x) \<Rightarrow> (Inr x, w))"

definition mck_store :: "(string \<times> mongodb) list \<Rightarrow> mongodb store" where
  "mck_store l k =
     map_option snd (find (\<lambda>(h, x). h = fst k \<and> (mdb_namespace x, mdb_name x) = snd k) l)"

text \<open>The flag says whether the answer of a patch is lost.\<close>

definition mck_patch ::
  "rest_config \<Rightarrow> mongodb \<Rightarrow> mongodb \<Rightarrow> (bool \<times> (string \<times> mongodb) list, api_error, unit) call" where
  "mck_patch c orig new w =
     (case mck_store (snd w) (mdb_key c new) of
        None \<Rightarrow> (Inl NotFound, w)
      | Some old \<Rightarrow>
          (if fst w then Inl (ApiFailure ''timeout'') else Inr (),
           (fst w, (rc_host c, old\<lparr>mdb_status := status_merged (mdb_status orig) (mdb_status new)
              (mdb_status old)\<rparr>) # snd w)))"

definition mck_ref :: "(bool \<times> (string \<times> mongodb) list) mck_platform" where
  "mck_ref = \<lparr>mk_get = mck_get, mk_patchStatus = mck_patch, mk_running = ''Running''\<rparr>"

lemma mck_store_Cons:
  "mck_store ((h, x) # l) = (mck_store l)((h, (mdb_namespace x, mdb_name x)) \<mapsto> x)"
  by (auto simp: mck_store_def fun_eq_iff)

lemma mck_store_key: "mck_store l (h, (ns, n)) = Some x \<Longrightarrow> mdb_namespace x = ns \<and> mdb_name x = n"
  by (induction l) (auto simp: mck_store_def split: if_splits)

lemma mck_patch_effect:
  assumes "mck_store (snd w) (mdb_key c new) = Some old"
  shows "status_patched c orig new (mck_store (snd w)) (mck_store (snd (snd (mck_patch c orig new w))))"
  using assms mck_store_key [of "snd w" "rc_host c" "mdb_namespace new" "mdb_name new" old]
  by (simp add: mck_patch_def status_patched_def mck_store_Cons mdb_key_def)

interpretation mck: mongodb_server mck_ref "\<lambda>w. mck_store (snd w)"
proof (unfold_locales, goal_cases)
  case (1 c k w r w')
  then show ?case by (auto simp: mck_ref_def mck_get_def split: option.splits)
next
  case (2 c ns n w obj w')
  then have "mck_store (snd w) (rc_host c, (ns, n)) = Some obj"
    by (auto simp: mck_ref_def mck_get_def mck_store_def split: option.splits)
  then show ?case by (rule mck_store_key)
next
  case (3 c orig new w u w')
  then obtain old where "mck_store (snd w) (mdb_key c new) = Some old"
    by (auto simp: mck_ref_def mck_patch_def split: option.splits)
  from mck_patch_effect [OF this, of orig] 3 show ?case by (simp add: mck_ref_def)
next
  case (4 c orig new w e w')
  then show ?case
    using mck_patch_effect [of w c new _ orig]
    by (cases "mck_store (snd w) (mdb_key c new)") (auto simp: mck_ref_def mck_patch_def)
qed

end
