(* ===== verification/Ctrl_Laws.thy ===== *)
theory Ctrl_Laws
  imports Ctrl_Reconcile
begin

text \<open>
  The contract of the servers the Kubernetes controller talks to, and what its operations on kcp
  workspaces, finalizers, nodes and annotations do under that contract.  Reads through the manager's
  client come from a cache, so nothing is assumed of what they return but the name asked for.
\<close>

section \<open>The servers\<close>

record ctrl_view =
  cv_kubes :: "kubernetes store"
  cv_clusters :: "capi_cluster store"
  cv_nodes :: "string \<times> string \<Rightarrow> node option" \<comment> \<open>by server and name\<close>
  cv_applied :: "string \<times> string \<times> string option \<times> string \<times> string \<Rightarrow> string option"
    \<comment> \<open>the configuration a field manager applied last, by server, resource, namespace, name, manager\<close>

definition kube_stored :: "kubernetes \<Rightarrow> kubernetes \<Rightarrow> bool" where
  "kube_stored o1 o2 \<longleftrightarrow> ku_namespace o2 = ku_namespace o1 \<and> ku_name o2 = ku_name o1 \<and>
     ku_annotations o2 = ku_annotations o1 \<and> ku_finalizers o2 = ku_finalizers o1"

definition node_stored :: "node \<Rightarrow> node \<Rightarrow> bool" where
  "node_stored o1 o2 \<longleftrightarrow> no_name o2 = no_name o1 \<and> no_labels o2 = no_labels o1 \<and>
     no_taints o2 = no_taints o1"

text \<open>
  An update stores the object, or, when it takes the last finalizer off an object that is being
  deleted, the object disappears.
\<close>

definition kube_written :: "kubernetes \<Rightarrow> kubernetes option \<Rightarrow> bool" where
  "kube_written o1 x \<longleftrightarrow>
     (case x of Some o2 \<Rightarrow> kube_stored o1 o2 | None \<Rightarrow> ku_deletion o1 \<noteq> None \<and> ku_finalizers o1 = [])"

definition objectKey :: "reconciler \<Rightarrow> string \<Rightarrow> string \<Rightarrow> string \<times> objkey" where
  "objectKey r ns n = (rc_host (re_manager r), (ns, n))"

text \<open>A JSON merge patch of the annotations: the keys that differ are set, all else stays.\<close>

definition merged :: "capi_cluster \<Rightarrow> capi_cluster \<Rightarrow> capi_cluster \<Rightarrow> capi_cluster \<Rightarrow> bool" where
  "merged orig new old x \<longleftrightarrow>
     cl_namespace x = cl_namespace old \<and> cl_name x = cl_name old \<and> cl_phase x = cl_phase old \<and>
     cl_conditions x = cl_conditions old \<and>
     (\<forall>k. gm_get (cl_annotations x) k =
        (if gm_get (cl_annotations new) k = gm_get (cl_annotations orig) k
         then gm_get (cl_annotations old) k else gm_get (cl_annotations new) k))"

definition put_kube :: "string \<times> objkey \<Rightarrow> kubernetes option \<Rightarrow> ctrl_view \<Rightarrow> ctrl_view" where
  "put_kube k x v = v\<lparr>cv_kubes := (cv_kubes v)(k := x)\<rparr>"

definition put_node :: "string \<times> string \<Rightarrow> node \<Rightarrow> ctrl_view \<Rightarrow> ctrl_view" where
  "put_node k x v = v\<lparr>cv_nodes := (cv_nodes v)(k \<mapsto> x)\<rparr>"

definition put_applied ::
  "string \<times> string \<times> string option \<times> string \<times> string \<Rightarrow> string \<Rightarrow> ctrl_view \<Rightarrow> ctrl_view" where
  "put_applied k x v = v\<lparr>cv_applied := (cv_applied v)(k \<mapsto> x)\<rparr>"

definition patch_effect ::
  "rest_config \<Rightarrow> capi_cluster \<Rightarrow> capi_cluster \<Rightarrow> ctrl_view \<Rightarrow> ctrl_view \<Rightarrow> bool" where
  "patch_effect c orig new v v' \<longleftrightarrow>
     (let k = (rc_host c, (cl_namespace new, cl_name new)) in
      \<exists>old x. cv_clusters v k = Some old \<and> merged orig new old x \<and>
        v' = v\<lparr>cv_clusters := (cv_clusters v)(k \<mapsto> x)\<rparr>)"

definition is_control_plane :: "node \<Rightarrow> bool" where
  "is_control_plane nd \<longleftrightarrow> gm_get (no_labels nd) controlPlaneNoScheduleTaintKey \<noteq> None"

locale controller_server = api_server "cp_base Q" view
  for Q :: "'w ctrl_platform" and view :: "'w \<Rightarrow> cluster_view" +
  fixes cview :: "'w \<Rightarrow> ctrl_view"
  assumes base_frame:
      "keeps cview (rget (p_workspaces (cp_base Q)) c k)"
      "keeps cview (rlist (p_workspaces (cp_base Q)) c ns)"
      "keeps cview (rcreate (p_workspaces (cp_base Q)) c ns o1)"
      "keeps cview (rdelete (p_workspaces (cp_base Q)) c k)"
      "keeps cview (rget (p_secrets (cp_base Q)) c k)"
    and reads_view:
      "keeps view (rget (cp_kubes Q) c k)" "keeps view (rget (cp_clusters Q) c k)"
      "keeps view (rget (cp_configmaps Q) c k)" "keeps view (cp_listNodes Q c sel)"
      "keeps view (cp_mapping Q c gk ver)"
    and reads_cview:
      "keeps cview (rget (cp_kubes Q) c k)" "keeps cview (rget (cp_clusters Q) c k)"
      "keeps cview (rget (cp_configmaps Q) c k)" "keeps cview (cp_listNodes Q c sel)"
      "keeps cview (cp_mapping Q c gk ver)"
    and writes_view:
      "keeps view (rupdate (cp_kubes Q) c ns ku)" "keeps view (cp_patchCluster Q c orig new)"
      "keeps view (cp_updateNode Q c nd)" "keeps view (cp_apply Q c rs nso n body opts)"
    and kube_named: "rget (cp_kubes Q) c (ns, n) w = (Inr ku, w') \<Longrightarrow>
      ku_namespace ku = ns \<and> ku_name ku = n"
    and cluster_named: "rget (cp_clusters Q) c (ns, n) w = (Inr cl, w') \<Longrightarrow>
      cl_namespace cl = ns \<and> cl_name cl = n"
    and kube_update_ok: "rupdate (cp_kubes Q) c ns ku w = (Inr o2, w') \<Longrightarrow> kube_stored ku o2 \<and>
      (\<exists>x. kube_written ku x \<and> cview w' = put_kube (rc_host c, (ns, ku_name ku)) x (cview w))"
    and kube_update_error: "rupdate (cp_kubes Q) c ns ku w = (Inl e, w') \<Longrightarrow> cview w' = cview w \<or>
      (\<exists>x. kube_written ku x \<and> cview w' = put_kube (rc_host c, (ns, ku_name ku)) x (cview w))"
    and patch_cluster_ok: "cp_patchCluster Q c orig new w = (Inr u, w') \<Longrightarrow>
      patch_effect c orig new (cview w) (cview w')"
    and patch_cluster_error: "cp_patchCluster Q c orig new w = (Inl e, w') \<Longrightarrow> cview w' = cview w \<or>
      patch_effect c orig new (cview w) (cview w')"
    and node_named: "cv_nodes (cview w) (h, n) = Some nd \<Longrightarrow> no_name nd = n"
    and nodes_listed: "cp_listNodes Q c controlPlaneNoScheduleTaintKey w = (Inr nds, w') \<Longrightarrow>
      distinct (map no_name nds) \<and>
      set nds = {nd. cv_nodes (cview w) (rc_host c, no_name nd) = Some nd \<and> is_control_plane nd}"
    and node_update_ok: "cp_updateNode Q c nd w = (Inr nd', w') \<Longrightarrow>
      (\<exists>x. node_stored nd x \<and> cview w' = put_node (rc_host c, no_name nd) x (cview w))"
    and node_update_error: "cp_updateNode Q c nd w = (Inl e, w') \<Longrightarrow> cview w' = cview w \<or>
      (\<exists>x. node_stored nd x \<and> cview w' = put_node (rc_host c, no_name nd) x (cview w))"
    and apply_ok: "cp_apply Q c rs nso n body opts w = (Inr u, w') \<Longrightarrow>
      cview w' = put_applied (rc_host c, rs, nso, n, fst opts) body (cview w)"
    and apply_error: "cp_apply Q c rs nso n body opts w = (Inl e, w') \<Longrightarrow> cview w' = cview w \<or>
      cview w' = put_applied (rc_host c, rs, nso, n, fst opts) body (cview w)"
    and contains_finalizer: "cp_containsFinalizer Q fs f \<longleftrightarrow> f \<in> set fs"
    and add_finalizer: "cp_addFinalizer Q fs f = (fs', added) \<Longrightarrow>
      set fs' = insert f (set fs) \<and> (added \<longleftrightarrow> f \<notin> set fs) \<and> (\<not> added \<longrightarrow> fs' = fs)"
    and remove_finalizer: "cp_removeFinalizer Q fs f = (fs', removed) \<Longrightarrow>
      set fs' = set fs - {f} \<and> (removed \<longleftrightarrow> f \<in> set fs)"

section \<open>Mounted workspaces\<close>

definition kcpHost :: "reconciler \<Rightarrow> string \<Rightarrow> string" where
  "kcpHost r path =
     (case url_parse (rc_host (re_kcp r)) of Inl _ \<Rightarrow> []
      | Inr u \<Rightarrow> trim_suffix (url_string (u\<lparr>u_path := [], u_raw_query := [], u_fragment := []\<rparr>)) ''/'' @
          ''/clusters/'' @ path)"

text \<open>\<open>path\<close> is the path of a consumer workspace that is the logical cluster.\<close>

definition tenant_of :: "reconciler \<Rightarrow> cluster_view \<Rightarrow> string \<Rightarrow> string \<Rightarrow> bool" where
  "tenant_of r v clusterID path \<longleftrightarrow>
     (\<exists>ws. v_workspaces v (kcpHost r (re_consumers r), ([], ws_name ws)) = Some ws \<and>
        is_cluster clusterID ws \<and> path = re_consumers r @ '':'' @ ws_name ws)"

definition mountKey :: "reconciler \<Rightarrow> string \<Rightarrow> string \<Rightarrow> string \<times> objkey" where
  "mountKey r path mountedWs = (kcpHost r path, ([], mountedWs))"

definition put_workspace :: "string \<times> objkey \<Rightarrow> workspace option \<Rightarrow> cluster_view \<Rightarrow> cluster_view" where
  "put_workspace k x v = v\<lparr>v_workspaces := (v_workspaces v)(k := x)\<rparr>"

text \<open>Absent, or terminating.\<close>

definition gone :: "cluster_view \<Rightarrow> string \<times> objkey \<Rightarrow> bool" where
  "gone v k \<longleftrightarrow> (case v_workspaces v k of None \<Rightarrow> True | Some ws \<Rightarrow> ws_deletion ws \<noteq> None)"

lemma kcpClientC_host: "kcpClientForWorkspaceC Q r path = Inr c \<Longrightarrow> rc_host c = kcpHost r path"
  by (auto simp: kcpClientForWorkspaceC_def kcpHost_def client_or_error_Inr Let_def split: sum.splits)

lemma findCluster_found:
  "findCluster r cid wss = path \<Longrightarrow>
     path = [] \<and> (\<forall>ws \<in> set wss. \<not> is_cluster cid ws) \<or>
     (\<exists>ws \<in> set wss. is_cluster cid ws \<and> path = re_consumers r @ '':'' @ ws_name ws)"
  by (induction wss) (auto split: if_splits)

lemma tenant_nonempty: "tenant_of r v cid path \<Longrightarrow> path \<noteq> []"
  by (auto simp: tenant_of_def)

lemma mountedWorkspaceObject_sel [simp]:
  "ws_name (mountedWorkspaceObject m rn rns) = m" "ws_deletion (mountedWorkspaceObject m rn rns) = None"
  "mounts rn rns (mountedWorkspaceObject m rn rns)"
  by (simp_all add: mountedWorkspaceObject_def mounts_def)

lemma stored_mounts: "ws_stored x y \<Longrightarrow> mounts rn rns y = mounts rn rns x"
  by (simp add: ws_stored_def mounts_def)

context controller_server
begin

lemma consumer_path_keeps:
  "keeps view (consumerWorkspacePathForCluster Q r cid)"
  "keeps cview (consumerWorkspacePathForCluster Q r cid)"
  unfolding consumerWorkspacePathForCluster_def
  by (intro keeps_intros ws.keeps_list base_frame)+

lemma consumer_path_ok:
  assumes "consumerWorkspacePathForCluster Q r cid w = (Inr path, w')"
  shows "tenant_of r (view w) cid path \<or> path = [] \<and> (\<forall>p. \<not> tenant_of r (view w) cid p)"
proof -
  from assms obtain c wss where c: "kcpClientForWorkspaceC Q r (re_consumers r) = Inr c"
    and l: "rlist (p_workspaces (cp_base Q)) c [] w = (Inr wss, w')"
    and p: "findCluster r cid wss = path"
    by (auto simp: consumerWorkspacePathForCluster_def or_fail_Inr_iff)
  have h: "rc_host c = kcpHost r (re_consumers r)" by (rule kcpClientC_host [OF c])
  have listed: "v_workspaces (view w) (kcpHost r (re_consumers r), ([], ws_name ws)) = Some ws"
    if "ws \<in> set wss" for ws
    using ws.list_sound [OF l that] h by (auto dest: ws_scoped)
  show ?thesis
    using findCluster_found [OF p]
  proof
    assume none: "path = [] \<and> (\<forall>ws \<in> set wss. \<not> is_cluster cid ws)"
    have "\<not> tenant_of r (view w) cid p1" for p1
      using none ws.list_complete [OF l, where ns' = "[]"] h by (auto simp: tenant_of_def)
    with none show ?thesis by simp
  next
    assume "\<exists>ws \<in> set wss. is_cluster cid ws \<and> path = re_consumers r @ '':'' @ ws_name ws"
    with listed show ?thesis by (auto simp: tenant_of_def)
  qed
qed

text \<open>
  Both operations on mounted workspaces first find the tenant and make a client for it; then \<open>k\<close>
  runs.  Up to there nothing is written.
\<close>

lemma tenant_client_cases [consumes 1, case_names failed none tenant]:
  assumes run: "or_fail (consumerWorkspacePathForCluster Q r cid) (\<lambda>e. e) (\<lambda>path.
      if path = [] then m0
      else or_fail (lift_sum (kcpClientForWorkspaceC Q r path)) (\<lambda>e. e) (k path)) w = (res, w')"
  obtains e where "res = Inl e" "view w' = view w" "cview w' = cview w"
    | w1 where "view w1 = view w" "cview w1 = cview w" "\<forall>p. \<not> tenant_of r (view w) cid p"
      "m0 w1 = (res, w')"
    | path c w1 where "view w1 = view w" "cview w1 = cview w" "tenant_of r (view w) cid path"
      "rc_host c = kcpHost r path" "k path c w1 = (res, w')"
proof -
  obtain pr w1 where p: "consumerWorkspacePathForCluster Q r cid w = (pr, w1)"
    by (cases "consumerWorkspacePathForCluster Q r cid w")
  note v1 = keepsD [OF consumer_path_keeps(1) p] keepsD [OF consumer_path_keeps(2) p]
  show thesis
  proof (cases pr)
    case (Inl e)
    with run p v1 show thesis by (intro that(1)) (auto simp: or_fail_run)
  next
    case (Inr path)
    note ok = consumer_path_ok [OF p [unfolded Inr]]
    show thesis
    proof (cases "path = []")
      case True
      with ok tenant_nonempty have "\<forall>q. \<not> tenant_of r (view w) cid q" by blast
      moreover have "m0 w1 = (res, w')" using run p Inr True by (simp add: or_fail_run)
      ultimately show thesis using that(2) v1 by blast
    next
      case False
      with ok have t: "tenant_of r (view w) cid path" by simp
      show thesis
      proof (cases "kcpClientForWorkspaceC Q r path")
        case (Inl e)
        with run p \<open>pr = Inr path\<close> False v1 show thesis
          by (intro that(1) [of e]) (auto simp: or_fail_run [of _ _ _ w])
      next
        case (Inr c)
        with run p \<open>pr = Inr path\<close> False have "k path c w1 = (res, w')"
          by (simp add: or_fail_run [of _ _ _ w])
        with t v1 kcpClientC_host [OF Inr] show thesis using that(3) by blast
      qed
    qed
  qed
qed

text \<open>Whatever happens, at most the one mounted workspace is created, where there was none.\<close>

lemma ensure_mount_any:
  assumes run: "ensureMountedWorkspace Q r cid mw rn rns w = (res, w')"
  shows "view w' = view w \<or>
    (\<exists>path o2. tenant_of r (view w) cid path \<and> v_workspaces (view w) (mountKey r path mw) = None \<and>
       ws_stored (mountedWorkspaceObject mw rn rns) o2 \<and>
       view w' = put_workspace (mountKey r path mw) (Some o2) (view w))"
  using run unfolding ensureMountedWorkspace_def
proof (cases rule: tenant_client_cases)
  case (tenant path c w1)
  let ?o = "mountedWorkspaceObject mw rn rns"
  obtain res2 w2 where g: "rget (p_workspaces (cp_base Q)) c ([], mw) w1 = (res2, w2)"
    by (cases "rget (p_workspaces (cp_base Q)) c ([], mw) w1")
  obtain res3 w3 where cr: "rcreate (p_workspaces (cp_base Q)) c [] ?o w2 = (res3, w3)"
    by (cases "rcreate (p_workspaces (cp_base Q)) c [] ?o w2")
  have v2: "view w2 = view w" using ws.get_reads [OF g] tenant(1) by simp
  have k: "(rc_host c, ([], ws_name ?o)) = mountKey r path mw"
    using tenant(4) by (simp add: mountKey_def)
  have "view w3 = view w2 \<or> v_workspaces (view w2) (mountKey r path mw) = None \<and>
    (\<exists>o2. ws_stored ?o o2 \<and> view w3 = put_workspace (mountKey r path mw) (Some o2) (view w2))"
    using ws.create_ok [of c "[]" ?o w2 _ w3] ws.create_error [of c "[]" ?o w2 _ w3] cr
    unfolding k put_workspace_def by (cases res3) blast+
  moreover have "w' = w2 \<or> w' = w3"
    using tenant(5) g cr by (auto simp: on_result_run split: sum.splits if_splits)
  ultimately show ?thesis using v2 tenant(3) by auto
qed (auto simp: fail_def)

lemma ensure_mount_ok:
  assumes run: "ensureMountedWorkspace Q r cid mw rn rns w = (Inr u, w')"
  shows "\<exists>path x. tenant_of r (view w) cid path \<and>
    v_workspaces (view w') (mountKey r path mw) = Some x \<and> mounts rn rns x"
  using run unfolding ensureMountedWorkspace_def
proof (cases rule: tenant_client_cases)
  case (tenant path c w1)
  let ?o = "mountedWorkspaceObject mw rn rns"
  have k: "(rc_host c, ([], mw)) = mountKey r path mw" using tenant(4) by (simp add: mountKey_def)
  obtain res2 w2 where g: "rget (p_workspaces (cp_base Q)) c ([], mw) w1 = (res2, w2)"
    by (cases "rget (p_workspaces (cp_base Q)) c ([], mw) w1")
  have v2: "view w2 = view w1" by (rule ws.get_reads [OF g])
  show ?thesis
  proof (cases res2)
    case (Inr x)
    with tenant(5) g have "w' = w2" "mounts rn rns x" by (auto simp: on_result_run split: if_splits)
    with ws.get_found [OF g [unfolded Inr]] v2 k tenant(3) show ?thesis by auto
  next
    case (Inl e)
    obtain res3 w3 where cr: "rcreate (p_workspaces (cp_base Q)) c [] ?o w2 = (res3, w3)"
      by (cases "rcreate (p_workspaces (cp_base Q)) c [] ?o w2")
    have e: "e = NotFound" and w3: "w' = w3" and r3: "res3 = Inl AlreadyExists \<or> (\<exists>y. res3 = Inr y)"
      using tenant(5) g Inl cr by (auto simp: on_result_run split: sum.splits if_splits)
    from r3 show ?thesis
    proof
      assume "res3 = Inl AlreadyExists"
      with cr have "v_workspaces (view w2) (mountKey r path mw) \<noteq> None"
        using ws.create_exists [of c "[]" ?o w2 w3] k by simp
      with ws.get_missing [OF g [unfolded Inl e]] k v2 show ?thesis by simp
    next
      assume "\<exists>y. res3 = Inr y"
      then obtain y where y: "rcreate (p_workspaces (cp_base Q)) c [] ?o w2 = (Inr y, w3)"
        using cr by auto
      have "v_workspaces (view w3) (mountKey r path mw) = Some y" "ws_stored ?o y"
        using ws.create_ok [OF y] k by auto
      with w3 tenant(3) stored_mounts [of ?o y] show ?thesis by auto
    qed
  qed
qed (auto simp: fail_def)

lemma ensure_mount_keeps: "keeps cview (ensureMountedWorkspace Q r cid mw rn rns)"
  unfolding ensureMountedWorkspace_def
  by (intro keeps_intros consumer_path_keeps)
    (auto intro!: keeps_on_result base_frame split: sum.split)

lemma delete_mount_keeps: "keeps cview (deleteMountedWorkspace Q r cid mw)"
  unfolding deleteMountedWorkspace_def
  by (intro keeps_intros consumer_path_keeps)
    (auto intro!: keeps_on_result base_frame split: sum.split)

lemma delete_mount_any:
  assumes run: "deleteMountedWorkspace Q r cid mw w = (res, w')"
  shows "view w' = view w \<or>
    (\<exists>path x. tenant_of r (view w) cid path \<and>
       view w' = put_workspace (mountKey r path mw) x (view w) \<and> gone (view w') (mountKey r path mw))"
  using run unfolding deleteMountedWorkspace_def
proof (cases rule: tenant_client_cases)
  case (tenant path c w1)
  have k: "(rc_host c, ([], mw)) = mountKey r path mw" using tenant(4) by (simp add: mountKey_def)
  obtain res2 w2 where d: "rdelete (p_workspaces (cp_base Q)) c ([], mw) w1 = (res2, w2)"
    by (cases "rdelete (p_workspaces (cp_base Q)) c ([], mw) w1")
  have "w' = w2"
    using tenant(5) d by (auto simp: on_result_run split: sum.splits if_splits)
  from ws.delete_any [OF d, unfolded tenant(1) k] show ?thesis
  proof
    assume "view w2 = view w"
    with \<open>w' = w2\<close> show ?thesis by simp
  next
    assume "\<exists>x. (case x of None \<Rightarrow> True
         | Some o2 \<Rightarrow> \<exists>o1. v_workspaces (view w) (mountKey r path mw) = Some o1 \<and> ws_dying o1 o2) \<and>
        view w2 = (view w)\<lparr>v_workspaces := (v_workspaces (view w))(mountKey r path mw := x)\<rparr>"
    then obtain x where x: "case x of None \<Rightarrow> True
         | Some o2 \<Rightarrow> \<exists>o1. v_workspaces (view w) (mountKey r path mw) = Some o1 \<and> ws_dying o1 o2"
      and "view w2 = put_workspace (mountKey r path mw) x (view w)"
      unfolding put_workspace_def by blast
    moreover from this have "gone (view w2) (mountKey r path mw)"
      by (auto simp: put_workspace_def gone_def ws_dying_def split: option.splits)
    ultimately have "view w2 = put_workspace (mountKey r path mw) x (view w)"
      "gone (view w2) (mountKey r path mw)" by auto
    with \<open>w' = w2\<close> tenant(3) show ?thesis by blast
  qed
qed (auto simp: fail_def)

lemma delete_mount_ok:
  assumes run: "deleteMountedWorkspace Q r cid mw w = (Inr u, w')"
  shows "(\<forall>p. \<not> tenant_of r (view w) cid p) \<or>
    (\<exists>path. tenant_of r (view w) cid path \<and> gone (view w') (mountKey r path mw))"
  using run unfolding deleteMountedWorkspace_def
proof (cases rule: tenant_client_cases)
  case (tenant path c w1)
  have k: "(rc_host c, ([], mw)) = mountKey r path mw" using tenant(4) by (simp add: mountKey_def)
  obtain res2 w2 where d: "rdelete (p_workspaces (cp_base Q)) c ([], mw) w1 = (res2, w2)"
    by (cases "rdelete (p_workspaces (cp_base Q)) c ([], mw) w1")
  have w2: "w' = w2" and r2: "res2 = Inl NotFound \<or> (\<exists>y. res2 = Inr y)"
    using tenant(5) d by (auto simp: on_result_run split: sum.splits if_splits)
  from r2 have "gone (view w2) (mountKey r path mw)"
  proof
    assume "res2 = Inl NotFound"
    with d ws.delete_missing [of c "([], mw)" w1 w2] k show ?thesis by (simp add: gone_def)
  next
    assume "\<exists>y. res2 = Inr y"
    then obtain y where "rdelete (p_workspaces (cp_base Q)) c ([], mw) w1 = (Inr y, w2)" using d by auto
    from ws.delete_ok [OF this] k show ?thesis
      by (auto simp: gone_def ws_dying_def split: option.splits)
  qed
  with w2 tenant(3) show ?thesis by auto
qed auto

end

end
