(* ===== verification/Ctrl_Workload.thy ===== *)
theory Ctrl_Workload
  imports Ctrl_Laws
begin

text \<open>
  What a reconcile does to the workload cluster: the manifests it applies, the taints it sets, and
  that neither touches kcp or the management cluster's objects.
\<close>

text \<open>Every part of the controller's view but the nodes and applied manifests.\<close>

definition management :: "ctrl_view \<Rightarrow> kubernetes store \<times> capi_cluster store" where
  "management v = (cv_kubes v, cv_clusters v)"

text \<open>The node a taint update asks for.\<close>

definition wantedNode :: "'w ctrl_platform \<Rightarrow> bool \<Rightarrow> node \<Rightarrow> node" where
  "wantedNode Q allow nd = nd\<lparr>no_taints := taints_spec Q (no_taints nd) allow\<rparr>"

definition node_done :: "'w ctrl_platform \<Rightarrow> bool \<Rightarrow> string \<Rightarrow> ctrl_view \<Rightarrow> node \<Rightarrow> bool" where
  "node_done Q allow h v nd \<longleftrightarrow>
     (\<exists>x. cv_nodes v (h, no_name nd) = Some x \<and> node_stored (wantedNode Q allow nd) x)"

lemma wantedNode_name [simp]: "no_name (wantedNode Q allow nd) = no_name nd"
  by (simp add: wantedNode_def)

lemma node_stored_refl [simp]: "node_stored x x"
  by (simp add: node_stored_def)

lemma put_node_sel [simp]:
  "cv_nodes (put_node k x v) = (cv_nodes v)(k \<mapsto> x)" "management (put_node k x v) = management v"
  "cv_applied (put_node k x v) = cv_applied v"
  by (simp_all add: put_node_def management_def)

lemma put_applied_sel [simp]:
  "cv_applied (put_applied k x v) = (cv_applied v)(k \<mapsto> x)"
  "management (put_applied k x v) = management v" "cv_nodes (put_applied k x v) = cv_nodes v"
  by (simp_all add: put_applied_def management_def)

text \<open>
  \<open>nodes_effect\<close>: of the nodes of server \<open>h\<close>, those of the control plane have the wanted taints (or,
  unless \<open>all\<close>, the old ones); no other node changes.
\<close>

definition nodes_effect ::
  "'w ctrl_platform \<Rightarrow> bool \<Rightarrow> string \<Rightarrow> bool \<Rightarrow> ctrl_view \<Rightarrow> ctrl_view \<Rightarrow> bool" where
  "nodes_effect Q allow h all v v' \<longleftrightarrow>
     (\<forall>k. (case cv_nodes v k of
        None \<Rightarrow> cv_nodes v' k = None
      | Some nd \<Rightarrow>
          if fst k = h \<and> is_control_plane nd
          then node_done Q allow h v' nd \<or> \<not> all \<and> cv_nodes v' k = Some nd
          else cv_nodes v' k = Some nd))"

text \<open>
  \<open>was_applied h us v u\<close>: the object \<open>u\<close> of the manifest has been applied at server \<open>h\<close> by the field
  manager of the controller, with the body of an object of \<open>us\<close> of the same name.
\<close>

definition was_applied :: "string \<Rightarrow> manifest_object set \<Rightarrow> ctrl_view \<Rightarrow> manifest_object \<Rightarrow> bool" where
  "was_applied h us v u \<longleftrightarrow>
     (\<exists>rs nso body u'. (nso = None \<or> nso = Some (mo_namespace u)) \<and>
        cv_applied v (h, rs, nso, mo_name u, ''dbaas-kubernetes-controller'') = Some body \<and>
        u' \<in> us \<and> mo_name u' = mo_name u \<and> mo_json u' = Inr body)"

definition manifest_docs :: "(go_error + manifest_object) list \<Rightarrow> manifest_object set" where
  "manifest_docs ds = {u. Inr u \<in> set ds \<and> mo_keys u \<noteq> 0}"

context controller_server
begin

section \<open>What is left alone\<close>

lemma reads_keep:
  "keeps view (workloadClusterPhase Q r ns n)" "keeps cview (workloadClusterPhase Q r ns n)"
  "keeps view (clusterKubeconfigExists Q r ns n)" "keeps cview (clusterKubeconfigExists Q r ns n)"
  "keeps view (workloadRESTConfig Q r ns n)" "keeps cview (workloadRESTConfig Q r ns n)"
  unfolding workloadClusterPhase_def clusterKubeconfigExists_def workloadRESTConfig_def
  by (intro keeps_intros reads_view reads_cview base_frame sec.keeps_get)+

lemma apply_keeps:
  "keeps view (cp_apply Q c rs nso n body opts)"
  "keeps (\<lambda>w. management (cview w)) (cp_apply Q c rs nso n body opts)"
  "keeps (\<lambda>w. cv_nodes (cview w)) (cp_apply Q c rs nso n body opts)"
proof -
  have "\<exists>res w'. cp_apply Q c rs nso n body opts w = (res, w') \<and>
      (cview w' = cview w \<or> cview w' = put_applied (rc_host c, rs, nso, n, fst opts) body (cview w))" for w
    using apply_ok [of c rs nso n body opts w] apply_error [of c rs nso n body opts w]
    by (cases "cp_apply Q c rs nso n body opts w"; cases "fst (cp_apply Q c rs nso n body opts w)") auto
  then have c: "cview (snd (cp_apply Q c rs nso n body opts w)) = cview w \<or>
      cview (snd (cp_apply Q c rs nso n body opts w)) =
        put_applied (rc_host c, rs, nso, n, fst opts) body (cview w)" for w
    by (metis snd_conv)
  show "keeps (\<lambda>w. management (cview w)) (cp_apply Q c rs nso n body opts)"
    "keeps (\<lambda>w. cv_nodes (cview w)) (cp_apply Q c rs nso n body opts)"
    by (rule keepsI, use c in \<open>metis put_applied_sel\<close>)+
qed (rule writes_view)

lemma updateNode_any:
  assumes "cp_updateNode Q c nd w = (res, w')"
  shows "cview w' = cview w \<or> (\<exists>x. node_stored nd x \<and> cview w' = put_node (rc_host c, no_name nd) x (cview w))"
  using assms node_update_ok [of c nd w _ w'] node_update_error [of c nd w _ w'] by (cases res) auto

lemma updateNode_keeps: "keeps (\<lambda>w. management (cview w)) (cp_updateNode Q c nd)"
proof (rule keepsI)
  fix w
  obtain res w' where "cp_updateNode Q c nd w = (res, w')" by (cases "cp_updateNode Q c nd w")
  with updateNode_any [OF this]
  show "management (cview (snd (cp_updateNode Q c nd w))) = management (cview w)" by auto
qed

lemma applyManifest_keeps:
  "keeps view (applyManifest Q cfg ds)" "keeps (\<lambda>w. management (cview w)) (applyManifest Q cfg ds)"
  "keeps (\<lambda>w. cv_nodes (cview w)) (applyManifest Q cfg ds)"
  by (induction ds)
    (auto simp: applyObject_def intro!: keeps_intros apply_keeps reads_view keeps_part [OF reads_cview(5)])

lemma calico_keeps:
  "keeps view (ensureCalicoInstalled Q r ns n)"
  "keeps (\<lambda>w. management (cview w)) (ensureCalicoInstalled Q r ns n)"
  "keeps (\<lambda>w. cv_nodes (cview w)) (ensureCalicoInstalled Q r ns n)"
  unfolding ensureCalicoInstalled_def Let_def
  by (intro keeps_intros reads_view keeps_part [OF reads_cview(3)] reads_keep keeps_part [OF reads_keep(6)]
      applyManifest_keeps)+

lemma reconcileNode_keeps:
  "keeps view (reconcileNode Q cfg allow nd)" "keeps (\<lambda>w. management (cview w)) (reconcileNode Q cfg allow nd)"
  unfolding reconcileNode_def
  by (intro keeps_intros writes_view updateNode_keeps)+

lemma scheduling_keeps:
  "keeps view (reconcileControlPlaneScheduling Q r obj)"
  "keeps (\<lambda>w. management (cview w)) (reconcileControlPlaneScheduling Q r obj)"
  unfolding reconcileControlPlaneScheduling_def
  by (intro keeps_intros reads_keep keeps_part [OF reads_keep(6)] reads_view keeps_part [OF reads_cview(4)]
      reconcileNode_keeps)+

lemma connect_keeps:
  "keeps view (connectWorkload Q r obj k)" "keeps (\<lambda>w. management (cview w)) (connectWorkload Q r obj k)"
  unfolding connectWorkload_def by (intro keeps_intros calico_keeps scheduling_keeps)+

section \<open>Taints of the control plane nodes\<close>

lemma reconcileNode_run:
  assumes run: "reconcileNode Q c allow nd w = (res, w')"
    and there: "cv_nodes (cview w) (rc_host c, no_name nd) = Some nd"
  shows "cview w' = cview w \<or>
      (\<exists>x. node_stored (wantedNode Q allow nd) x \<and> cview w' = put_node (rc_host c, no_name nd) x (cview w))"
    and "res = Inr u \<Longrightarrow> node_done Q allow (rc_host c) (cview w') nd"
proof -
  let ?n = "wantedNode Q allow nd"
  consider (same) "taints_spec Q (no_taints nd) allow = no_taints nd" "res = Inr ()" "w' = w"
    | (failed) e e' where "cp_updateNode Q c ?n w = (Inl e, w')" "res = Inl e'"
    | (written) x where "cp_updateNode Q c ?n w = (Inr x, w')" "res = Inr ()"
    using run
    by (auto simp: reconcileNode_def desired_taints_spec wantedNode_def or_fail_run
        split: if_splits prod.splits sum.splits)
  note cases = this
  show "cview w' = cview w \<or>
      (\<exists>x. node_stored ?n x \<and> cview w' = put_node (rc_host c, no_name nd) x (cview w))"
    using cases updateNode_any [of c ?n w _ w'] by cases auto
  assume "res = Inr u"
  with cases show "node_done Q allow (rc_host c) (cview w') nd"
  proof cases
    case same
    then have "?n = nd" by (simp add: wantedNode_def)
    with there same show ?thesis by (auto simp: node_done_def)
  next
    case written
    with node_update_ok [OF written(1)] show ?thesis by (auto simp: node_done_def)
  qed auto
qed

text \<open>
  The loop leaves every other node as it was, and on success each node has the taints asked for; a
  node of a run that stopped has its old taints or the new ones.
\<close>

lemma reconcileNodes_run:
  assumes "for_each (reconcileNode Q c allow) nds w = (res, w')"
    and "distinct (map no_name nds)"
    and "\<forall>nd \<in> set nds. cv_nodes (cview w) (rc_host c, no_name nd) = Some nd"
  shows "(\<forall>k. k \<notin> (\<lambda>nd. (rc_host c, no_name nd)) ` set nds \<longrightarrow> cv_nodes (cview w') k = cv_nodes (cview w) k) \<and>
    (\<forall>nd \<in> set nds. node_done Q allow (rc_host c) (cview w') nd \<or>
       (res \<noteq> Inr () \<and> cv_nodes (cview w') (rc_host c, no_name nd) = Some nd))"
  using assms
proof (induction nds arbitrary: w)
  case (Cons nd nds)
  let ?k = "(rc_host c, no_name nd)"
  from Cons.prems(3) have nd: "cv_nodes (cview w) ?k = Some nd" by simp
  from Cons.prems(1) have "or_fail (reconcileNode Q c allow nd) (\<lambda>e. e)
      (\<lambda>_. for_each (reconcileNode Q c allow) nds) w = (res, w')" by simp
  then show ?case
  proof (cases rule: or_fail_cases)
    case (failed e)
    with Cons.prems(2,3) reconcileNode_run(1) [OF failed(1) nd] nd show ?thesis
      by (auto simp: node_done_def image_iff)
  next
    case (went_on u w1)
    from reconcileNode_run(1) [OF went_on(1) nd]
    have other: "cv_nodes (cview w1) k = cv_nodes (cview w) k" if "k \<noteq> ?k" for k
      using that by auto
    have "\<forall>nd' \<in> set nds. cv_nodes (cview w1) (rc_host c, no_name nd') = Some nd'"
      using Cons.prems(2,3) other by (auto simp: image_iff)
    from Cons.IH [OF went_on(2) _ this] Cons.prems(2)
    have ih: "\<forall>k. k \<notin> (\<lambda>nd. (rc_host c, no_name nd)) ` set nds \<longrightarrow>
          cv_nodes (cview w') k = cv_nodes (cview w1) k"
      "\<forall>nd \<in> set nds. node_done Q allow (rc_host c) (cview w') nd \<or>
         (res \<noteq> Inr () \<and> cv_nodes (cview w') (rc_host c, no_name nd) = Some nd)"
      by auto
    have "?k \<notin> (\<lambda>nd. (rc_host c, no_name nd)) ` set nds"
      using Cons.prems(2) by (auto simp: image_iff)
    with ih(1) reconcileNode_run(2) [OF went_on(1) nd refl]
    have "node_done Q allow (rc_host c) (cview w') nd" by (simp add: node_done_def)
    with ih other show ?thesis by auto
  qed
qed simp

lemma workloadRESTConfig_ok:
  assumes "workloadRESTConfig Q r ns n w = (Inr cfg, w')"
  shows "\<exists>s. v_secrets (view w) (rc_host (re_k8s r), kubeconfigKey ns n) = Some s \<and>
    cp_restConfig Q (gm_string (sec_data s) ''value'') = Inr cfg"
  using assms
  by (auto simp: workloadRESTConfig_def or_fail_Inr_iff dest!: sec.get_found)

lemma nodes_effect_refl: "nodes_effect Q allow h False v v"
  by (auto simp: nodes_effect_def split: option.split)

lemma reconcileNodes_effect:
  assumes run: "for_each (reconcileNode Q c allow) nds w = (res, w')"
    and list: "distinct (map no_name nds)"
      "set nds = {nd. cv_nodes (cview w) (rc_host c, no_name nd) = Some nd \<and> is_control_plane nd}"
  shows "nodes_effect Q allow (rc_host c) (res = Inr ()) (cview w) (cview w')"
proof -
  have there: "\<forall>nd \<in> set nds. cv_nodes (cview w) (rc_host c, no_name nd) = Some nd"
    using list(2) by simp
  note R = reconcileNodes_run [OF run list(1) there]
  show ?thesis
    unfolding nodes_effect_def
  proof
    fix k
    show "case cv_nodes (cview w) k of
        None \<Rightarrow> cv_nodes (cview w') k = None
      | Some nd \<Rightarrow>
          if fst k = rc_host c \<and> is_control_plane nd
          then node_done Q allow (rc_host c) (cview w') nd \<or>
            \<not> res = Inr () \<and> cv_nodes (cview w') k = Some nd
          else cv_nodes (cview w') k = Some nd"
    proof (cases "\<exists>nd \<in> set nds. k = (rc_host c, no_name nd)")
      case True
      then obtain nd where nd: "nd \<in> set nds" "k = (rc_host c, no_name nd)" by blast
      with list(2) have "cv_nodes (cview w) k = Some nd" "is_control_plane nd" by auto
      with nd R show ?thesis by auto
    next
      case False
      with R have same: "cv_nodes (cview w') k = cv_nodes (cview w) k" by blast
      show ?thesis
      proof (cases "cv_nodes (cview w) k")
        case (Some nd)
        have "no_name nd = snd k" using node_named [of w "fst k" "snd k" nd] Some by simp
        then have k: "k = (fst k, no_name nd)" by (simp add: prod_eq_iff)
        have "\<not> (fst k = rc_host c \<and> is_control_plane nd)"
        proof
          assume a: "fst k = rc_host c \<and> is_control_plane nd"
          with k have k': "k = (rc_host c, no_name nd)" by simp
          with Some have "cv_nodes (cview w) (rc_host c, no_name nd) = Some nd" by simp
          with a list(2) have "nd \<in> set nds" by simp
          with False k' show False by blast
        qed
        with same Some show ?thesis by auto
      qed (use same in simp)
    qed
  qed
qed

lemma scheduling_run:
  assumes run: "reconcileControlPlaneScheduling Q r obj w = (res, w')"
  shows "cview w' = cview w \<and> res \<noteq> Inr () \<or>
    (\<exists>s cfg. v_secrets (view w) (rc_host (re_k8s r), kubeconfigKey (ku_namespace obj) (ku_name obj)) = Some s \<and>
       cp_restConfig Q (gm_string (sec_data s) ''value'') = Inr cfg \<and>
       nodes_effect Q (allowScheduling obj) (rc_host cfg) (res = Inr ()) (cview w) (cview w'))"
  using run unfolding reconcileControlPlaneScheduling_def
proof (cases rule: or_fail_cases)
  case (failed e)
  with keepsD [OF reads_keep(6) failed(1)] show ?thesis by simp
next
  case (went_on cfg w1)
  note v1 = keepsD [OF reads_keep(6) went_on(1)]
  from went_on(2) show ?thesis
  proof (cases rule: or_fail_cases)
    case (failed e)
    with v1 show ?thesis by (auto simp: lift_sum_def)
  next
    case l: (went_on cl w2)
    then have c: "cl = cfg" "w2 = w1" by (auto simp: client_or_error_Inr lift_sum_def)
    from l(2) show ?thesis
    proof (cases rule: or_fail_cases)
      case (failed e)
      with keepsD [OF reads_cview(4) failed(1)] v1 c show ?thesis by simp
    next
      case n: (went_on nds w3)
      have v3: "cview w3 = cview w" using keepsD [OF reads_cview(4) n(1)] v1 c by simp
      have "cp_listNodes Q cl controlPlaneNoScheduleTaintKey w2 = (Inr nds, w3)"
        using n(1) by (simp add: controlPlaneNoScheduleTaintKey_def)
      from nodes_listed [OF this] have list: "distinct (map no_name nds)"
        "set nds = {nd. cv_nodes (cview w3) (rc_host cl, no_name nd) = Some nd \<and> is_control_plane nd}"
        using v3 v1 c by auto
      from reconcileNodes_effect [OF n(2) list] v3 c workloadRESTConfig_ok [OF went_on(1)]
      show ?thesis by auto
    qed
  qed
qed

section \<open>Manifests\<close>

lemma applyObject_any:
  assumes run: "applyObject Q c u w = (res, w')"
  shows "cview w' = cview w \<or>
    (\<exists>rs nso body. (nso = None \<or> nso = Some (mo_namespace u)) \<and> mo_json u = Inr body \<and>
       cview w' = put_applied (rc_host c, rs, nso, mo_name u, ''dbaas-kubernetes-controller'') body (cview w))"
  using run unfolding applyObject_def
proof (cases rule: or_fail_cases)
  case (failed e)
  with keepsD [OF reads_cview(5) failed(1)] show ?thesis by simp
next
  case (went_on m w1)
  obtain rs ns where m: "m = (rs, ns)" by (cases m)
  note v1 = keepsD [OF reads_cview(5) went_on(1)]
  show ?thesis
  proof (cases "mo_json u")
    case (Inl e)
    with went_on m v1 show ?thesis by simp
  next
    case (Inr body)
    define nso where "nso = (if ns then Some (mo_namespace u) else None)"
    define opts where "opts = (''dbaas-kubernetes-controller'', boolPtr True)"
    obtain x w2 where a: "cp_apply Q c rs nso (mo_name u) body opts w1 = (x, w2)"
      by (metis prod.collapse)
    have "w' = w2"
      using went_on(2) a Inr m by (auto simp: or_fail_run nso_def opts_def split: sum.splits)
    moreover have "cview w2 = cview w1 \<or>
        cview w2 = put_applied (rc_host c, rs, nso, mo_name u, ''dbaas-kubernetes-controller'') body (cview w1)"
      using apply_ok [of c rs nso "mo_name u" body opts w1 _ w2]
        apply_error [of c rs nso "mo_name u" body opts w1 _ w2] a by (cases x) (auto simp: opts_def)
    moreover have "nso = None \<or> nso = Some (mo_namespace u)" by (simp add: nso_def)
    ultimately show ?thesis using v1 Inr by auto
  qed
qed

lemma applyObject_ok:
  assumes run: "applyObject Q c u w = (Inr x, w')"
  shows "was_applied (rc_host c) {u} (cview w') u"
proof -
  from run obtain rs ns w1 body where j: "mo_json u = Inr body"
    and a: "cp_apply Q c rs (if ns then Some (mo_namespace u) else None) (mo_name u) body
        (''dbaas-kubernetes-controller'', boolPtr True) w1 = (Inr (), w')"
    unfolding applyObject_def
    by (cases "mo_json u") (auto simp: or_fail_Inr_iff or_fail_run split: prod.splits sum.splits)
  from apply_ok [OF a] have
    "cv_applied (cview w') (rc_host c, rs, if ns then Some (mo_namespace u) else None, mo_name u,
       ''dbaas-kubernetes-controller'') = Some body" by simp
  with j show ?thesis
    unfolding was_applied_def by (cases ns) auto
qed

lemma was_applied_more:
  assumes "was_applied h us v u" "us \<subseteq> us'"
  shows "was_applied h us' v u"
  using assms unfolding was_applied_def by blast

lemma was_applied_step:
  assumes "was_applied (rc_host c) us (cview w) u" and "applyObject Q c u1 w = (res, w')" and "u1 \<in> us"
  shows "was_applied (rc_host c) us (cview w') u"
  using applyObject_any [OF assms(2)]
proof
  assume "\<exists>rs nso body. (nso = None \<or> nso = Some (mo_namespace u1)) \<and> mo_json u1 = Inr body \<and>
     cview w' = put_applied (rc_host c, rs, nso, mo_name u1, ''dbaas-kubernetes-controller'') body (cview w)"
  then obtain rs1 nso1 body1 where new: "mo_json u1 = Inr body1"
    "cview w' = put_applied (rc_host c, rs1, nso1, mo_name u1, ''dbaas-kubernetes-controller'') body1 (cview w)"
    by blast
  from assms(1) obtain rs nso body u' where old: "nso = None \<or> nso = Some (mo_namespace u)"
    "cv_applied (cview w) (rc_host c, rs, nso, mo_name u, ''dbaas-kubernetes-controller'') = Some body"
    "u' \<in> us" "mo_name u' = mo_name u" "mo_json u' = Inr body"
    unfolding was_applied_def by blast
  show ?thesis
  proof (cases "rs1 = rs \<and> nso1 = nso \<and> mo_name u1 = mo_name u")
    case True
    with new have "cv_applied (cview w') (rc_host c, rs, nso, mo_name u, ''dbaas-kubernetes-controller'') = Some body1"
      by simp
    with True old(1) new(1) assms(3) show ?thesis unfolding was_applied_def by blast
  next
    case False
    with new old(2) have "cv_applied (cview w') (rc_host c, rs, nso, mo_name u, ''dbaas-kubernetes-controller'') = Some body"
      by auto
    with old show ?thesis unfolding was_applied_def by blast
  qed
qed (use assms(1) in simp)

lemma applyManifest_ok:
  assumes "applyManifest Q c ds w = (Inr x, w')" and "manifest_docs ds \<subseteq> us"
  shows "list_all (\<lambda>d. \<exists>u. d = Inr u) ds \<and>
    (\<forall>u. u \<in> manifest_docs ds \<or> was_applied (rc_host c) us (cview w) u \<longrightarrow>
       was_applied (rc_host c) us (cview w') u)"
  using assms
proof (induction ds arbitrary: w)
  case (Cons d ds)
  from Cons.prems(1) obtain u1 where d: "d = Inr u1" by (cases d) auto
  have sub: "manifest_docs ds \<subseteq> us" using Cons.prems(2) by (auto simp: manifest_docs_def)
  show ?case
  proof (cases "mo_keys u1 = 0")
    case True
    with Cons.prems(1) d have "applyManifest Q c ds w = (Inr x, w')" by simp
    moreover have "manifest_docs (d # ds) = manifest_docs ds"
      using True d by (auto simp: manifest_docs_def)
    ultimately show ?thesis using Cons.IH sub d by simp
  next
    case False
    with Cons.prems(1) d obtain y w1 where a: "applyObject Q c u1 w = (Inr y, w1)"
      and r: "applyManifest Q c ds w1 = (Inr x, w')" by (auto simp: or_fail_Inr_iff)
    have u1: "u1 \<in> us" using Cons.prems(2) d False by (auto simp: manifest_docs_def)
    have now: "was_applied (rc_host c) us (cview w1) u1"
      using was_applied_more [OF applyObject_ok [OF a]] u1 by simp
    have kept: "was_applied (rc_host c) us (cview w1) u" if "was_applied (rc_host c) us (cview w) u" for u
      by (rule was_applied_step [OF that a u1])
    have "manifest_docs (d # ds) = insert u1 (manifest_docs ds)"
      using False d by (auto simp: manifest_docs_def)
    with Cons.IH [OF r sub] now kept d show ?thesis by auto
  qed
qed (simp add: manifest_docs_def)

lemma calico_ok:
  assumes run: "ensureCalicoInstalled Q r ns n w = (Inr u, w')"
  shows "\<exists>cm s cfg. fst (rget (cp_configmaps Q) (re_k8s r) (''default'', ''dbaas-calico'') w) = Inr cm \<and>
    v_secrets (view w) (rc_host (re_k8s r), kubeconfigKey ns n) = Some s \<and>
    cp_restConfig Q (gm_string (sec_data s) ''value'') = Inr cfg \<and>
    gm_string (cm_data cm) ''calico.yaml'' \<noteq> [] \<and>
    (let ds = cp_decode Q (gm_string (cm_data cm) ''calico.yaml'') in
       list_all (\<lambda>d. \<exists>x. d = Inr x) ds \<and>
       (\<forall>x \<in> manifest_docs ds. was_applied (rc_host cfg) (manifest_docs ds) (cview w') x))"
proof -
  from run obtain cm w1 cfg w2 where cm: "rget (cp_configmaps Q) (re_k8s r) (''default'', ''dbaas-calico'') w = (Inr cm, w1)"
    and ne: "gm_string (cm_data cm) ''calico.yaml'' \<noteq> []"
    and cfg: "workloadRESTConfig Q r ns n w1 = (Inr cfg, w2)"
    and ap: "applyManifest Q cfg (cp_decode Q (gm_string (cm_data cm) ''calico.yaml'')) w2 = (Inr u, w')"
    by (auto simp: ensureCalicoInstalled_def or_fail_Inr_iff Let_def split: if_splits)
  have "view w1 = view w" by (rule keepsD [OF reads_view(3) cm])
  with workloadRESTConfig_ok [OF cfg] obtain s where
    s: "v_secrets (view w) (rc_host (re_k8s r), kubeconfigKey ns n) = Some s"
      "cp_restConfig Q (gm_string (sec_data s) ''value'') = Inr cfg" by auto
  from cm have "fst (rget (cp_configmaps Q) (re_k8s r) (''default'', ''dbaas-calico'') w) = Inr cm" by simp
  with s ne applyManifest_ok [OF ap subset_refl] show ?thesis
    unfolding Let_def by blast
qed

text \<open>Once the manifests are in, the scheduling step leaves them there.\<close>

lemma was_applied_cong:
  "cv_applied v' = cv_applied v \<Longrightarrow> was_applied h us v' u = was_applied h us v u"
  by (simp add: was_applied_def)

end

section \<open>The scheduling step converges\<close>

text \<open>Every control plane node of the workload cluster has the wanted taints.\<close>

definition nodes_settled :: "'w ctrl_platform \<Rightarrow> bool \<Rightarrow> string \<Rightarrow> ctrl_view \<Rightarrow> bool" where
  "nodes_settled Q allow h cv \<longleftrightarrow>
     (\<forall>n nd. cv_nodes cv (h, n) = Some nd \<and> is_control_plane nd \<longrightarrow>
        taints_spec Q (no_taints nd) allow = no_taints nd)"

definition scheduling_done ::
  "'w ctrl_platform \<Rightarrow> reconciler \<Rightarrow> kubernetes \<Rightarrow> cluster_view \<times> ctrl_view \<Rightarrow> bool" where
  "scheduling_done Q r obj = (\<lambda>(v, cv).
     \<exists>s cfg. v_secrets v (rc_host (re_k8s r), kubeconfigKey (ku_namespace obj) (ku_name obj)) = Some s \<and>
       cp_restConfig Q (gm_string (sec_data s) ''value'') = Inr cfg \<and>
       nodes_settled Q (allowScheduling obj) (rc_host cfg) cv)"

definition scheduling_frame :: "cluster_view \<times> ctrl_view \<Rightarrow> cluster_view \<times> ctrl_view \<Rightarrow> bool" where
  "scheduling_frame = (\<lambda>(v, cv) (v', cv'). v' = v \<and> management cv' = management cv)"

lemma node_done_control_plane:
  assumes "node_done Q allow h cv' nd" "cv_nodes cv' (h, no_name nd) = Some x" "is_control_plane nd"
  shows "is_control_plane x" "taints_spec Q (no_taints x) allow = no_taints x"
  using assms taints_spec_idem [of Q "no_taints nd" allow]
  by (auto simp: node_done_def node_stored_def wantedNode_def is_control_plane_def)

context controller_server
begin

lemma nodes_effect_settled:
  assumes eff: "nodes_effect Q allow h True (cview w) cv'"
  shows "nodes_settled Q allow h cv'"
  unfolding nodes_settled_def
proof (intro allI impI)
  fix n x
  assume x: "cv_nodes cv' (h, n) = Some x \<and> is_control_plane x"
  show "taints_spec Q (no_taints x) allow = no_taints x"
  proof (cases "cv_nodes (cview w) (h, n)")
    case None
    with eff [unfolded nodes_effect_def, THEN spec, of "(h, n)"] x show ?thesis by simp
  next
    case (Some nd)
    have n: "no_name nd = n" by (rule node_named [OF Some])
    show ?thesis
    proof (cases "is_control_plane nd")
      case True
      with eff [unfolded nodes_effect_def, THEN spec, of "(h, n)"] Some
      have "node_done Q allow h cv' nd" by simp
      from node_done_control_plane(2) [OF this _ True] x n show ?thesis by simp
    next
      case False
      with eff [unfolded nodes_effect_def, THEN spec, of "(h, n)"] Some x show ?thesis by simp
    qed
  qed
qed

text \<open>On nodes that have their taints the loop writes nothing.\<close>

lemma reconcileNodes_settled:
  assumes "\<forall>nd \<in> set nds. taints_spec Q (no_taints nd) allow = no_taints nd"
  shows "for_each (reconcileNode Q c allow) nds w = (Inr (), w)"
  using assms by (induction nds) (auto simp: reconcileNode_def desired_taints_spec or_fail_run)

lemma scheduling_stable:
  assumes run: "reconcileControlPlaneScheduling Q r obj w = (res, w')"
    and settled: "scheduling_done Q r obj (view w, cview w)"
  shows "view w' = view w" "cview w' = cview w"
proof -
  show "view w' = view w" by (rule keepsD [OF scheduling_keeps(1) run])
  from run show "cview w' = cview w"
    unfolding reconcileControlPlaneScheduling_def
  proof (cases rule: or_fail_cases)
    case (failed e)
    then show ?thesis using keepsD [OF reads_keep(6) failed(1)] by simp
  next
    case (went_on cfg w1)
    note v1 = keepsD [OF reads_keep(6) went_on(1)]
    from went_on(2) show ?thesis
    proof (cases rule: or_fail_cases)
      case (failed e)
      with v1 show ?thesis by (auto simp: lift_sum_def)
    next
      case l: (went_on cl w2)
      then have c: "cl = cfg" "w2 = w1" by (auto simp: client_or_error_Inr lift_sum_def)
      from l(2) show ?thesis
      proof (cases rule: or_fail_cases)
        case (failed e)
        with keepsD [OF reads_cview(4) failed(1)] v1 c show ?thesis by simp
      next
        case n: (went_on nds w3)
        have v3: "cview w3 = cview w" using keepsD [OF reads_cview(4) n(1)] v1 c by simp
        have "cp_listNodes Q cl controlPlaneNoScheduleTaintKey w2 = (Inr nds, w3)"
          using n(1) by (simp add: controlPlaneNoScheduleTaintKey_def)
        from nodes_listed [OF this] have "set nds =
            {nd. cv_nodes (cview w) (rc_host cfg, no_name nd) = Some nd \<and> is_control_plane nd}"
          using v1 c by auto
        moreover have "nodes_settled Q (allowScheduling obj) (rc_host cfg) (cview w)"
          using settled workloadRESTConfig_ok [OF went_on(1)] by (auto simp: scheduling_done_def)
        ultimately have "\<forall>nd \<in> set nds. taints_spec Q (no_taints nd) (allowScheduling obj) = no_taints nd"
          by (auto simp: nodes_settled_def)
        from reconcileNodes_settled [OF this] n(2) v3 show ?thesis by simp
      qed
    qed
  qed
qed

end

text \<open>The scheduling step of a reconcile meets the contract of an idempotent ensure step.\<close>

sublocale controller_server \<subseteq> scheduling: ensure_step "\<lambda>w. (view w, cview w)"
  "reconcileControlPlaneScheduling Q r obj" "scheduling_done Q r obj" scheduling_frame
  for r obj
proof (unfold_locales, goal_cases)
  case (3 w res w')
  then show ?case
    using keepsD [OF scheduling_keeps(1) 3] keepsD [OF scheduling_keeps(2) 3]
    by (simp add: scheduling_frame_def)
next
  case (4 w u w')
  then have run: "reconcileControlPlaneScheduling Q r obj w = (Inr (), w')" by simp
  from scheduling_run [OF run] obtain s cfg where
    s: "v_secrets (view w) (rc_host (re_k8s r), kubeconfigKey (ku_namespace obj) (ku_name obj)) = Some s"
      "cp_restConfig Q (gm_string (sec_data s) ''value'') = Inr cfg"
    and e: "nodes_effect Q (allowScheduling obj) (rc_host cfg) True (cview w) (cview w')" by auto
  have "view w' = view w" by (rule keepsD [OF scheduling_keeps(1) run])
  with s nodes_effect_settled [OF e] show ?case unfolding scheduling_done_def by simp
next
  case (5 w res w')
  then show ?case using scheduling_stable by simp
qed (auto simp: scheduling_frame_def)

context controller_server
begin

lemma scheduling_settle:
  assumes "reconcileControlPlaneScheduling Q r obj w = (Inr u, w')"
  shows "scheduling_done Q r obj (view w', cview w') \<and>
    view (runs n (reconcileControlPlaneScheduling Q r obj) w') = view w' \<and>
    cview (runs n (reconcileControlPlaneScheduling Q r obj) w') = cview w' \<and>
    view w' = view w \<and> management (cview w') = management (cview w)"
  using scheduling.ok_goal [OF assms] scheduling.runs_after_success [OF assms, of n]
    scheduling.any_frame [OF assms]
  by (simp add: scheduling_frame_def)

end

end
