(* ===== verification/Ctrl_Protocol.thy ===== *)
theory Ctrl_Protocol
  imports Ctrl_Workload
begin

text \<open>
  What one reconcile of a Kubernetes object amounts to: the finalizer protocol around the mounted
  workspace, and the status the controller publishes.
\<close>

section \<open>What a run may do\<close>

definition has_finalizer :: "kubernetes \<Rightarrow> bool" where
  "has_finalizer obj \<longleftrightarrow> kubernetesFinalizer \<in> set (ku_finalizers obj)"

text \<open>The mounted workspace of \<open>obj\<close> was created in its tenant, where there was none.\<close>

definition mount_created :: "reconciler \<Rightarrow> kubernetes \<Rightarrow> cluster_view \<Rightarrow> cluster_view \<Rightarrow> bool" where
  "mount_created r obj v v' \<longleftrightarrow>
     (\<exists>path x. tenant_of r v (ku_namespace obj) path \<and>
        v_workspaces v (mountKey r path (mountedWorkspace obj)) = None \<and>
        mounts (remoteName obj) (remoteNamespace obj) x \<and>
        v' = put_workspace (mountKey r path (mountedWorkspace obj)) (Some x) v)"

definition mount_present :: "reconciler \<Rightarrow> kubernetes \<Rightarrow> cluster_view \<Rightarrow> cluster_view \<Rightarrow> bool" where
  "mount_present r obj v v' \<longleftrightarrow>
     (\<exists>path x. tenant_of r v (ku_namespace obj) path \<and>
        v_workspaces v' (mountKey r path (mountedWorkspace obj)) = Some x \<and>
        mounts (remoteName obj) (remoteNamespace obj) x)"

text \<open>The mounted workspace of \<open>obj\<close> was removed or is terminating, or its tenant is not there.\<close>

definition mount_released :: "reconciler \<Rightarrow> kubernetes \<Rightarrow> cluster_view \<Rightarrow> cluster_view \<Rightarrow> bool" where
  "mount_released r obj v v' \<longleftrightarrow>
     (\<forall>p. \<not> tenant_of r v (ku_namespace obj) p) \<or>
     (\<exists>path. tenant_of r v (ku_namespace obj) path \<and>
        gone v' (mountKey r path (mountedWorkspace obj)))"

text \<open>The status \<open>st\<close> of \<open>obj\<close> is what the run found: \<open>available\<close> and the kubeconfig secret.\<close>

definition truthful ::
  "reconciler \<Rightarrow> kubernetes \<Rightarrow> bool \<Rightarrow> cluster_view \<Rightarrow> cluster_view \<Rightarrow> status_annotation \<Rightarrow> bool" where
  "truthful r obj available v v' st \<longleftrightarrow>
     sta_mountedWorkspace st = mountedWorkspace obj \<and>
     sta_ready st = (available \<and>
       v_secrets v (rc_host (re_k8s r), kubeconfigKey (ku_namespace obj) (ku_name obj)) \<noteq> None) \<and>
     (if sta_ready st
      then sta_phase st = ''Ready'' \<and> sta_url st = statusURL r obj \<and> mount_present r obj v v'
      else sta_phase st \<in> {''Initializing'', ''Connecting''} \<and> sta_url st = [] \<and>
        (available \<longrightarrow> sta_phase st = ''Connecting''))"

text \<open>The annotation of the object's cluster was set to \<open>st\<close>, and nothing else about it.\<close>

definition status_written ::
  "reconciler \<Rightarrow> kubernetes \<Rightarrow> status_annotation \<Rightarrow> capi_cluster store \<Rightarrow> capi_cluster store \<Rightarrow> bool" where
  "status_written r obj st m m' \<longleftrightarrow>
     (let k = objectKey r (ku_namespace obj) (ku_name obj) in
      \<exists>old x. m k = Some old \<and> m' = m(k \<mapsto> x) \<and>
        gm_get (cl_annotations x) annotationStatus = Some (status_json st) \<and>
        (\<forall>a. a \<noteq> annotationStatus \<longrightarrow> gm_get (cl_annotations x) a = gm_get (cl_annotations old) a) \<and>
        cl_phase x = cl_phase old \<and> cl_conditions x = cl_conditions old)"

text \<open>
  The controller published a truthful status; it is ready only if a read of the cluster in the run
  saw it available.
\<close>

definition published ::
  "'w ctrl_platform \<Rightarrow> reconciler \<Rightarrow> kubernetes \<Rightarrow> cluster_view \<Rightarrow> cluster_view \<Rightarrow>
   capi_cluster store \<Rightarrow> capi_cluster store \<Rightarrow> bool" where
  "published Q r obj v v' m m' \<longleftrightarrow>
     (\<exists>st available. truthful r obj available v v' st \<and> status_written r obj st m m' \<and>
        (available \<longrightarrow> (\<exists>u cl.
           fst (rget (cp_clusters Q) (re_manager r) (ku_namespace obj, ku_name obj) u) = Inr cl \<and>
           cp_conditionTrue Q (cl_conditions cl) ''Available'')))"

text \<open>The part of a run after the finalizer is in place.\<close>

definition present_effect ::
  "'w ctrl_platform \<Rightarrow> reconciler \<Rightarrow> kubernetes \<Rightarrow> cluster_view \<Rightarrow> cluster_view \<Rightarrow>
   ctrl_view \<Rightarrow> ctrl_view \<Rightarrow> bool" where
  "present_effect Q r obj v v' cv cv' \<longleftrightarrow>
     (v' = v \<or> mount_created r obj v v') \<and> cv_kubes cv' = cv_kubes cv \<and>
     (cv_clusters cv' = cv_clusters cv \<or>
      published Q r obj v v' (cv_clusters cv) (cv_clusters cv'))"

lemma mount_created_cong:
  assumes "kube_stored obj obj'"
  shows "mount_created r obj' = mount_created r obj" "mount_present r obj' = mount_present r obj"
    "mountedWorkspace obj' = mountedWorkspace obj" "statusURL r obj' = statusURL r obj"
    "status_written r obj' = status_written r obj" "has_finalizer obj' = has_finalizer obj"
    "truthful r obj' = truthful r obj" "mount_released r obj' = mount_released r obj"
    "published Q r obj' = published Q r obj"
proof -
  from assms have eq: "remoteName obj' = remoteName obj" "remoteNamespace obj' = remoteNamespace obj"
    "ku_namespace obj' = ku_namespace obj" "ku_name obj' = ku_name obj"
    "ku_finalizers obj' = ku_finalizers obj"
    by (simp_all add: kube_stored_def remoteName_def remoteNamespace_def)
  then show mw: "mountedWorkspace obj' = mountedWorkspace obj" by (simp add: mountedWorkspace_def)
  with eq show "mount_created r obj' = mount_created r obj" "statusURL r obj' = statusURL r obj"
    "status_written r obj' = status_written r obj" "has_finalizer obj' = has_finalizer obj"
    "mount_released r obj' = mount_released r obj"
    and mp: "mount_present r obj' = mount_present r obj"
    by (auto simp: fun_eq_iff mount_created_def mount_present_def statusURL_def status_written_def
        has_finalizer_def mount_released_def)
  then show "truthful r obj' = truthful r obj" using eq mw
    by (auto simp: fun_eq_iff truthful_def)
  with \<open>status_written r obj' = status_written r obj\<close> eq
  show "published Q r obj' = published Q r obj" by (auto simp: fun_eq_iff published_def)
qed

text \<open>Only the finalizers differ.\<close>

lemma with_finalizers [simp]:
  "mount_created r (obj\<lparr>ku_finalizers := fs\<rparr>) = mount_created r obj"
  "mountedWorkspace (obj\<lparr>ku_finalizers := fs\<rparr>) = mountedWorkspace obj"
  "published Q r (obj\<lparr>ku_finalizers := fs\<rparr>) = published Q r obj"
  "present_effect Q r (obj\<lparr>ku_finalizers := fs\<rparr>) = present_effect Q r obj"
proof -
  have eq: "remoteName (obj\<lparr>ku_finalizers := fs\<rparr>) = remoteName obj"
    "remoteNamespace (obj\<lparr>ku_finalizers := fs\<rparr>) = remoteNamespace obj"
    by (simp_all add: remoteName_def remoteNamespace_def)
  then show mw: "mountedWorkspace (obj\<lparr>ku_finalizers := fs\<rparr>) = mountedWorkspace obj"
    by (simp add: mountedWorkspace_def)
  show mc: "mount_created r (obj\<lparr>ku_finalizers := fs\<rparr>) = mount_created r obj"
    using eq mw by (simp add: fun_eq_iff mount_created_def)
  have "truthful r (obj\<lparr>ku_finalizers := fs\<rparr>) = truthful r obj"
    using eq mw by (simp add: fun_eq_iff truthful_def mount_present_def statusURL_def)
  then show p: "published Q r (obj\<lparr>ku_finalizers := fs\<rparr>) = published Q r obj"
    by (simp add: fun_eq_iff published_def status_written_def)
  show "present_effect Q r (obj\<lparr>ku_finalizers := fs\<rparr>) = present_effect Q r obj"
    using mc p by (simp add: fun_eq_iff present_effect_def)
qed

lemma present_effect_cong:
  "kube_stored obj obj' \<Longrightarrow> present_effect Q r obj' = present_effect Q r obj"
  by (simp add: fun_eq_iff present_effect_def mount_created_cong)

text \<open>What the names of a mounted workspace depend on.\<close>

definition same_identity :: "kubernetes \<Rightarrow> kubernetes \<Rightarrow> bool" where
  "same_identity o1 o2 \<longleftrightarrow> ku_namespace o2 = ku_namespace o1 \<and> ku_name o2 = ku_name o1 \<and>
     ku_annotations o2 = ku_annotations o1"

lemma same_identity_mount: "same_identity o1 o2 \<Longrightarrow> mountedWorkspace o2 = mountedWorkspace o1"
  by (simp add: same_identity_def mountedWorkspace_def remoteName_def remoteNamespace_def)

text \<open>
  What a run on a live object does: at most the mounted workspace is created, and only when the
  object had the finalizer or has it at the server now; the object gains the finalizer at most.
\<close>

definition live_effect ::
  "'w ctrl_platform \<Rightarrow> reconciler \<Rightarrow> kubernetes \<Rightarrow> cluster_view \<Rightarrow> cluster_view \<Rightarrow>
   ctrl_view \<Rightarrow> ctrl_view \<Rightarrow> bool" where
  "live_effect Q r obj v v' cv cv' \<longleftrightarrow>
     (let k = objectKey r (ku_namespace obj) (ku_name obj);
          held = (has_finalizer obj \<or> (\<exists>o2. cv_kubes cv' k = Some o2 \<and> has_finalizer o2)) in
      (v' = v \<or> mount_created r obj v v' \<and> held) \<and>
      (cv_kubes cv' = cv_kubes cv \<or>
       (\<exists>o2. cv_kubes cv' = (cv_kubes cv)(k \<mapsto> o2) \<and> has_finalizer o2 \<and>
          same_identity obj o2)) \<and>
      (cv_clusters cv' = cv_clusters cv \<or>
       published Q r obj v v' (cv_clusters cv) (cv_clusters cv') \<and> held))"

text \<open>
  What a run on a deleted object does: the finalizer comes off only when the mounted workspace is
  released, and without the finalizer nothing happens.
\<close>

definition delete_effect ::
  "reconciler \<Rightarrow> kubernetes \<Rightarrow> cluster_view \<Rightarrow> cluster_view \<Rightarrow> ctrl_view \<Rightarrow> ctrl_view \<Rightarrow> bool" where
  "delete_effect r obj v v' cv cv' \<longleftrightarrow>
     cv_clusters cv' = cv_clusters cv \<and>
     (v' = v \<or> has_finalizer obj \<and> (\<exists>path x. tenant_of r v (ku_namespace obj) path \<and>
        v' = put_workspace (mountKey r path (mountedWorkspace obj)) x v \<and>
        gone v' (mountKey r path (mountedWorkspace obj)))) \<and>
     (cv_kubes cv' = cv_kubes cv \<or> has_finalizer obj \<and> mount_released r obj v v' \<and>
        (\<exists>fs x. set fs = set (ku_finalizers obj) - {kubernetesFinalizer} \<and>
          kube_written (obj\<lparr>ku_finalizers := fs\<rparr>) x \<and>
          cv_kubes cv' = (cv_kubes cv)(objectKey r (ku_namespace obj) (ku_name obj) := x)))"

lemma kube_written_finalizers:
  "kube_written (obj\<lparr>ku_finalizers := fs\<rparr>) x \<Longrightarrow> x = Some o2 \<Longrightarrow> ku_finalizers o2 = fs"
  by (simp add: kube_written_def kube_stored_def)

lemma kube_written_live:
  assumes "kube_written (obj\<lparr>ku_finalizers := fs\<rparr>) x" "ku_deletion obj = None"
    "kubernetesFinalizer \<in> set fs"
  obtains o2 where "x = Some o2" "has_finalizer o2" "same_identity obj o2"
  using assms by (cases x) (auto simp: kube_written_def kube_stored_def has_finalizer_def same_identity_def)

context controller_server
begin

lemma phase_ok:
  assumes "workloadClusterPhase Q r ns n w = (Inr (ready, phase), w')"
  shows "if ready then phase = ''Ready'' \<and> (\<exists>cl. fst (rget (cp_clusters Q) (re_manager r) (ns, n) w) = Inr cl \<and>
      cp_conditionTrue Q (cl_conditions cl) ''Available'')
    else phase \<in> {''Initializing'', ''Connecting''}"
  using assms
  by (auto simp: workloadClusterPhase_def on_result_run split: prod.splits sum.splits if_splits)

lemma kubeconfig_ok:
  assumes "clusterKubeconfigExists Q r ns n w = (Inr b, w')"
  shows "b \<longleftrightarrow> v_secrets (view w) (rc_host (re_k8s r), kubeconfigKey ns n) \<noteq> None"
proof -
  from assms consider (there) s where "rget (p_secrets (cp_base Q)) (re_k8s r) (kubeconfigKey ns n) w = (Inr s, w')" "b"
    | (missing) "rget (p_secrets (cp_base Q)) (re_k8s r) (kubeconfigKey ns n) w = (Inl NotFound, w')" "\<not> b"
    by (auto simp: clusterKubeconfigExists_def on_result_run split: prod.splits sum.splits if_splits)
  then show ?thesis
    using sec.get_found [of "re_k8s r" "kubeconfigKey ns n" w _ w']
      sec.get_missing [of "re_k8s r" "kubeconfigKey ns n" w w']
    by cases auto
qed

lemma expose_any:
  assumes "exposeCluster Q r obj ready kc phase w = (res, w')"
  shows "view w' = view w \<or> mount_created r obj (view w) (view w')"
proof (cases "ready \<and> kc")
  case True
  then obtain res2 where e: "ensureMountedWorkspace Q r (ku_namespace obj) (mountedWorkspace obj)
      (remoteName obj) (remoteNamespace obj) w = (res2, w')"
    using assms by (auto simp: exposeCluster_def or_fail_run split: prod.splits sum.splits)
  from ensure_mount_any [OF e] show ?thesis
    using stored_mounts [of "mountedWorkspaceObject (mountedWorkspace obj) (remoteName obj) (remoteNamespace obj)"]
    by (fastforce simp: mount_created_def)
next
  case False
  with assms show ?thesis by (auto simp: exposeCluster_def split: if_splits)
qed

lemma expose_keeps: "keeps cview (exposeCluster Q r obj ready kc phase)"
  unfolding exposeCluster_def by (intro keeps_intros ensure_mount_keeps)

lemma expose_ok:
  assumes run: "exposeCluster Q r obj ready kc phase w = (Inr (phase', url1), w')"
    and kc: "kc \<longleftrightarrow> v_secrets (view w) (rc_host (re_k8s r), kubeconfigKey (ku_namespace obj) (ku_name obj)) \<noteq> None"
    and phase: "\<not> ready \<Longrightarrow> phase \<in> {''Initializing'', ''Connecting''}"
  shows "truthful r obj ready (view w) (view w')
    \<lparr>sta_phase = phase', sta_ready = (ready \<and> kc), sta_url = url1,
     sta_mountedWorkspace = mountedWorkspace obj\<rparr>"
proof (cases "ready \<and> kc")
  case True
  with run obtain u where e: "ensureMountedWorkspace Q r (ku_namespace obj) (mountedWorkspace obj)
      (remoteName obj) (remoteNamespace obj) w = (Inr u, w')" and "phase' = ''Ready''" "url1 = statusURL r obj"
    by (auto simp: exposeCluster_def or_fail_Inr_iff)
  moreover from ensure_mount_ok [OF e] have "mount_present r obj (view w) (view w')"
    by (simp add: mount_present_def)
  ultimately show ?thesis using True kc by (simp add: truthful_def)
next
  case False
  with run kc phase show ?thesis
    by (auto simp: exposeCluster_def truthful_def split: if_splits)
qed

lemma publish_any:
  assumes run: "patchStatusAnnotation Q r (ku_namespace obj) (ku_name obj) st w = (res, w')"
  shows "view w' = view w" "cv_kubes (cview w') = cv_kubes (cview w)"
    "cv_clusters (cview w') = cv_clusters (cview w) \<or>
     status_written r obj st (cv_clusters (cview w)) (cv_clusters (cview w'))"
proof -
  let ?k = "(ku_namespace obj, ku_name obj)"
  obtain g w1 where g: "rget (cp_clusters Q) (re_manager r) ?k w = (g, w1)"
    by (cases "rget (cp_clusters Q) (re_manager r) ?k w")
  note v1 = keepsD [OF reads_view(2) g] keepsD [OF reads_cview(2) g]
  define new where "new cl = cl\<lparr>cl_annotations := gm_put (cl_annotations cl) annotationStatus (status_json st)\<rparr>"
    for cl :: capi_cluster
  have "view w' = view w \<and> cv_kubes (cview w') = cv_kubes (cview w) \<and>
    (cv_clusters (cview w') = cv_clusters (cview w) \<or>
     status_written r obj st (cv_clusters (cview w)) (cv_clusters (cview w')))"
  proof (cases g)
    case (Inl e)
    with run g v1 show ?thesis
      by (auto simp: patchStatusAnnotation_def on_result_run split: if_splits)
  next
    case (Inr cl)
    have named: "cl_namespace cl = ku_namespace obj" "cl_name cl = ku_name obj"
      using cluster_named [OF g [unfolded Inr]] by simp_all
    show ?thesis
    proof (cases "cl_annotations cl \<noteq> None \<and> gm_string (cl_annotations cl) annotationStatus = status_json st")
      case True
      with run g Inr v1 show ?thesis by (simp add: patchStatusAnnotation_def on_result_run)
    next
      case False
      then have differs: "gm_get (cl_annotations cl) annotationStatus \<noteq> Some (status_json st)"
        by (auto simp: gm_string_get gm_get_def split: option.splits)
      obtain x w2 where p: "cp_patchCluster Q (re_manager r) cl (new cl) w1 = (x, w2)"
        by (cases "cp_patchCluster Q (re_manager r) cl (new cl) w1")
      have w2: "w' = w2"
        using run g Inr False p
        by (auto simp: patchStatusAnnotation_def on_result_run or_fail_run new_def Let_def split: sum.splits if_splits)
      have "view w2 = view w" using keepsD [OF writes_view(2) p] v1 by simp
      moreover have "cview w2 = cview w \<or> patch_effect (re_manager r) cl (new cl) (cview w) (cview w2)"
        using patch_cluster_ok [of "re_manager r" cl "new cl" w1 _ w2]
          patch_cluster_error [of "re_manager r" cl "new cl" w1 _ w2] p v1 by (cases x) auto
      moreover have "cv_kubes (cview w2) = cv_kubes (cview w) \<and>
          status_written r obj st (cv_clusters (cview w)) (cv_clusters (cview w2))"
        if "patch_effect (re_manager r) cl (new cl) (cview w) (cview w2)"
      proof -
        from that obtain old x where o: "cv_clusters (cview w) (objectKey r (ku_namespace obj) (ku_name obj)) = Some old"
          "merged cl (new cl) old x"
          "cview w2 = (cview w)\<lparr>cv_clusters :=
             (cv_clusters (cview w))(objectKey r (ku_namespace obj) (ku_name obj) \<mapsto> x)\<rparr>"
          using named by (auto simp: patch_effect_def Let_def objectKey_def new_def)
        from o(2) have m: "gm_get (cl_annotations x) a =
            (if gm_get (cl_annotations (new cl)) a = gm_get (cl_annotations cl) a
             then gm_get (cl_annotations old) a else gm_get (cl_annotations (new cl)) a)" for a
          by (simp add: merged_def)
        have "gm_get (cl_annotations x) annotationStatus = Some (status_json st)"
          unfolding m using differs by (simp add: new_def)
        moreover have "gm_get (cl_annotations x) a = gm_get (cl_annotations old) a" if "a \<noteq> annotationStatus" for a
          unfolding m using that by (simp add: new_def)
        moreover from o(2) have "cl_phase x = cl_phase old" "cl_conditions x = cl_conditions old"
          by (simp_all add: merged_def)
        ultimately show ?thesis using o(1,3) unfolding status_written_def Let_def by auto
      qed
      ultimately show ?thesis using w2 by auto
    qed
  qed
  then show "view w' = view w" "cv_kubes (cview w') = cv_kubes (cview w)"
    "cv_clusters (cview w') = cv_clusters (cview w) \<or>
     status_written r obj st (cv_clusters (cview w)) (cv_clusters (cview w'))" by auto
qed

lemma update_object_any:
  assumes "updateObject Q r obj w = (res, w')"
  shows "view w' = view w" "cview w' = cview w \<or>
    (\<exists>x. kube_written obj x \<and>
       cview w' = put_kube (objectKey r (ku_namespace obj) (ku_name obj)) x (cview w))"
  using assms keepsD [OF writes_view(1), of "re_manager r" "ku_namespace obj" obj w res w']
    kube_update_ok [of "re_manager r" "ku_namespace obj" obj w _ w']
    kube_update_error [of "re_manager r" "ku_namespace obj" obj w _ w']
  by (cases res; auto simp: updateObject_def objectKey_def)+

lemma put_kube_sel [simp]:
  "cv_kubes (put_kube k x v) = (cv_kubes v)(k := x)" "cv_clusters (put_kube k x v) = cv_clusters v"
  by (simp_all add: put_kube_def)

section \<open>One run\<close>

lemma present_run:
  assumes run: "reconcilePresent Q r obj w = (res, w')"
  shows "present_effect Q r obj (view w) (view w') (cview w) (cview w')"
  using run unfolding reconcilePresent_def
proof (cases rule: or_fail_cases)
  case (failed e)
  with keepsD [OF reads_keep(1) failed(1)] keepsD [OF reads_keep(2) failed(1)]
  show ?thesis by (simp add: present_effect_def)
next
  case (went_on x w1)
  obtain ready phase where x: "x = (ready, phase)" by (cases x)
  note v1 = keepsD [OF reads_keep(1) went_on(1)] keepsD [OF reads_keep(2) went_on(1)]
  note ph = phase_ok [OF went_on(1) [unfolded x]]
  from went_on(2) [unfolded x prod.case] show ?thesis
  proof (cases rule: or_fail_cases)
    case (failed e)
    with v1 keepsD [OF reads_keep(3) failed(1)] keepsD [OF reads_keep(4) failed(1)]
    show ?thesis by (simp add: present_effect_def)
  next
    case k: (went_on kc w2)
    note v2 = keepsD [OF reads_keep(3) k(1)] keepsD [OF reads_keep(4) k(1)]
    note kc = kubeconfig_ok [OF k(1)]
    from k(2) show ?thesis
    proof (cases rule: or_fail_cases)
      case (failed e)
      with v1 v2 keepsD [OF connect_keeps(1) failed(1)] keepsD [OF connect_keeps(2) failed(1)]
      show ?thesis by (simp add: present_effect_def management_def)
    next
      case c: (went_on u w3)
      have v3: "view w3 = view w" "cv_kubes (cview w3) = cv_kubes (cview w)"
        "cv_clusters (cview w3) = cv_clusters (cview w)"
        using v1 v2 keepsD [OF connect_keeps(1) c(1)] keepsD [OF connect_keeps(2) c(1)]
        by (simp_all add: management_def)
      from c(2) show ?thesis
      proof (cases rule: or_fail_cases)
        case (failed e)
        with v3 expose_any [OF failed(1)] keepsD [OF expose_keeps failed(1)]
        show ?thesis by (simp add: present_effect_def)
      next
        case e: (went_on y w4)
        obtain phase' url1 where y: "y = (phase', url1)" by (cases y)
        note v4 = expose_any [OF e(1)] keepsD [OF expose_keeps e(1)]
        define st where "st = \<lparr>sta_phase = phase', sta_ready = (ready \<and> kc), sta_url = url1,
          sta_mountedWorkspace = mountedWorkspace obj\<rparr>"
        from e(2) y obtain res5 where p:
          "patchStatusAnnotation Q r (ku_namespace obj) (ku_name obj) st w4 = (res5, w')"
          by (auto simp: or_fail_run st_def split: prod.splits sum.splits)
        have st: "truthful r obj ready (view w) (view w4) st"
          using expose_ok [OF e(1) [unfolded y]] kc ph v1 v2 v3 by (simp add: st_def split: if_splits)
        have av: "ready \<longrightarrow> (\<exists>u cl.
            fst (rget (cp_clusters Q) (re_manager r) (ku_namespace obj, ku_name obj) u) = Inr cl \<and>
            cp_conditionTrue Q (cl_conditions cl) ''Available'')"
          using ph by (auto split: if_splits)
        show ?thesis
          using publish_any [OF p] v3 v4 st av
          by (auto simp: present_effect_def published_def)
      qed
    qed
  qed
qed

text \<open>A whole run on an object read as \<open>obj\<close>.\<close>

lemma reconcile_read:
  assumes run: "Reconcile Q r (ns, n) w = (res, w')"
    and read: "rget (cp_kubes Q) (re_manager r) (ns, n) w = (Inr obj, w0)"
  shows "view w0 = view w" "cview w0 = cview w" "ku_namespace obj = ns" "ku_name obj = n"
    "ku_deletion obj \<noteq> None \<Longrightarrow> reconcileDelete Q r obj w0 = (res, w')"
    "ku_deletion obj = None \<Longrightarrow>
      (case cp_addFinalizer Q (ku_finalizers obj) kubernetesFinalizer of (fs, added) \<Rightarrow>
         if added then
           or_fail (updateObject Q r (obj\<lparr>ku_finalizers := fs\<rparr>))
             (wrap_api ''adding finalizer: %w'' []) (reconcilePresent Q r)
         else reconcilePresent Q r (obj\<lparr>ku_finalizers := fs\<rparr>)) w0 = (res, w')"
  using run read kube_named [OF read] keepsD [OF reads_view(1) read] keepsD [OF reads_cview(1) read]
  by (auto simp: Reconcile_def on_result_run)

lemma reconcile_unread:
  assumes run: "Reconcile Q r (ns, n) w = (res, w')"
    and read: "rget (cp_kubes Q) (re_manager r) (ns, n) w = (Inl e, w0)"
  shows "view w' = view w \<and> cview w' = cview w \<and>
    res = (if e = NotFound then Inr Done else Inl (ApiErr e))"
  using run read keepsD [OF reads_view(1) read] keepsD [OF reads_cview(1) read]
  by (auto simp: Reconcile_def on_result_run)

lemma live_run:
  assumes run: "Reconcile Q r (ns, n) w = (res, w')"
    and read: "rget (cp_kubes Q) (re_manager r) (ns, n) w = (Inr obj, w0)"
    and live: "ku_deletion obj = None"
  shows "live_effect Q r obj (view w) (view w') (cview w) (cview w')"
proof -
  note R = reconcile_read(1-4) [OF run read] reconcile_read(6) [OF run read live]
  obtain fs added where a: "cp_addFinalizer Q (ku_finalizers obj) kubernetesFinalizer = (fs, added)"
    by (cases "cp_addFinalizer Q (ku_finalizers obj) kubernetesFinalizer")
  note fin = add_finalizer [OF a]
  let ?o = "obj\<lparr>ku_finalizers := fs\<rparr>" and ?k = "objectKey r (ku_namespace obj) (ku_name obj)"
  show ?thesis
  proof (cases added)
    case False
    with R(5) a have "reconcilePresent Q r ?o w0 = (res, w')" by simp
    from present_run [OF this] have "present_effect Q r obj (view w) (view w') (cview w) (cview w')"
      using R(1,2) by simp
    moreover have "has_finalizer obj" using fin False by (auto simp: has_finalizer_def)
    ultimately show ?thesis by (auto simp: live_effect_def present_effect_def Let_def)
  next
    case True
    with R(5) a have "or_fail (updateObject Q r ?o) (wrap_api ''adding finalizer: %w'' [])
        (reconcilePresent Q r) w0 = (res, w')" by simp
    moreover have wr: "cview w2 = cview w \<or> (\<exists>o2. has_finalizer o2 \<and> same_identity obj o2 \<and>
        cview w2 = put_kube ?k (Some o2) (cview w))" if "updateObject Q r ?o w0 = (x, w2)" for x w2
    proof -
      from update_object_any(2) [OF that] R(2)
      have "cview w2 = cview w \<or> (\<exists>y. kube_written ?o y \<and> cview w2 = put_kube ?k y (cview w))" by simp
      then show ?thesis
      proof
        assume "\<exists>y. kube_written ?o y \<and> cview w2 = put_kube ?k y (cview w)"
        then obtain y where y: "kube_written ?o y" "cview w2 = put_kube ?k y (cview w)" by blast
        from fin have "kubernetesFinalizer \<in> set fs" by simp
        from kube_written_live [OF y(1) live this] obtain o2 where
          "y = Some o2" "has_finalizer o2" "same_identity obj o2" .
        with y(2) show ?thesis by blast
      qed simp
    qed
    ultimately show ?thesis
    proof (cases rule: or_fail_cases)
      case (failed e)
      with wr [OF failed(1)] update_object_any(1) [OF failed(1)] R(1)
      show ?thesis by (auto simp: live_effect_def Let_def)
    next
      case (went_on o1 w2)
      have st: "kube_stored ?o o1"
        using went_on(1) kube_update_ok [of "re_manager r" "ku_namespace obj" ?o w0 o1 w2]
        by (simp add: updateObject_def)
      have "\<exists>x. kube_written ?o x \<and> cview w2 = put_kube ?k x (cview w)"
        using went_on(1) kube_update_ok [of "re_manager r" "ku_namespace obj" ?o w0 o1 w2] R(2)
        by (simp add: updateObject_def objectKey_def)
      then obtain y where y: "kube_written ?o y" "cview w2 = put_kube ?k y (cview w)" by blast
      from fin have "kubernetesFinalizer \<in> set fs" by simp
      from kube_written_live [OF y(1) live this] obtain o2 where
        "y = Some o2" "has_finalizer o2" "same_identity obj o2" .
      with y(2) have o2: "has_finalizer o2" "same_identity obj o2"
        "cview w2 = put_kube ?k (Some o2) (cview w)" by simp_all
      from present_run [OF went_on(2)] present_effect_cong [OF st, of Q]
      have "present_effect Q r obj (view w2) (view w') (cview w2) (cview w')" by simp
      with o2 update_object_any(1) [OF went_on(1)] R(1)
      show ?thesis by (auto simp: live_effect_def present_effect_def Let_def)
    qed
  qed
qed

lemma deleted_run:
  assumes run: "Reconcile Q r (ns, n) w = (res, w')"
    and read: "rget (cp_kubes Q) (re_manager r) (ns, n) w = (Inr obj, w0)"
    and dead: "ku_deletion obj \<noteq> None"
  shows "delete_effect r obj (view w) (view w') (cview w) (cview w')"
    and "res = Inr Done \<and> has_finalizer obj \<Longrightarrow> mount_released r obj (view w) (view w') \<and>
      (\<exists>fs x. set fs = set (ku_finalizers obj) - {kubernetesFinalizer} \<and>
         kube_written (obj\<lparr>ku_finalizers := fs\<rparr>) x \<and>
         cv_kubes (cview w') (objectKey r ns n) = x)"
    and "\<not> has_finalizer obj \<Longrightarrow> res = Inr Done"
    and "res = Inr d \<Longrightarrow> d = Done"
proof -
  note R = reconcile_read(1-4) [OF run read] reconcile_read(5) [OF run read dead]
  obtain fs removed where a: "cp_removeFinalizer Q (ku_finalizers obj) kubernetesFinalizer = (fs, removed)"
    by (cases "cp_removeFinalizer Q (ku_finalizers obj) kubernetesFinalizer")
  note fin = remove_finalizer [OF a]
  let ?o = "obj\<lparr>ku_finalizers := fs\<rparr>" and ?k = "objectKey r (ku_namespace obj) (ku_name obj)"
  consider (none) "\<not> has_finalizer obj" "res = Inr Done" "w' = w0"
    | (failed) e where "has_finalizer obj"
        "deleteMountedWorkspace Q r (ku_namespace obj) (mountedWorkspace obj) w0 = (Inl e, w')" "res = Inl e"
    | (removed) w2 x where "has_finalizer obj"
        "deleteMountedWorkspace Q r (ku_namespace obj) (mountedWorkspace obj) w0 = (Inr (), w2)"
        "updateObject Q r ?o w2 = (x, w')"
        "res = (case x of Inl e \<Rightarrow> Inl (wrap_api ''removing finalizer: %w'' [] e) | Inr _ \<Rightarrow> Inr Done)"
    using R(5) a fin
    by (auto simp: reconcileDelete_def contains_finalizer has_finalizer_def or_fail_run
        split: if_splits prod.splits sum.splits)
  note cases = this
  show "\<not> has_finalizer obj \<Longrightarrow> res = Inr Done" "res = Inr d \<Longrightarrow> d = Done"
    using cases by (cases; auto split: sum.splits)+
  show "delete_effect r obj (view w) (view w') (cview w) (cview w')"
    using cases
  proof cases
    case none
    with R show ?thesis by (simp add: delete_effect_def)
  next
    case failed
    with delete_mount_any [OF failed(2)] keepsD [OF delete_mount_keeps failed(2)] R
    show ?thesis by (auto simp: delete_effect_def)
  next
    case removed
    have v: "view w' = view w2" by (rule update_object_any(1) [OF removed(3)])
    have "mount_released r obj (view w) (view w')"
      using delete_mount_ok [OF removed(2)] R v by (simp add: mount_released_def)
    moreover have "view w' = view w \<or> (\<exists>path x. tenant_of r (view w) (ku_namespace obj) path \<and>
        view w' = put_workspace (mountKey r path (mountedWorkspace obj)) x (view w) \<and>
        gone (view w') (mountKey r path (mountedWorkspace obj)))"
      using delete_mount_any [OF removed(2)] v R(1) by simp
    moreover have "cview w' = cview w \<or> (\<exists>x. kube_written ?o x \<and> cview w' = put_kube ?k x (cview w))"
      using update_object_any(2) [OF removed(3)] keepsD [OF delete_mount_keeps removed(2)] R(2) by simp
    moreover have "set fs = set (ku_finalizers obj) - {kubernetesFinalizer}" using fin by simp
    ultimately show ?thesis
      using removed(1) unfolding delete_effect_def by (metis put_kube_sel)
  qed
  assume "res = Inr Done \<and> has_finalizer obj"
  with cases show "mount_released r obj (view w) (view w') \<and>
      (\<exists>fs x. set fs = set (ku_finalizers obj) - {kubernetesFinalizer} \<and>
         kube_written (obj\<lparr>ku_finalizers := fs\<rparr>) x \<and>
         cv_kubes (cview w') (objectKey r ns n) = x)"
  proof cases
    case removed
    have "mount_released r obj (view w) (view w')"
      using delete_mount_ok [OF removed(2)] R update_object_any(1) [OF removed(3)]
      by (simp add: mount_released_def)
    moreover obtain o1 where u: "rupdate (cp_kubes Q) (re_manager r) ns ?o w2 = (Inr o1, w')"
      using removed(3,4) \<open>res = Inr Done \<and> has_finalizer obj\<close> R(3)
      by (cases x) (auto simp: updateObject_def)
    from kube_update_ok [OF u] obtain x where "kube_written ?o x"
      "cview w' = put_kube (objectKey r ns n) x (cview w2)"
      using R(4) by (auto simp: objectKey_def)
    ultimately show ?thesis using fin by auto
  qed auto
qed

end

end
