(* ===== verification/Ctrl_System.thy ===== *)
theory Ctrl_System
  imports Ctrl_Protocol
begin

text \<open>
  The Kubernetes controller over time: reconciles of any objects, one after the other as the
  controller's single worker runs them, and other clients between them.  The invariant is that no
  mounted workspace is ever without the object it belongs to.
\<close>

section \<open>Owners of mounted workspaces\<close>

definition kcp_ok :: "reconciler \<Rightarrow> bool" where
  "kcp_ok r \<longleftrightarrow> (\<exists>u. url_parse (rc_host (re_kcp r)) = Inr u)"

definition live_mount :: "reconciler \<Rightarrow> cluster_view \<Rightarrow> string \<Rightarrow> string \<Rightarrow> bool" where
  "live_mount r v path m \<longleftrightarrow>
     (\<exists>x. v_workspaces v (mountKey r path m) = Some x \<and> ws_mount x \<noteq> None \<and> ws_deletion x = None)"

definition owned :: "reconciler \<Rightarrow> cluster_view \<Rightarrow> ctrl_view \<Rightarrow> string \<Rightarrow> string \<Rightarrow> bool" where
  "owned r v cv path m \<longleftrightarrow>
     (\<exists>obj. cv_kubes cv (objectKey r (ku_namespace obj) (ku_name obj)) = Some obj \<and>
        tenant_of r v (ku_namespace obj) path \<and> mountedWorkspace obj = m \<and> has_finalizer obj)"

text \<open>Every live mount has its object, with the finalizer; a logical cluster is one workspace.\<close>

definition mounts_owned :: "reconciler \<Rightarrow> cluster_view \<Rightarrow> ctrl_view \<Rightarrow> bool" where
  "mounts_owned r v cv \<longleftrightarrow> (\<forall>path m. live_mount r v path m \<longrightarrow> owned r v cv path m)"

definition unique_tenants :: "reconciler \<Rightarrow> cluster_view \<Rightarrow> bool" where
  "unique_tenants r v \<longleftrightarrow>
     (\<forall>cid p p'. tenant_of r v cid p \<longrightarrow> tenant_of r v cid p' \<longrightarrow> p = p')"

text \<open>
  What other clients may do: anything that creates no mounts, keeps the tenants of live mounts and
  the uniqueness of logical clusters, and leaves the controller's finalizer and the identity of an
  object that has it alone.
\<close>

definition ctrl_env ::
  "reconciler \<Rightarrow> cluster_view \<Rightarrow> cluster_view \<Rightarrow> ctrl_view \<Rightarrow> ctrl_view \<Rightarrow> bool" where
  "ctrl_env r v v' cv cv' \<longleftrightarrow>
     (unique_tenants r v \<longrightarrow> unique_tenants r v') \<and>
     (\<forall>path m. live_mount r v' path m \<longrightarrow> live_mount r v path m \<and>
        (\<forall>cid. tenant_of r v cid path \<longrightarrow> tenant_of r v' cid path)) \<and>
     (\<forall>k obj. cv_kubes cv k = Some obj \<and> has_finalizer obj \<longrightarrow>
        (\<exists>o2. cv_kubes cv' k = Some o2 \<and> has_finalizer o2 \<and> same_identity obj o2))"

text \<open>The cache holds what the server holds when the object is read.\<close>

definition fresh_read :: "'w ctrl_platform \<Rightarrow> reconciler \<Rightarrow> ('w \<Rightarrow> ctrl_view) \<Rightarrow> string \<Rightarrow> string \<Rightarrow> 'w \<Rightarrow> bool" where
  "fresh_read Q r cview ns n w \<longleftrightarrow>
     (\<forall>obj w0. rget (cp_kubes Q) (re_manager r) (ns, n) w = (Inr obj, w0) \<longrightarrow>
        cv_kubes (cview w) (objectKey r ns n) = Some obj)"

inductive ctrl_step ::
  "'w ctrl_platform \<Rightarrow> reconciler \<Rightarrow> ('w \<Rightarrow> cluster_view) \<Rightarrow> ('w \<Rightarrow> ctrl_view) \<Rightarrow> 'w \<Rightarrow> 'w \<Rightarrow> bool"
  for Q r view cview where
  reconcile: "Reconcile Q r (ns, n) w = (res, w') \<Longrightarrow> fresh_read Q r cview ns n w \<Longrightarrow>
    ctrl_step Q r view cview w w'"
| env: "ctrl_env r (view w) (view w') (cview w) (cview w') \<Longrightarrow> ctrl_step Q r view cview w w'"

section \<open>Keys\<close>

lemma objectKey_inject [simp]: "objectKey r ns n = objectKey r ns' n' \<longleftrightarrow> ns = ns' \<and> n = n'"
  by (simp add: objectKey_def)

lemma kcpHost_inject: "kcp_ok r \<Longrightarrow> kcpHost r p = kcpHost r p' \<longleftrightarrow> p = p'"
  by (auto simp: kcp_ok_def kcpHost_def)

lemma mountKey_inject: "kcp_ok r \<Longrightarrow> mountKey r p m = mountKey r p' m' \<longleftrightarrow> p = p' \<and> m = m'"
  by (simp add: mountKey_def kcpHost_inject)

text \<open>Mounts live in tenants, so writing one leaves the list of tenants alone.\<close>

lemma tenant_put:
  assumes "kcp_ok r" "tenant_of r v cid path"
  shows "tenant_of r (put_workspace (mountKey r path m) x v) = tenant_of r v"
proof -
  have "path \<noteq> re_consumers r" using assms(2) by (auto simp: tenant_of_def)
  then have "mountKey r path m \<noteq> (kcpHost r (re_consumers r), ([], n))" for n
    by (simp add: mountKey_def kcpHost_inject [OF assms(1)])
  then have "v_workspaces (put_workspace (mountKey r path m) x v) (kcpHost r (re_consumers r), ([], n)) =
      v_workspaces v (kcpHost r (re_consumers r), ([], n))" for n
    by (metis (no_types) fun_upd_other put_workspace_def cluster_view.select_convs(1)
        cluster_view.surjective cluster_view.update_convs(1))
  then show ?thesis by (simp add: fun_eq_iff tenant_of_def)
qed

lemma put_workspace_at:
  "v_workspaces (put_workspace k x v) k' = (if k' = k then x else v_workspaces v k')"
  by (simp add: put_workspace_def)

section \<open>The steps keep the invariant\<close>

lemma live_keeps:
  assumes ok: "kcp_ok r" and inv: "mounts_owned r v cv" "unique_tenants r v"
    and fresh: "cv_kubes cv (objectKey r (ku_namespace obj) (ku_name obj)) = Some obj"
    and eff: "live_effect Q r obj v v' cv cv'"
  shows "mounts_owned r v' cv' \<and> unique_tenants r v'"
proof -
  let ?k = "objectKey r (ku_namespace obj) (ku_name obj)"
  from eff have view: "v' = v \<or> mount_created r obj v v' \<and>
      (has_finalizer obj \<or> (\<exists>o2. cv_kubes cv' ?k = Some o2 \<and> has_finalizer o2))"
    and kubes: "cv_kubes cv' = cv_kubes cv \<or>
      (\<exists>o2. cv_kubes cv' = (cv_kubes cv)(?k \<mapsto> o2) \<and> has_finalizer o2 \<and> same_identity obj o2)"
    by (auto simp: live_effect_def Let_def)
  have ten: "tenant_of r v' = tenant_of r v"
    using view tenant_put [OF ok] by (auto simp: mount_created_def)
  have kept: "owned r v' cv' path m" if "owned r v cv path m" for path m
  proof -
    from that obtain ob where ob: "cv_kubes cv (objectKey r (ku_namespace ob) (ku_name ob)) = Some ob"
      "tenant_of r v (ku_namespace ob) path" "mountedWorkspace ob = m" "has_finalizer ob"
      by (auto simp: owned_def)
    from kubes show ?thesis
    proof
      assume "cv_kubes cv' = cv_kubes cv"
      with ob ten show ?thesis by (auto simp: owned_def)
    next
      assume "\<exists>o2. cv_kubes cv' = (cv_kubes cv)(?k \<mapsto> o2) \<and> has_finalizer o2 \<and> same_identity obj o2"
      then obtain o2 where o2: "cv_kubes cv' = (cv_kubes cv)(?k \<mapsto> o2)" "has_finalizer o2" "same_identity obj o2"
        by blast
      show ?thesis
      proof (cases "objectKey r (ku_namespace ob) (ku_name ob) = ?k")
        case True
        with fresh ob(1) have "ob = obj" by simp
        with ob ten o2 same_identity_mount [OF o2(3)] show ?thesis
          unfolding owned_def by (intro exI [of _ o2]) (simp add: same_identity_def)
      next
        case False
        with ob ten o2(1) show ?thesis unfolding owned_def by (intro exI [of _ ob]) auto
      qed
    qed
  qed
  have "owned r v' cv' path m" if lm: "live_mount r v' path m" for path m
  proof (cases "live_mount r v path m")
    case True
    with inv(1) kept show ?thesis by (simp add: mounts_owned_def)
  next
    case False
    with lm view obtain path0 x where c: "tenant_of r v (ku_namespace obj) path0"
      "v' = put_workspace (mountKey r path0 (mountedWorkspace obj)) (Some x) v"
      and held: "has_finalizer obj \<or> (\<exists>o2. cv_kubes cv' ?k = Some o2 \<and> has_finalizer o2)"
      by (auto simp: mount_created_def)
    have at: "path = path0 \<and> m = mountedWorkspace obj"
    proof (rule ccontr)
      assume "\<not> (path = path0 \<and> m = mountedWorkspace obj)"
      with mountKey_inject [OF ok] have "mountKey r path m \<noteq> mountKey r path0 (mountedWorkspace obj)" by simp
      with lm False show False by (simp add: live_mount_def c(2) put_workspace_at)
    qed
    obtain o2 where o2: "cv_kubes cv' ?k = Some o2" "has_finalizer o2" "same_identity obj o2"
      using kubes held fresh by (auto simp: same_identity_def)
    with at c(1) ten same_identity_mount [OF o2(3)] show ?thesis
      unfolding owned_def by (intro exI [of _ o2]) (simp add: same_identity_def)
  qed
  with inv(2) ten show ?thesis by (simp add: mounts_owned_def unique_tenants_def)
qed

lemma deleted_keeps:
  assumes ok: "kcp_ok r" and inv: "mounts_owned r v cv" "unique_tenants r v"
    and fresh: "cv_kubes cv (objectKey r (ku_namespace obj) (ku_name obj)) = Some obj"
    and eff: "delete_effect r obj v v' cv cv'"
  shows "mounts_owned r v' cv' \<and> unique_tenants r v'"
proof -
  let ?k = "objectKey r (ku_namespace obj) (ku_name obj)" and ?m = "mountedWorkspace obj"
  from eff have view: "v' = v \<or> (\<exists>path x. tenant_of r v (ku_namespace obj) path \<and>
      v' = put_workspace (mountKey r path ?m) x v \<and> gone v' (mountKey r path ?m))"
    and kubes: "cv_kubes cv' = cv_kubes cv \<or>
      mount_released r obj v v' \<and> (\<exists>x. cv_kubes cv' = (cv_kubes cv)(?k := x))"
    by (auto simp: delete_effect_def)
  have ten: "tenant_of r v' = tenant_of r v" using view tenant_put [OF ok] by auto
  have earlier: "live_mount r v path m" if "live_mount r v' path m" for path m
    using view that
    by (auto simp: live_mount_def gone_def put_workspace_at split: if_splits option.splits)
  have "owned r v' cv' path m" if lm: "live_mount r v' path m" for path m
  proof -
    from earlier [OF lm] inv(1) obtain ob where ob:
      "cv_kubes cv (objectKey r (ku_namespace ob) (ku_name ob)) = Some ob"
      "tenant_of r v (ku_namespace ob) path" "mountedWorkspace ob = m" "has_finalizer ob"
      by (auto simp: mounts_owned_def owned_def)
    have same: "cv_kubes cv' (objectKey r (ku_namespace ob) (ku_name ob)) = Some ob"
    proof (cases "objectKey r (ku_namespace ob) (ku_name ob) = ?k \<and> cv_kubes cv' \<noteq> cv_kubes cv")
      case True
      with fresh ob(1) have o: "ob = obj" by simp
      from True kubes have "mount_released r obj v v'" by blast
      with ob(2) o obtain path1 where p: "tenant_of r v (ku_namespace obj) path1"
        "gone v' (mountKey r path1 ?m)" by (auto simp: mount_released_def)
      with inv(2) ob(2) o have "path1 = path" by (simp add: unique_tenants_def)
      with p(2) lm o ob(3) have False by (auto simp: live_mount_def gone_def)
      then show ?thesis ..
    next
      case False
      with kubes ob(1) show ?thesis by auto
    qed
    with ob ten show ?thesis unfolding owned_def by (intro exI [of _ ob]) simp
  qed
  with inv(2) ten show ?thesis by (simp add: mounts_owned_def unique_tenants_def)
qed

lemma env_keeps:
  assumes inv: "mounts_owned r v cv" "unique_tenants r v" and env: "ctrl_env r v v' cv cv'"
  shows "mounts_owned r v' cv' \<and> unique_tenants r v'"
proof -
  have "owned r v' cv' path m" if lm: "live_mount r v' path m" for path m
  proof -
    from env lm have b: "live_mount r v path m"
      "\<forall>cid. tenant_of r v cid path \<longrightarrow> tenant_of r v' cid path"
      by (auto simp: ctrl_env_def)
    with inv(1) obtain ob where ob:
      "cv_kubes cv (objectKey r (ku_namespace ob) (ku_name ob)) = Some ob"
      "tenant_of r v (ku_namespace ob) path" "mountedWorkspace ob = m" "has_finalizer ob"
      by (auto simp: mounts_owned_def owned_def)
    with env obtain o2 where o2: "cv_kubes cv' (objectKey r (ku_namespace ob) (ku_name ob)) = Some o2"
      "has_finalizer o2" "same_identity ob o2" unfolding ctrl_env_def by blast
    with ob b(2) same_identity_mount [OF o2(3)] show ?thesis
      unfolding owned_def by (intro exI [of _ o2]) (simp add: same_identity_def)
  qed
  with inv(2) env show ?thesis by (simp add: mounts_owned_def ctrl_env_def)
qed

context controller_server
begin

lemma step_inv:
  assumes "ctrl_step Q r view cview w w'" "kcp_ok r" "mounts_owned r (view w) (cview w)"
    "unique_tenants r (view w)"
  shows "mounts_owned r (view w') (cview w') \<and> unique_tenants r (view w')"
  using assms(1)
proof cases
  case (reconcile ns n res)
  obtain g w0 where g: "rget (cp_kubes Q) (re_manager r) (ns, n) w = (g, w0)"
    by (cases "rget (cp_kubes Q) (re_manager r) (ns, n) w")
  show ?thesis
  proof (cases g)
    case (Inl e)
    with reconcile_unread [OF reconcile(1) g [unfolded Inl]] assms(3,4) show ?thesis by simp
  next
    case (Inr obj)
    note rd = g [unfolded Inr]
    have k: "cv_kubes (cview w) (objectKey r (ku_namespace obj) (ku_name obj)) = Some obj"
      using reconcile(2) rd reconcile_read(3,4) [OF reconcile(1) rd] by (simp add: fresh_read_def)
    show ?thesis
    proof (cases "ku_deletion obj")
      case None
      from live_run [OF reconcile(1) rd None]
      show ?thesis by (rule live_keeps [OF assms(2-4) k])
    next
      case (Some t)
      then have "ku_deletion obj \<noteq> None" by simp
      from deleted_run(1) [OF reconcile(1) rd this]
      show ?thesis by (rule deleted_keeps [OF assms(2-4) k])
    qed
  qed
next
  case env
  from env_keeps [OF assms(3,4) this] show ?thesis .
qed

lemma steps_inv:
  assumes "(ctrl_step Q r view cview)\<^sup>*\<^sup>* w w'" "kcp_ok r" "mounts_owned r (view w) (cview w)"
    "unique_tenants r (view w)"
  shows "mounts_owned r (view w') (cview w') \<and> unique_tenants r (view w')"
  using assms by (induction rule: rtranclp_induct) (auto dest: step_inv)

end

end
