(* ===== verification/Reference_Controller.thy ===== *)
theory Reference_Controller
  imports Ctrl_Protocol Reference_Cluster
begin

text \<open>
  An executable management cluster and workload cluster beside the reference kcp servers, for which
  the contract of \<open>Ctrl_Laws\<close> holds.  It interprets the locale and serves the examples.
\<close>

section \<open>A second world next to the first\<close>

definition beside :: "('w \<Rightarrow> 'r \<times> 'w) \<Rightarrow> 'w \<times> 'x \<Rightarrow> 'r \<times> ('w \<times> 'x)" where
  "beside m = (\<lambda>(w, x). case m w of (r, w') \<Rightarrow> (r, (w', x)))"

lemma beside_iff: "beside m wx = (r, wx') \<longleftrightarrow> m (fst wx) = (r, fst wx') \<and> snd wx' = snd wx"
  by (cases wx; cases wx') (auto simp: beside_def split: prod.splits)

definition beside_resource :: "('w, 'o) resource \<Rightarrow> ('w \<times> 'x, 'o) resource" where
  "beside_resource R =
     \<lparr>rget = (\<lambda>c k. beside (rget R c k)), rlist = (\<lambda>c ns. beside (rlist R c ns)),
      rcreate = (\<lambda>c ns x. beside (rcreate R c ns x)), rupdate = (\<lambda>c ns x. beside (rupdate R c ns x)),
      rdelete = (\<lambda>c k. beside (rdelete R c k))\<rparr>"

definition beside_platform :: "'w platform \<Rightarrow> ('w \<times> 'x) platform" where
  "beside_platform E =
     \<lparr>c_saNameKey = c_saNameKey E, c_saTokenType = c_saTokenType E, c_rbacGroup = c_rbacGroup E,
      c_saKind = c_saKind E, c_contentDeleted = c_contentDeleted E, c_lcName = c_lcName E,
      c_claimAccepted = c_claimAccepted E, kcp_new = kcp_new E, kube_new = kube_new E,
      dyn_new = dyn_new E, kc_load = kc_load E, kc_write = kc_write E,
      p_workspaces = beside_resource (p_workspaces E),
      p_logicalclusters = beside_resource (p_logicalclusters E),
      p_bindings = beside_resource (p_bindings E), p_namespaces = beside_resource (p_namespaces E),
      p_accounts = beside_resource (p_accounts E), p_secrets = beside_resource (p_secrets E),
      p_crbs = beside_resource (p_crbs E),
      p_listDatabases = (\<lambda>c g ns. beside (p_listDatabases E c g ns)),
      p_patchDeployment = (\<lambda>c k b. beside (p_patchDeployment E c k b))\<rparr>"

lemma resource_laws_beside:
  assumes "resource_laws R view sel put name_of stored dying"
  shows "resource_laws (beside_resource R) (\<lambda>wx. view (fst wx)) sel put name_of stored dying"
proof -
  note L = resource_laws.sel_put [OF assms] resource_laws.named [OF assms]
    resource_laws.get_reads [OF assms] resource_laws.get_found [OF assms]
    resource_laws.get_missing [OF assms] resource_laws.list_reads [OF assms]
    resource_laws.list_sound [OF assms] resource_laws.list_complete [OF assms]
    resource_laws.create_ok [OF assms] resource_laws.create_exists [OF assms]
    resource_laws.create_error [OF assms] resource_laws.update_ok [OF assms]
    resource_laws.update_error [OF assms] resource_laws.delete_ok [OF assms]
    resource_laws.delete_missing [OF assms] resource_laws.delete_error [OF assms]
  show ?thesis
    by (rule resource_laws.intro;
        (simp only: beside_resource_def resource.select_convs beside_iff)?; (elim conjE)?;
        (rule L, assumption+ | rule L))
qed

lemma api_server_beside:
  assumes "api_server E view"
  shows "api_server (beside_platform E) (\<lambda>wx. view (fst wx))"
proof -
  note A = assms [unfolded api_server_def]
  show ?thesis
    unfolding api_server_def beside_platform_def platform.select_convs
    using A by (auto intro!: resource_laws_beside simp: api_server_axioms_def beside_iff)
qed

section \<open>Objects by server and name\<close>

definition look :: "('o \<Rightarrow> 'k) \<Rightarrow> (string \<times> 'o) list \<Rightarrow> string \<times> 'k \<Rightarrow> 'o option" where
  "look key l = map_of (map (\<lambda>(h, x). ((h, key x), x)) l)"

definition without :: "('o \<Rightarrow> 'k) \<Rightarrow> string \<times> 'k \<Rightarrow> (string \<times> 'o) list \<Rightarrow> (string \<times> 'o) list" where
  "without key k l = filter (\<lambda>(h, x). (h, key x) \<noteq> k) l"

lemma look_Cons [simp]: "look key ((h, x) # l) = (look key l)((h, key x) \<mapsto> x)"
  by (simp add: look_def)

lemma look_mem: "look key l (h, k) = Some x \<Longrightarrow> (h, x) \<in> set l \<and> key x = k"
  by (auto simp: look_def dest!: map_of_SomeD)

lemma look_without: "look key (without key k l) = (look key l)(k := None)"
proof (induction l)
  case (Cons e l)
  obtain h x where e: "e = (h, x)" by (cases e)
  with Cons show ?case
    by (cases "(h, key x) = k") (auto simp: without_def fun_upd_twist)
qed (auto simp: look_def without_def)

text \<open>The objects of one server, each once.\<close>

definition objects :: "('o \<Rightarrow> 'k) \<Rightarrow> (string \<times> 'o) list \<Rightarrow> string \<Rightarrow> 'o list" where
  "objects key l h = remdups (filter (\<lambda>x. look key l (h, key x) = Some x) (map snd l))"

lemma set_objects: "set (objects key l h) = {x. look key l (h, key x) = Some x}"
  by (force simp: objects_def dest: look_mem)

lemma distinct_objects: "distinct (map key (objects key l h))"
  unfolding distinct_map
proof
  show "inj_on key (set (objects key l h))"
  proof (rule inj_onI)
    fix x y assume "x \<in> set (objects key l h)" "y \<in> set (objects key l h)" "key x = key y"
    then have "Some x = look key l (h, key x)" "look key l (h, key x) = Some y"
      by (simp_all add: set_objects)
    then have "Some x = Some y" by (rule trans)
    then show "x = y" by simp
  qed
qed (simp add: objects_def)

section \<open>The reference controller platform\<close>

record management_world =
  mg_kubes :: "(string \<times> kubernetes) list"
  mg_clusters :: "(string \<times> capi_cluster) list"
  mg_configmaps :: "(string \<times> config_map) list"
  mg_nodes :: "(string \<times> node) list"
  mg_applied :: "((string \<times> string \<times> string option \<times> string \<times> string) \<times> string) list"

type_synonym ctrl_world = "ref_world \<times> management_world"

text \<open>A read, and a write, each with the next fault of the schedule.\<close>

definition mg_read :: "'e \<Rightarrow> (management_world \<Rightarrow> 'e + 'a) \<Rightarrow> (ctrl_world, 'e, 'a) call" where
  "mg_read refused f = (\<lambda>(w, m). case tick w of (flt, w1) \<Rightarrow>
     (if flt \<noteq> NoFault then Inl refused else f m, (w1, m)))"

definition mg_write ::
  "(management_world \<Rightarrow> api_error + 'a \<times> management_world) \<Rightarrow> (ctrl_world, api_error, 'a) call" where
  "mg_write f = (\<lambda>(w, m). case tick w of (flt, w1) \<Rightarrow>
     if flt = Refused then (Inl (ApiFailure ''refused''), (w1, m))
     else (case f m of Inl e \<Rightarrow> (Inl e, (w1, m))
       | Inr (a, m') \<Rightarrow> (if flt = AnswerLost then Inl (ApiFailure ''timeout'') else Inr a, (w1, m'))))"

definition found :: "'o option \<Rightarrow> api_error + 'o" where
  "found x = (case x of None \<Rightarrow> Inl NotFound | Some y \<Rightarrow> Inr y)"

definition kubeKey :: "kubernetes \<Rightarrow> objkey" where
  "kubeKey x = (ku_namespace x, ku_name x)"

definition clusterKey :: "capi_cluster \<Rightarrow> objkey" where
  "clusterKey x = (cl_namespace x, cl_name x)"

definition mg_update_kube :: "string \<Rightarrow> string \<Rightarrow> kubernetes \<Rightarrow> management_world \<Rightarrow>
    api_error + kubernetes \<times> management_world" where
  "mg_update_kube h ns x m =
     (case look kubeKey (mg_kubes m) (h, kubeKey x) of
        None \<Rightarrow> Inl NotFound
      | Some _ \<Rightarrow>
          if ns \<noteq> ku_namespace x then Inl (ApiFailure ''namespace'')
          else
            Inr (x, m\<lparr>mg_kubes :=
              (if ku_deletion x \<noteq> None \<and> ku_finalizers x = [] then without kubeKey (h, kubeKey x) (mg_kubes m)
               else (h, x) # mg_kubes m)\<rparr>))"

definition merge_annotations ::
  "string gomap option \<Rightarrow> string gomap option \<Rightarrow> string gomap option \<Rightarrow> string gomap option" where
  "merge_annotations orig new old =
     (let changed = (\<lambda>(k, _). gm_get new k \<noteq> gm_get orig k);
          entries = (\<lambda>m. case m of None \<Rightarrow> [] | Some al \<Rightarrow> al)
      in Some (filter changed (entries new) @ filter (\<lambda>e. \<not> changed e) (entries old)))"

definition mg_patch_cluster :: "string \<Rightarrow> capi_cluster \<Rightarrow> capi_cluster \<Rightarrow> management_world \<Rightarrow>
    api_error + unit \<times> management_world" where
  "mg_patch_cluster h orig new m =
     (case look clusterKey (mg_clusters m) (h, clusterKey new) of
        None \<Rightarrow> Inl NotFound
      | Some old \<Rightarrow>
          Inr ((), m\<lparr>mg_clusters := (h, old\<lparr>cl_annotations :=
            merge_annotations (cl_annotations orig) (cl_annotations new) (cl_annotations old)\<rparr>) # mg_clusters m\<rparr>))"

definition no_resource :: "(ctrl_world, 'o) resource" where
  "no_resource =
     \<lparr>rget = (\<lambda>c k w. (Inl NotFound, w)), rlist = (\<lambda>c ns w. (Inr [], w)),
      rcreate = (\<lambda>c ns x w. (Inl (ApiFailure ''read only''), w)),
      rupdate = (\<lambda>c ns x w. (Inl (ApiFailure ''read only''), w)),
      rdelete = (\<lambda>c k w. (Inl NotFound, w))\<rparr>"

text \<open>A manifest of the examples is a list of names between bars; the name \<open>!\<close> does not decode.\<close>

definition ref_decode :: "string \<Rightarrow> (go_error + manifest_object) list" where
  "ref_decode s = map (\<lambda>n. if n = ''!'' then Inl (errorf ''yaml'' [])
     else Inr \<lparr>mo_keys = length n, mo_group = [], mo_version = ''v1'', mo_kind = ''ConfigMap'',
       mo_name = n, mo_namespace = ''kube-system'', mo_json = Inr n\<rparr>) (split_byte s (CHR ''|''))"

definition ref_admin :: "string \<Rightarrow> rest_config" where
  "ref_admin h = \<lparr>rc_host = h, rc_bearerToken = [], rc_certData = [], rc_keyData = [], rc_caData = [],
     rc_certFile = [], rc_keyFile = [], rc_insecure = False\<rparr>"

definition ref_ctrl :: "ctrl_world ctrl_platform" where
  "ref_ctrl =
     \<lparr>cp_base = beside_platform ref_platform,
      cp_kubes = no_resource\<lparr>
        rget := (\<lambda>c k. mg_read (ApiFailure ''refused'') (\<lambda>m. found (look kubeKey (mg_kubes m) (rc_host c, k)))),
        rupdate := (\<lambda>c ns x. mg_write (mg_update_kube (rc_host c) ns x))\<rparr>,
      cp_clusters = no_resource\<lparr>
        rget := (\<lambda>c k. mg_read (ApiFailure ''refused'')
          (\<lambda>m. found (look clusterKey (mg_clusters m) (rc_host c, k))))\<rparr>,
      cp_patchCluster = (\<lambda>c orig new. mg_write (mg_patch_cluster (rc_host c) orig new)),
      cp_configmaps = no_resource\<lparr>
        rget := (\<lambda>c k. mg_read (ApiFailure ''refused'')
          (\<lambda>m. found (look cm_name (mg_configmaps m) (rc_host c, snd k))))\<rparr>,
      cp_listNodes = (\<lambda>c sel. mg_read (ApiFailure ''refused'')
        (\<lambda>m. Inr (filter (\<lambda>x. gm_get (no_labels x) sel \<noteq> None) (objects no_name (mg_nodes m) (rc_host c))))),
      cp_updateNode = (\<lambda>c x. mg_write (\<lambda>m. Inr (x, m\<lparr>mg_nodes := (rc_host c, x) # mg_nodes m\<rparr>))),
      cp_restConfig = (\<lambda>b. if b = [] then Inl (errorf ''no kubeconfig'' []) else Inr (ref_admin b)),
      cp_discovery_new = (\<lambda>_. None), cp_decode = ref_decode,
      cp_mapping = (\<lambda>c gk v. mg_read (errorf ''refused'' []) (\<lambda>_. Inr (snd gk, True))),
      cp_apply = (\<lambda>c rs nso n body opts. mg_write (\<lambda>m. Inr ((),
        m\<lparr>mg_applied := ((rc_host c, rs, nso, n, fst opts), body) # mg_applied m\<rparr>))),
      cp_addFinalizer = (\<lambda>fs f. if f \<in> set fs then (fs, False) else (fs @ [f], True)),
      cp_removeFinalizer = (\<lambda>fs f. (filter (\<lambda>x. x \<noteq> f) fs, f \<in> set fs)),
      cp_containsFinalizer = (\<lambda>fs f. f \<in> set fs),
      cp_conditionTrue = (\<lambda>cs t. list_ex (\<lambda>c. cond_type c = t \<and> cond_status c = ''True'') cs),
      cp_transport = (\<lambda>_. None), cp_noSchedule = ''NoSchedule''\<rparr>"

definition ref_cview :: "ctrl_world \<Rightarrow> ctrl_view" where
  "ref_cview wx =
     \<lparr>cv_kubes = look kubeKey (mg_kubes (snd wx)), cv_clusters = look clusterKey (mg_clusters (snd wx)),
      cv_nodes = look no_name (mg_nodes (snd wx)), cv_applied = map_of (mg_applied (snd wx))\<rparr>"

definition ref_tenants :: "ctrl_world \<Rightarrow> cluster_view" where
  "ref_tenants wx = ref_view (fst wx)"

lemma keeps_beside_snd: "keeps ref_cview (beside m)"
  by (rule keepsI) (auto simp: beside_def ref_cview_def split: prod.splits)

lemma mg_read_keeps: "keeps ref_cview (mg_read e f)" "keeps ref_tenants (mg_read e f)"
  by (rule keepsI, auto simp: mg_read_def ref_cview_def ref_tenants_def dest: tick_view split: prod.splits)+

lemma mg_write_keeps: "keeps ref_tenants (mg_write f)"
  by (rule keepsI) (auto simp: mg_write_def ref_tenants_def dest: tick_view split: prod.splits sum.splits)

lemma mg_write_ok:
  "mg_write f wx = (Inr a, wx') \<Longrightarrow> f (snd wx) = Inr (a, snd wx')"
  by (auto simp: mg_write_def split: prod.splits sum.splits if_splits)

lemma mg_write_error:
  "mg_write f wx = (Inl e, wx') \<Longrightarrow> snd wx' = snd wx \<or> (\<exists>a. f (snd wx) = Inr (a, snd wx'))"
  by (auto simp: mg_write_def split: prod.splits sum.splits if_splits)

lemma mg_read_ok: "mg_read e f wx = (Inr a, wx') \<Longrightarrow> f (snd wx) = Inr a"
  by (auto simp: mg_read_def split: prod.splits if_splits)

lemma found_Inr [simp]: "found x = Inr y \<longleftrightarrow> x = Some y"
  by (simp add: found_def split: option.split)

lemma map_of_filter_key: "map_of (filter (\<lambda>(k, _). P k) al) k = (if P k then map_of al k else None)"
  by (induction al) auto

lemma merge_annotations_get:
  "gm_get (merge_annotations orig new old) k =
     (if gm_get new k = gm_get orig k then gm_get old k else gm_get new k)"
proof -
  have f: "map_of (filter (\<lambda>(k, _). gm_get new k \<noteq> gm_get orig k) al) k =
      (if gm_get new k \<noteq> gm_get orig k then map_of al k else None)"
    "map_of (filter (\<lambda>e. \<not> (case e of (k, _) \<Rightarrow> gm_get new k \<noteq> gm_get orig k)) al) k =
      (if gm_get new k = gm_get orig k then map_of al k else None)" for al
    by (induction al) auto
  show ?thesis
    by (auto simp: merge_annotations_def Let_def gm_get_def [of "Some _"] map_add_def f
        split: option.splits) (auto simp: gm_get_def split: option.splits)
qed

lemma ref_cview_upd:
  "snd wx' = snd wx \<Longrightarrow> ref_cview wx' = ref_cview wx"
  by (simp add: ref_cview_def)

lemma update_kube_view:
  assumes "mg_update_kube (rc_host c) ns ku (snd wx) = Inr (o2, snd wx')"
  shows "o2 = ku" "\<exists>x. kube_written ku x \<and>
    ref_cview wx' = put_kube (rc_host c, (ns, ku_name ku)) x (ref_cview wx)"
proof -
  from assms have a: "o2 = ku" "ns = ku_namespace ku"
    "snd wx' = (snd wx)\<lparr>mg_kubes :=
       (if ku_deletion ku \<noteq> None \<and> ku_finalizers ku = []
        then without kubeKey (rc_host c, kubeKey ku) (mg_kubes (snd wx))
        else (rc_host c, ku) # mg_kubes (snd wx))\<rparr>"
    by (auto simp: mg_update_kube_def split: option.splits if_splits)
  from a(1) show "o2 = ku" .
  show "\<exists>x. kube_written ku x \<and> ref_cview wx' = put_kube (rc_host c, (ns, ku_name ku)) x (ref_cview wx)"
  proof (cases "ku_deletion ku \<noteq> None \<and> ku_finalizers ku = []")
    case True
    with a show ?thesis
      by (intro exI [of _ None])
        (simp add: ref_cview_def put_kube_def kube_written_def look_without kubeKey_def)
  next
    case False
    with a show ?thesis
      by (intro exI [of _ "Some ku"])
        (auto simp: ref_cview_def put_kube_def kube_written_def kube_stored_def kubeKey_def)
  qed
qed

lemma patch_cluster_view:
  assumes "mg_patch_cluster (rc_host c) orig new (snd wx) = Inr (u, snd wx')"
  shows "patch_effect c orig new (ref_cview wx) (ref_cview wx')"
proof -
  from assms obtain old where o: "look clusterKey (mg_clusters (snd wx)) (rc_host c, clusterKey new) = Some old"
    "snd wx' = (snd wx)\<lparr>mg_clusters := (rc_host c, old\<lparr>cl_annotations :=
       merge_annotations (cl_annotations orig) (cl_annotations new) (cl_annotations old)\<rparr>) # mg_clusters (snd wx)\<rparr>"
    by (auto simp: mg_patch_cluster_def split: option.splits)
  from look_mem [OF o(1)] have k: "clusterKey old = clusterKey new" by simp
  then have "clusterKey (old\<lparr>cl_annotations := a\<rparr>) = (cl_namespace new, cl_name new)" for a
    by (simp add: clusterKey_def)
  with o show ?thesis
    unfolding patch_effect_def Let_def
    by (intro exI [of _ old] exI [of _ "old\<lparr>cl_annotations :=
       merge_annotations (cl_annotations orig) (cl_annotations new) (cl_annotations old)\<rparr>"])
      (simp add: ref_cview_def merged_def merge_annotations_get clusterKey_def)
qed

lemmas ref_ctrl_sel = ref_ctrl_def ctrl_platform.select_convs resource.simps no_resource_def

lemma mg_kube_update_error:
  assumes "mg_write (mg_update_kube (rc_host c) ns ku) wx = (Inl e, wx')"
  shows "ref_cview wx' = ref_cview wx \<or> (\<exists>x. kube_written ku x \<and>
    ref_cview wx' = put_kube (rc_host c, (ns, ku_name ku)) x (ref_cview wx))"
  using mg_write_error [OF assms] update_kube_view(2) [of c ns ku wx _ wx'] by (auto intro: ref_cview_upd)

lemma mg_patch_error:
  assumes "mg_write (mg_patch_cluster (rc_host c) orig new) wx = (Inl e, wx')"
  shows "ref_cview wx' = ref_cview wx \<or> patch_effect c orig new (ref_cview wx) (ref_cview wx')"
  using mg_write_error [OF assms] patch_cluster_view [of c orig new wx _ wx'] by (auto intro: ref_cview_upd)

lemma node_view:
  "snd wx' = (snd wx)\<lparr>mg_nodes := (h, x) # mg_nodes (snd wx)\<rparr> \<Longrightarrow>
   ref_cview wx' = put_node (h, no_name x) x (ref_cview wx)"
  by (simp add: ref_cview_def put_node_def)

lemma applied_view:
  "snd wx' = (snd wx)\<lparr>mg_applied := (k, x) # mg_applied (snd wx)\<rparr> \<Longrightarrow>
   ref_cview wx' = put_applied k x (ref_cview wx)"
  by (simp add: ref_cview_def put_applied_def)

interpretation cref: controller_server ref_ctrl ref_tenants ref_cview
proof (intro controller_server.intro controller_server_axioms.intro, goal_cases)
  case 1
  show ?case
    using api_server_beside [OF ref.api_server_axioms]
    by (simp add: ref_ctrl_def ref_tenants_def [abs_def])
next
  case (21 c ns n w ku w')
  then show ?case by (auto simp: ref_ctrl_sel kubeKey_def dest!: mg_read_ok look_mem)
next
  case (22 c ns n w cl w')
  then show ?case by (auto simp: ref_ctrl_sel clusterKey_def dest!: mg_read_ok look_mem)
next
  case (23 c ns ku w o2 w')
  then have u: "mg_update_kube (rc_host c) ns ku (snd w) = Inr (o2, snd w')"
    by (auto simp: ref_ctrl_sel dest: mg_write_ok)
  from update_kube_view [OF u] show ?case by (simp add: kube_stored_def)
next
  case (24 c ns ku w e w')
  then show ?case by (intro mg_kube_update_error) (simp add: ref_ctrl_sel)
next
  case (25 c orig new w u w')
  then show ?case by (intro patch_cluster_view) (auto simp: ref_ctrl_sel dest: mg_write_ok)
next
  case (26 c orig new w e w')
  then show ?case by (intro mg_patch_error) (simp add: ref_ctrl_sel)
next
  case (27 w h n nd)
  then show ?case by (auto simp: ref_cview_def dest: look_mem)
next
  case (28 c w nds w')
  then have "nds = filter is_control_plane (objects no_name (mg_nodes (snd w)) (rc_host c))"
    by (auto simp: ref_ctrl_sel is_control_plane_def [abs_def] dest!: mg_read_ok)
  then show ?case
    using distinct_objects [of no_name "mg_nodes (snd w)" "rc_host c"]
    by (simp add: distinct_map_filter) (auto simp: ref_cview_def set_objects)
next
  case (29 c nd w nd' w')
  then have "snd w' = (snd w)\<lparr>mg_nodes := (rc_host c, nd) # mg_nodes (snd w)\<rparr>"
    by (auto simp: ref_ctrl_sel dest!: mg_write_ok)
  from node_view [OF this] show ?case by (intro exI [of _ nd]) simp
next
  case (30 c nd w e w')
  then have "snd w' = snd w \<or> snd w' = (snd w)\<lparr>mg_nodes := (rc_host c, nd) # mg_nodes (snd w)\<rparr>"
    by (auto simp: ref_ctrl_sel dest!: mg_write_error)
  then show ?case using ref_cview_upd [of w' w] node_view [of w' "rc_host c" nd w] node_stored_refl by blast
next
  case (31 c rs nso n body opts w u w')
  then show ?case by (intro applied_view) (auto simp: ref_ctrl_sel dest!: mg_write_ok)
next
  case (32 c rs nso n body opts w e w')
  then have "snd w' = snd w \<or> snd w' = (snd w)\<lparr>mg_applied :=
      ((rc_host c, rs, nso, n, fst opts), body) # mg_applied (snd w)\<rparr>"
    by (auto simp: ref_ctrl_sel dest!: mg_write_error)
  then show ?case by (auto intro: ref_cview_upd applied_view)
next
  case (33 fs f) show ?case by (simp add: ref_ctrl_sel)
next
  case (34 fs f fs' added) then show ?case by (auto simp: ref_ctrl_sel split: if_splits)
next
  case (35 fs f fs' removed) then show ?case by (auto simp: ref_ctrl_sel)
qed (simp_all add: ref_ctrl_sel beside_platform_def beside_resource_def keeps_beside_snd mg_read_keeps
    mg_write_keeps)

end
