(* ===== verification/Controller_Properties.thy ===== *)
theory Controller_Properties
  imports Ctrl_System Reference_Controller
begin

text \<open>
  The properties of the Kubernetes controller, over every platform and pair of views that satisfy
  \<open>controller_server\<close>, each with an application to the reference controller platform.
\<close>

section \<open>A concrete installation\<close>

definition cxReconciler :: reconciler where
  "cxReconciler = \<lparr>re_manager = ref_admin ''https://mgmt'', re_k8s = ref_admin ''https://mgmt'',
     re_kcp = ref_admin ''https://kcp/'', re_consumers = ''root:con'',
     re_proxyBaseURL = ''http://proxy:8080/''\<rparr>"

definition cxObject :: "string list \<Rightarrow> timestamp option \<Rightarrow> kubernetes" where
  "cxObject fs deleted = \<lparr>ku_namespace = ''c1'', ku_name = ''demo'', ku_annotations = None,
     ku_finalizers = fs, ku_deletion = deleted,
     ku_spec = \<lparr>ks_allowScheduling = Some False, ks_machineCount = \<lparr>mc_controlPlane = 1, mc_worker = 1\<rparr>\<rparr>,
     ku_status = \<lparr>kst_phase = [], kst_ready = False, kst_url = [], kst_mountedWorkspace = []\<rparr>\<rparr>"

definition cxWorkspace :: "string \<Rightarrow> string \<Rightarrow> workspace" where
  "cxWorkspace name cluster = \<lparr>ws_apiVersion = ''tenancy.kcp.io/v1alpha1'', ws_kind = ''Workspace'',
     ws_name = name, ws_annotations = None, ws_deletion = None, ws_type = Some ''universal'',
     ws_mount = None, ws_cluster = cluster, ws_url = [], ws_phase = ''Ready''\<rparr>"

definition cxKubeconfig :: secret where
  "cxKubeconfig = \<lparr>sec_name = ''demo-kubeconfig'', sec_namespace = ''c1'', sec_annotations = None,
     sec_type = [], sec_data = Some [(''value'', ''https://wl'')]\<rparr>"

definition cxTenants :: "workspace table \<Rightarrow> ref_world" where
  "cxTenants extra = \<lparr>rw_faults = [],
     rw_workspaces = ((''https://kcp/clusters/root:con'', ([], ''al'')), cxWorkspace ''al'' ''c1'') # extra,
     rw_logicalclusters = [], rw_bindings = [], rw_namespaces = [], rw_accounts = [],
     rw_secrets = [((''https://mgmt'', (''c1'', ''demo-kubeconfig'')), cxKubeconfig)],
     rw_crbs = [], rw_databases = [], rw_patches = []\<rparr>"

definition cxNode :: node where
  "cxNode = \<lparr>no_name = ''n1'', no_labels = Some [(''node-role.kubernetes.io/control-plane'', [])],
     no_taints = []\<rparr>"

definition cxManagement :: "kubernetes \<Rightarrow> management_world" where
  "cxManagement obj = \<lparr>mg_kubes = [(''https://mgmt'', obj)],
     mg_clusters = [(''https://mgmt'', \<lparr>cl_namespace = ''c1'', cl_name = ''demo'', cl_annotations = None,
       cl_phase = ''Provisioned'',
       cl_conditions = [\<lparr>cond_type = ''Available'', cond_status = ''True'', cond_message = []\<rparr>]\<rparr>)],
     mg_configmaps = [(''https://mgmt'', \<lparr>cm_name = ''dbaas-calico'',
       cm_data = Some [(''calico.yaml'', ''cni|rbac'')]\<rparr>)],
     mg_nodes = [(''https://wl'', cxNode)], mg_applied = []\<rparr>"

definition cxNew :: ctrl_world where
  "cxNew = (cxTenants [], cxManagement (cxObject [] None))"

definition cxLive :: ctrl_world where
  "cxLive = snd (Reconcile ref_ctrl cxReconciler (''c1'', ''demo'') cxNew)"

text \<open>A tenant's own workspace that happens to have the name of the Kubernetes object.\<close>

definition cxOwn :: "workspace table" where
  "cxOwn = [((''https://kcp/clusters/root:con:al'', ([], ''demo'')), (cxWorkspace ''demo'' ''c2'')\<lparr>ws_phase := []\<rparr>)]"

definition cxDeleted :: ctrl_world where
  "cxDeleted = (cxTenants cxOwn, cxManagement (cxObject [kubernetesFinalizer] (Some (At 1))))"

lemma live_run_ok:
  "Reconcile ref_ctrl cxReconciler (''c1'', ''demo'') cxNew = (Inr (RequeueAfter 15), cxLive)"
proof -
  have "fst (Reconcile ref_ctrl cxReconciler (''c1'', ''demo'') cxNew) = Inr (RequeueAfter 15)" by code_simp
  then show ?thesis by (simp add: cxLive_def prod_eq_iff)
qed

lemma read_new:
  "rget (cp_kubes ref_ctrl) (re_manager cxReconciler) (''c1'', ''demo'') cxNew =
     (Inr (cxObject [] None), cxNew)"
  by (simp add: ref_ctrl_sel cxReconciler_def cxNew_def mg_read_def tick_def cxTenants_def cxManagement_def
      found_def look_def ref_admin_def kubeKey_def cxObject_def)

section \<open>The finalizer protocol\<close>

text \<open>
  C8: a reconcile of a live Kubernetes object, however it ends, touches at most its own mounted
  workspace in kcp: it creates it where there was none, pointing at the object, and only while the
  finalizer is on the object.  The finalizer is the only change to the object, and a status is
  published only under it.
\<close>

theorem live_object_reconciled:
  assumes "controller_server Q view cview" and "Reconcile Q r (ns, n) w = (res, w')"
    and "rget (cp_kubes Q) (re_manager r) (ns, n) w = (Inr obj, w0)" and "ku_deletion obj = None"
  shows "live_effect Q r obj (view w) (view w') (cview w) (cview w')"
  by (rule controller_server.live_run [OF assms])

theorem live_object_reconciled_witness:
  "live_effect ref_ctrl cxReconciler (cxObject [] None) (ref_tenants cxNew) (ref_tenants cxLive)
     (ref_cview cxNew) (ref_cview cxLive)"
  by (rule live_object_reconciled [OF cref.controller_server_axioms live_run_ok read_new])
    (simp add: cxObject_def)

text \<open>
  C6: a reconcile of an object that is being deleted takes the finalizer off only when the mounted
  workspace is gone or terminating, or its tenant no longer exists; every error before that leaves
  the object alone, so that the deletion is tried again.  A run that returns without an error has
  done both, and without the finalizer a run does nothing.
\<close>

theorem finalizer_guards_mount:
  assumes "controller_server Q view cview" and "Reconcile Q r (ns, n) w = (res, w')"
    and "rget (cp_kubes Q) (re_manager r) (ns, n) w = (Inr obj, w0)" and "ku_deletion obj \<noteq> None"
  shows "delete_effect r obj (view w) (view w') (cview w) (cview w') \<and>
    (res = Inr Done \<and> has_finalizer obj \<longrightarrow>
      mount_released r obj (view w) (view w') \<and>
      (\<forall>o2. cv_kubes (cview w') (objectKey r ns n) = Some o2 \<longrightarrow> \<not> has_finalizer o2)) \<and>
    (\<not> has_finalizer obj \<longrightarrow> res = Inr Done)"
proof (intro conjI impI)
  assume "res = Inr Done \<and> has_finalizer obj"
  then obtain fs x where fs: "set fs = set (ku_finalizers obj) - {kubernetesFinalizer}"
    and x: "kube_written (obj\<lparr>ku_finalizers := fs\<rparr>) x" "cv_kubes (cview w') (objectKey r ns n) = x"
    and rel: "mount_released r obj (view w) (view w')"
    using controller_server.deleted_run(2) [OF assms] by blast
  show "mount_released r obj (view w) (view w')" by (rule rel)
  from kube_written_finalizers [OF x(1)] fs x(2)
  show "\<forall>o2. cv_kubes (cview w') (objectKey r ns n) = Some o2 \<longrightarrow> \<not> has_finalizer o2"
    by (auto simp: has_finalizer_def)
qed (rule controller_server.deleted_run(1,3) [OF assms], assumption?)+

definition cxGone :: ctrl_world where
  "cxGone = snd (Reconcile ref_ctrl cxReconciler (''c1'', ''demo'') cxDeleted)"

lemma deleted_run_ok:
  "Reconcile ref_ctrl cxReconciler (''c1'', ''demo'') cxDeleted = (Inr Done, cxGone)"
proof -
  have "fst (Reconcile ref_ctrl cxReconciler (''c1'', ''demo'') cxDeleted) = Inr Done" by code_simp
  then show ?thesis by (simp add: cxGone_def prod_eq_iff)
qed

lemma read_deleted:
  "rget (cp_kubes ref_ctrl) (re_manager cxReconciler) (''c1'', ''demo'') cxDeleted =
     (Inr (cxObject [kubernetesFinalizer] (Some (At 1))), cxDeleted)"
  by (simp add: ref_ctrl_sel cxReconciler_def cxDeleted_def mg_read_def tick_def cxTenants_def
      cxManagement_def found_def look_def ref_admin_def kubeKey_def cxObject_def)

theorem finalizer_guards_mount_witness:
  "mount_released cxReconciler (cxObject [kubernetesFinalizer] (Some (At 1)))
     (ref_tenants cxDeleted) (ref_tenants cxGone)"
proof -
  have d: "ku_deletion (cxObject [kubernetesFinalizer] (Some (At 1))) \<noteq> None"
    and f: "has_finalizer (cxObject [kubernetesFinalizer] (Some (At 1)))"
    by (simp_all add: cxObject_def has_finalizer_def)
  from finalizer_guards_mount [OF cref.controller_server_axioms deleted_run_ok read_deleted d] f
  show ?thesis by blast
qed


section \<open>The published status\<close>



text \<open>
  C9: ensuring the mounted workspace, on every path, leaves every workspace that exists as it is
  and creates at most this one; when it returns without an error, the tenant of the logical cluster
  has a workspace of that name that points at the object.
\<close>

theorem mounted_workspace_ensured:
  assumes "controller_server Q view cview"
    and "ensureMountedWorkspace Q r clusterID mw rn rns w = (res, w')"
  shows "(\<forall>k ws. v_workspaces (view w) k = Some ws \<longrightarrow> v_workspaces (view w') k = Some ws) \<and>
    (view w' = view w \<or> (\<exists>path x. tenant_of r (view w) clusterID path \<and> mounts rn rns x \<and>
       view w' = put_workspace (mountKey r path mw) (Some x) (view w))) \<and>
    (res = Inr () \<longrightarrow> (\<exists>path x. tenant_of r (view w) clusterID path \<and>
       v_workspaces (view w') (mountKey r path mw) = Some x \<and> mounts rn rns x))"
proof -
  from controller_server.ensure_mount_any [OF assms]
  have any: "view w' = view w \<or> (\<exists>path x. tenant_of r (view w) clusterID path \<and>
      v_workspaces (view w) (mountKey r path mw) = None \<and> mounts rn rns x \<and>
      view w' = put_workspace (mountKey r path mw) (Some x) (view w))"
    using stored_mounts [of "mountedWorkspaceObject mw rn rns"] by fastforce
  then have "v_workspaces (view w') k = Some ws" if "v_workspaces (view w) k = Some ws" for k ws
    using that by (auto simp: put_workspace_def)
  moreover from any have "view w' = view w \<or> (\<exists>path x. tenant_of r (view w) clusterID path \<and>
      mounts rn rns x \<and> view w' = put_workspace (mountKey r path mw) (Some x) (view w))" by blast
  ultimately show ?thesis
    using controller_server.ensure_mount_ok [OF assms(1), of r clusterID mw rn rns w "()" w'] assms(2)
    by blast
qed

theorem mounted_workspace_ensured_witness:
  "\<exists>w' path x. ensureMountedWorkspace ref_ctrl cxReconciler ''c1'' ''demo'' ''demo'' ''default'' cxNew = (Inr (), w') \<and>
     v_workspaces (ref_tenants w') (mountKey cxReconciler path ''demo'') = Some x \<and> mounts ''demo'' ''default'' x"
proof -
  obtain res w' where run: "ensureMountedWorkspace ref_ctrl cxReconciler ''c1'' ''demo'' ''demo'' ''default'' cxNew = (res, w')"
    by (metis prod.collapse)
  have "fst (ensureMountedWorkspace ref_ctrl cxReconciler ''c1'' ''demo'' ''demo'' ''default'' cxNew) = Inr ()"
    by code_simp
  with run have "res = Inr ()" by simp
  with mounted_workspace_ensured [OF cref.controller_server_axioms run] run show ?thesis by blast
qed

section \<open>The workload cluster\<close>

text \<open>
  C25: the scheduling step brings the taints of the control plane nodes in line.  The nodes are
  those of the cluster the kubeconfig secret names; when the step returns without an error, each of
  its control plane nodes has the wanted taints, a run that stops leaves each node with its old or
  the wanted taints, and no other node changes.
\<close>

theorem control_plane_scheduling:
  assumes "controller_server Q view cview"
    and "reconcileControlPlaneScheduling Q r obj w = (res, w')"
  shows "view w' = view w \<and> management (cview w') = management (cview w) \<and>
    (cview w' = cview w \<and> res \<noteq> Inr () \<or>
     (\<exists>s cfg. v_secrets (view w) (rc_host (re_k8s r), kubeconfigKey (ku_namespace obj) (ku_name obj)) = Some s \<and>
        cp_restConfig Q (gm_string (sec_data s) ''value'') = Inr cfg \<and>
        nodes_effect Q (allowScheduling obj) (rc_host cfg) (res = Inr ()) (cview w) (cview w')))"
  using controller_server.scheduling_run [OF assms]
    keepsD [OF controller_server.scheduling_keeps(1) [OF assms(1)] assms(2)]
    keepsD [OF controller_server.scheduling_keeps(2) [OF assms(1)] assms(2)]
  by blast

theorem control_plane_scheduling_witness:
  "\<exists>w' x. reconcileControlPlaneScheduling ref_ctrl cxReconciler (cxObject [] None) cxNew = (Inr (), w') \<and>
     cv_nodes (ref_cview w') (''https://wl'', ''n1'') = Some x \<and> list_ex (blocks_scheduling ref_ctrl) (no_taints x)"
proof -
  obtain res w' where run: "reconcileControlPlaneScheduling ref_ctrl cxReconciler (cxObject [] None) cxNew = (res, w')"
    by (metis prod.collapse)
  have "fst (reconcileControlPlaneScheduling ref_ctrl cxReconciler (cxObject [] None) cxNew) = Inr ()" by code_simp
  with run have ok: "res = Inr ()" by simp
  have s: "v_secrets (ref_tenants cxNew) (rc_host (re_k8s cxReconciler),
      kubeconfigKey (ku_namespace (cxObject [] None)) (ku_name (cxObject [] None))) = Some cxKubeconfig"
    by (simp add: cxNew_def cxTenants_def ref_tenants_def ref_view_def good_def named_key_def
        cxReconciler_def ref_admin_def cxObject_def kubeconfigKey_def cxKubeconfig_def)
  have c: "cp_restConfig ref_ctrl (gm_string (sec_data cxKubeconfig) ''value'') = Inr (ref_admin ''https://wl'')"
    by (simp add: ref_ctrl_sel cxKubeconfig_def gm_string_def)
  have n: "cv_nodes (ref_cview cxNew) (''https://wl'', ''n1'') = Some cxNode" "is_control_plane cxNode"
    by (simp_all add: ref_cview_def cxNew_def cxManagement_def cxNode_def look_def is_control_plane_def
        gm_get_def controlPlaneNoScheduleTaintKey_def)
  have a: "allowScheduling (cxObject [] None) = False" by (simp add: allowScheduling_def cxObject_def)
  from control_plane_scheduling [OF cref.controller_server_axioms run] ok s c
  have e: "nodes_effect ref_ctrl False ''https://wl'' True (ref_cview cxNew) (ref_cview w')"
    by (simp add: a ref_admin_def)
  have "node_done ref_ctrl False ''https://wl'' (ref_cview w') cxNode"
    using e [unfolded nodes_effect_def, THEN spec, of "(''https://wl'', ''n1'')"] n by simp
  then obtain x where "cv_nodes (ref_cview w') (''https://wl'', ''n1'') = Some x"
    "node_stored (wantedNode ref_ctrl False cxNode) x"
    by (auto simp: node_done_def cxNode_def)
  then show ?thesis
    using run ok taints_spec_blocks [of ref_ctrl "no_taints cxNode" False]
    by (auto simp: node_stored_def wantedNode_def)
qed



text \<open>
  C27: the taint loop is its specification: without the no-schedule taint, in order, when pods may be
  scheduled on control plane nodes; else unchanged when the taint is there, and with the taint added
  at the end when it is not.  It reports a change exactly when the list differs, touches no other
  taint, and a second pass changes nothing.
\<close>

theorem taints_meet_specification:
  "desiredControlPlaneTaints Q ts allow = (taints_spec Q ts allow, taints_spec Q ts allow \<noteq> ts) \<and>
   (list_ex (blocks_scheduling Q) (fst (desiredControlPlaneTaints Q ts allow)) = (\<not> allow)) \<and>
   filter (\<lambda>t. \<not> blocks_scheduling Q t) (fst (desiredControlPlaneTaints Q ts allow)) =
     filter (\<lambda>t. \<not> blocks_scheduling Q t) ts \<and>
   snd (desiredControlPlaneTaints Q (fst (desiredControlPlaneTaints Q ts allow)) allow) = False"
  by (simp add: desired_taints_spec taints_spec_blocks taints_spec_others taints_spec_idem)

section \<open>Names and encodings\<close>

text \<open>
  C31: the name of a mounted workspace is that of the remote object, followed, for a remote
  namespace that is neither empty nor \<open>default\<close>, by a dash and eight lower-case hexadecimal digits,
  four bytes of a sum that has twenty.  Within a namespace different objects have different names;
  across namespaces they may coincide.  The name of an object with a DNS label for its name is a DNS
  label exactly when the namespace is empty or \<open>default\<close> or the object's name has at most 54
  characters: the suffix takes nine of the 63.  No colon or slash comes in that the object's name does
  not have, so the workspace is a direct child of the tenant's.
\<close>

theorem mounted_names:
  "(deriveMountedWorkspaceName n ns = deriveMountedWorkspaceName n' ns) = (n = n') \<and>
   (if ns = [] \<or> ns = ''default'' then deriveMountedWorkspaceName n ns = n
    else \<exists>h. deriveMountedWorkspaceName n ns = n @ ''-'' @ h \<and> length h = 8 \<and> list_all is_lower_hex h) \<and>
   deriveMountedWorkspaceName (deriveMountedWorkspaceName n ns) ''default'' = deriveMountedWorkspaceName n ns \<and>
   4 \<le> length (sha1_sum (ns @ ''/'' @ n)) \<and>
   (dns_label n \<longrightarrow> dns_label (deriveMountedWorkspaceName n ns) =
     (ns = [] \<or> ns = ''default'' \<or> length n \<le> 54)) \<and>
   (CHR '':'' \<in> set (deriveMountedWorkspaceName n ns)) = (CHR '':'' \<in> set n) \<and>
   (CHR ''/'' \<in> set (deriveMountedWorkspaceName n ns)) = (CHR ''/'' \<in> set n)"
  using derive_inject [of n ns n'] derive_other [of ns n] derive_default [of n] derive_clash [of n ns]
    derive_label [of n ns] derive_separators [of _ n ns] sha1_sum_length [of "ns @ ''/'' @ n"]
  by simp

theorem mounted_names_witness:
  "dns_label (deriveMountedWorkspaceName (replicate 54 (CHR ''a'')) ''team'') \<and>
   \<not> dns_label (deriveMountedWorkspaceName (replicate 55 (CHR ''a'')) ''team'')"
proof -
  have l: "dns_label (replicate k (CHR ''a''))" if "0 < k" "k \<le> 63" for k
    using that by (auto simp: dns_label_def list_all_iff label_char_def is_lower_def byte_def last_replicate hd_replicate)
  from mounted_names [of "replicate 54 (CHR ''a'')" "''team''"] l [of 54]
    mounted_names [of "replicate 55 (CHR ''a'')" "''team''"] l [of 55]
  show ?thesis by simp
qed

text \<open>
  C30: the JSON text of a status holds the status: whatever the phase, URL and workspace name, as
  long as they are UTF-8, reading the annotation back gives them, so that the comparison of two
  annotation texts, which spares the patch, compares the statuses.
\<close>

theorem status_annotation_roundtrip:
  assumes "status_utf8 st" and "status_utf8 st'"
  shows "read_status (status_json st) = Some st \<and> (status_json st = status_json st') = (st = st')"
  using read_status_json [OF assms(1)] status_json_inject [OF assms] by blast

theorem status_annotation_roundtrip_witness:
  "read_status (status_json \<lparr>sta_phase = ''Ready'', sta_ready = True, sta_url = ''http://p/<mounts>'',
     sta_mountedWorkspace = ''de'' @ [CHR 0x22] @ ''mo''\<rparr>) =
   Some \<lparr>sta_phase = ''Ready'', sta_ready = True, sta_url = ''http://p/<mounts>'',
     sta_mountedWorkspace = ''de'' @ [CHR 0x22] @ ''mo''\<rparr>"
proof -
  have "status_utf8 \<lparr>sta_phase = ''Ready'', sta_ready = True, sta_url = ''http://p/<mounts>'',
     sta_mountedWorkspace = ''de'' @ [CHR 0x22] @ ''mo''\<rparr>" by code_simp
  from status_annotation_roundtrip [OF this this] show ?thesis by blast
qed

section \<open>Over time\<close>



text \<open>
  C26: the scheduling step is an idempotent ensure step over any number of runs: after one that
  returned without an error every control plane node of the workload cluster has its taints, however
  many runs follow change nothing, and no run touches kcp or the management cluster.
\<close>

theorem scheduling_converges:
  assumes "controller_server Q view cview"
    and "reconcileControlPlaneScheduling Q r obj w = (Inr u, w')"
  shows "scheduling_done Q r obj (view w', cview w') \<and>
    view (runs n (reconcileControlPlaneScheduling Q r obj) w') = view w' \<and>
    cview (runs n (reconcileControlPlaneScheduling Q r obj) w') = cview w' \<and>
    view w' = view w \<and> management (cview w') = management (cview w)"
  by (rule controller_server.scheduling_settle [OF assms])

theorem scheduling_converges_witness:
  "\<exists>w'. reconcileControlPlaneScheduling ref_ctrl cxReconciler (cxObject [] None) cxNew = (Inr (), w') \<and>
     ref_cview (runs 3 (reconcileControlPlaneScheduling ref_ctrl cxReconciler (cxObject [] None)) w') = ref_cview w'"
proof -
  obtain res w' where run: "reconcileControlPlaneScheduling ref_ctrl cxReconciler (cxObject [] None) cxNew = (res, w')"
    by (metis prod.collapse)
  have "fst (reconcileControlPlaneScheduling ref_ctrl cxReconciler (cxObject [] None) cxNew) = Inr ()" by code_simp
  with run have ok: "reconcileControlPlaneScheduling ref_ctrl cxReconciler (cxObject [] None) cxNew = (Inr (), w')"
    by simp
  from scheduling_converges [OF cref.controller_server_axioms ok, of 3] ok show ?thesis by blast
qed

end
