(* ===== verification/Proxy_Properties.thy ===== *)
theory Proxy_Properties
  imports Ctrl_Main Mck_Controller Controller_Properties
begin

text \<open>The properties of the mount proxy, of its wiring, and of the mock MongoDB controller.\<close>

section \<open>The mount proxy\<close>

text \<open>
  C23: the proxy only reads, and it sends a request only to the workload cluster whose kubeconfig the
  path names.  A forwarded request goes to the host of that kubeconfig with its path appended by
  exactly one slash, with the client's own address in the forwarding headers whatever the client
  sent; every other request is answered with 400, exactly when the path has too few parts, or 502.
\<close>

theorem proxy_confines_requests:
  assumes "api_server (cp_base Q) view" and "mountHandler Q errText k8s req w = (resp, w')"
  shows "view w' = view w \<and>
    (case resp of
       Forward cfg out \<Rightarrow>
         (\<exists>ns n rest s target.
            trim_prefix (u_path (px_url req)) ''/mounts/'' = ns @ ''/'' @ n @ ''/'' @ rest \<and>
            CHR ''/'' \<notin> set ns \<and> CHR ''/'' \<notin> set n \<and>
            v_secrets (view w) (rc_host k8s, kubeconfigKey ns n) = Some s \<and>
            cp_restConfig Q (gm_string (sec_data s) ''value'') = Inr cfg \<and>
            url_parse (rc_host cfg) = Inr target \<and>
            u_host (px_url out) = u_host target \<and> px_host out = u_host target \<and>
            u_path (px_url out) = trim_suffix (u_path target) ''/'' @ ''/'' @ rest) \<and>
         map_of (px_header out) ''X-Forwarded-For'' =
           (case split_host_port (px_remote req) of Inl _ \<Rightarrow> None | Inr (ip, _) \<Rightarrow> Some [ip]) \<and>
         map_of (px_header out) ''Forwarded'' = None
     | ProxyError c m \<Rightarrow>
         (if count_byte (trim_prefix (u_path (px_url req)) ''/mounts/'') (CHR ''/'') < 2
          then c = 400 \<and> w' = w else c = 502))"
proof (cases "mountRoute (u_path (px_url req))")
  case None
  with assms(2) have "resp = ProxyError 400 ''expected /mounts/<namespace>/<name>/...''" "w' = w"
    by (simp_all add: mountHandler_def)
  with None [unfolded mountRoute_none] show ?thesis by simp
next
  case (Some route)
  obtain ns n up where r: "route = (ns, n, up)" by (cases route)
  obtain rest where p: "trim_prefix (u_path (px_url req)) ''/mounts/'' = ns @ CHR ''/'' # n @ CHR ''/'' # rest"
    "CHR ''/'' \<notin> set ns" "CHR ''/'' \<notin> set n" "up = CHR ''/'' # rest"
    using Some [unfolded r mountRoute_some] by blast
  have many: "\<not> count_byte (trim_prefix (u_path (px_url req)) ''/mounts/'') (CHR ''/'') < 2"
    using Some mountRoute_none [of "u_path (px_url req)"] by simp
  obtain g w1 where g: "rget (p_secrets (cp_base Q)) k8s (kubeconfigKey ns n) w = (g, w1)"
    by (cases "rget (p_secrets (cp_base Q)) k8s (kubeconfigKey ns n) w")
  have v: "view w1 = view w"
    by (rule keepsD [OF resource_laws.keeps_get g]) (rule api_server.axioms(6) [OF assms(1)])
  have found: "v_secrets (view w) (rc_host k8s, kubeconfigKey ns n) = Some s" if "g = Inr s" for s
    using resource_laws.get_found [OF api_server.axioms(6) [OF assms(1)]] g that by blast
  show ?thesis
  proof (cases resp)
    case (ProxyError c m)
    with assms(2) Some r g have "c = 502 \<and> w' = w1"
      by (auto simp: mountHandler_def Let_def split: sum.splits if_splits option.splits)
    with ProxyError many v show ?thesis by simp
  next
    case (Forward cfg out)
    with assms(2) Some r g obtain sec target where f: "g = Inr sec" "w' = w1"
      "cp_restConfig Q (gm_string (sec_data sec) ''value'') = Inr cfg" "url_parse (rc_host cfg) = Inr target"
      "out = rewriteRequest target up req (stripForwarding req)"
      by (auto simp: mountHandler_def Let_def split: sum.splits if_splits option.splits)
    have o: "u_host (px_url out) = u_host target" "px_host out = u_host target"
      "u_path (px_url out) = trim_suffix (u_path target) ''/'' @ ''/'' @ rest"
      by (simp_all add: f(5) rewriteRequest_target joinURLPath_slash p(4))
    have "trim_prefix (u_path (px_url req)) ''/mounts/'' = ns @ ''/'' @ n @ ''/'' @ rest" using p(1) by simp
    with o p(2,3) found [OF f(1)] f(3,4) have
      "\<exists>ns n rest s target. trim_prefix (u_path (px_url req)) ''/mounts/'' = ns @ ''/'' @ n @ ''/'' @ rest \<and>
         CHR ''/'' \<notin> set ns \<and> CHR ''/'' \<notin> set n \<and>
         v_secrets (view w) (rc_host k8s, kubeconfigKey ns n) = Some s \<and>
         cp_restConfig Q (gm_string (sec_data s) ''value'') = Inr cfg \<and>
         url_parse (rc_host cfg) = Inr target \<and>
         u_host (px_url out) = u_host target \<and> px_host out = u_host target \<and>
         u_path (px_url out) = trim_suffix (u_path target) ''/'' @ ''/'' @ rest" by blast
    with Forward v f(2,5) forwarding_headers [of target up req req] show ?thesis by simp
  qed
qed

definition cxPath :: "string \<Rightarrow> proxy_request" where
  "cxPath p = \<lparr>px_url = empty_url\<lparr>u_path := p\<rparr>, px_host = ''proxy:8080'', px_remote = ''10.0.0.7:5123'',
     px_tls = False, px_header = [(''X-Forwarded-For'', [''1.2.3.4''])]\<rparr>"

theorem proxy_confines_requests_witness:
  "\<exists>cfg out w'. mountHandler ref_ctrl (\<lambda>_. []) (ref_admin ''https://mgmt'') (cxPath ''/mounts/c1/demo/api/v1'') cxNew =
      (Forward cfg out, w') \<and> ref_tenants w' = ref_tenants cxNew \<and> px_host out = ''wl'' \<and>
      u_path (px_url out) = ''/api/v1'' \<and> map_of (px_header out) ''X-Forwarded-For'' = Some [''10.0.0.7'']"
proof -
  let ?run = "mountHandler ref_ctrl (\<lambda>_. []) (ref_admin ''https://mgmt'') (cxPath ''/mounts/c1/demo/api/v1'') cxNew"
  obtain resp w' where run: "?run = (resp, w')" by (metis prod.collapse)
  have c: "case fst ?run of Forward cfg out \<Rightarrow>
      px_host out = ''wl'' \<and> u_path (px_url out) = ''/api/v1'' | _ \<Rightarrow> False" by code_simp
  have s: "split_host_port (px_remote (cxPath ''/mounts/c1/demo/api/v1'')) = Inr (''10.0.0.7'', ''5123'')"
    by code_simp
  from c run obtain cfg out where f: "resp = Forward cfg out" "px_host out = ''wl''"
    "u_path (px_url out) = ''/api/v1''" by (cases resp) auto
  from proxy_confines_requests [OF cref.api_server_axioms run] f(1) s
  have "ref_tenants w' = ref_tenants cxNew \<and> map_of (px_header out) ''X-Forwarded-For'' = Some [''10.0.0.7'']"
    by simp
  with run f show ?thesis by blast
qed

text \<open>
  C24: the URL the controller publishes for a Kubernetes object leads back to it.  Followed by a slash
  and any path it parses, at the proxy's own address, to a request path that the proxy routes to the
  kubeconfig of exactly that object, with that path for the workload cluster; the bare URL, without
  the slash, is refused.  The proxy address may end in a slash or not.
\<close>

theorem published_url_routes_back:
  assumes "controllerMain E L f = Serve r k8s addr"
    and "cf_proxyBaseURL f = s @ ''://'' @ h \<or> cf_proxyBaseURL f = s @ ''://'' @ h @ ''/''"
    and "scheme_ok s" "host_ok h" "segment_ok (ku_namespace obj)" "segment_ok (ku_name obj)"
      "list_all path_char rest"
  shows "(\<exists>u. url_parse (statusURL r obj @ ''/'' @ rest) = Inr u \<and> u_host u = h \<and>
       mountRoute (u_path u) = Some (ku_namespace obj, ku_name obj, ''/'' @ rest)) \<and>
     (\<exists>u. url_parse (statusURL r obj) = Inr u \<and> mountRoute (u_path u) = None)"
proof -
  have b: "re_proxyBaseURL r = s @ ''://'' @ h \<or> re_proxyBaseURL r = s @ ''://'' @ h @ ''/''"
    using controllerMain_serve(4) [OF assms(1)] assms(2) by simp
  show ?thesis
    using status_url_routes [OF b assms(3-7)] by (simp add: server_url_def)
qed

definition cxLauncher :: launcher where
  "cxLauncher = \<lparr>la_buildConfig = (\<lambda>_ _. Inr (ref_admin ''https://kcp/'')), la_config = Some (ref_admin ''https://mgmt''),
     la_newManager = (\<lambda>_ _. None), la_setup = (\<lambda>_. None)\<rparr>"

definition cxServed :: reconciler where
  "cxServed = \<lparr>re_manager = ref_admin ''https://mgmt'', re_k8s = ref_admin ''https://mgmt'',
     re_kcp = ref_admin ''https://kcp/'', re_consumers = ''root:consumers'',
     re_proxyBaseURL = ''http://kubernetes-controller.default.svc.cluster.local:8080''\<rparr>"

theorem published_url_routes_back_witness:
  "\<exists>u. url_parse (statusURL cxServed (cxObject [] None) @ ''/'' @ ''api'') = Inr u \<and>
     mountRoute (u_path u) = Some (''c1'', ''demo'', ''/api'')"
proof -
  let ?h = "''kubernetes-controller.default.svc.cluster.local:8080''"
  have m: "controllerMain ref_platform cxLauncher defaultFlags = Serve cxServed (ref_admin ''https://mgmt'') '':8080''"
    by (simp add: controllerMain_def cxLauncher_def ref_platform_def defaultFlags_def cxServed_def)
  have b: "cf_proxyBaseURL defaultFlags = ''http'' @ ''://'' @ ?h \<or>
      cf_proxyBaseURL defaultFlags = ''http'' @ ''://'' @ ?h @ ''/''" by (simp add: defaultFlags_def)
  have ok: "scheme_ok ''http''" "host_ok ?h" "segment_ok (ku_namespace (cxObject [] None))"
    "segment_ok (ku_name (cxObject [] None))" "list_all path_char ''api''" by code_simp+
  from published_url_routes_back [OF m b ok] show ?thesis by (auto simp: cxObject_def)
qed

section \<open>The mock MongoDB controller\<close>

text \<open>
  C38: a reconcile of the mock MongoDB controller changes nothing but the status of the resource asked
  for; when it read the resource as the server holds it and returned without an error, the resource
  is reported running at its version and generation, and a missing resource is no error.
\<close>

theorem mongodb_reported_running:
  assumes "mongodb_server M mview" and "mckReconcile M c (ns, n) w = (res, w')"
    and "mk_get M c (ns, n) w = (g, w1)"
  shows "(mview w' = mview w \<or>
      (\<exists>old st. mview w (rc_host c, (ns, n)) = Some old \<and>
         mview w' = (mview w)((rc_host c, (ns, n)) \<mapsto> old\<lparr>mdb_status := st\<rparr>))) \<and>
    (\<forall>obj. g = Inr obj \<and> mview w (rc_host c, (ns, n)) = Some obj \<and> res = Inr () \<longrightarrow>
       mview w' = (mview w)((rc_host c, (ns, n)) \<mapsto> obj\<lparr>mdb_status := runningStatus M obj\<rparr>)) \<and>
    (g = Inl NotFound \<longrightarrow> res = Inr () \<and> mview w' = mview w)"
  using mongodb_server.mck_any [OF assms(1,2)] mongodb_server.mck_ok [OF assms(1), of c ns n w "()" w']
    mongodb_server.mck_missing [OF assms(1,2)] assms(2,3)
  by auto

definition cxMongo :: mongodb where
  "cxMongo = \<lparr>mdb_namespace = ''c1'', mdb_name = ''db'', mdb_generation = 3, mdb_version = ''8.0.1'',
     mdb_status = \<lparr>ms_phase = ''Pending'', ms_version = [], ms_message = [], ms_observedGeneration = 2\<rparr>\<rparr>"

theorem mongodb_reported_running_witness:
  "\<exists>w'. mckReconcile mck_ref (ref_admin ''h'') (''c1'', ''db'') (False, [(''h'', cxMongo)]) = (Inr (), w') \<and>
     mck_store (snd w') (''h'', (''c1'', ''db'')) =
       Some (cxMongo\<lparr>mdb_status := \<lparr>ms_phase = ''Running'', ms_version = ''8.0.1'',
         ms_message = ''Mock MCK MongoDB is running'', ms_observedGeneration = 3\<rparr>\<rparr>)"
proof -
  let ?w = "(False, [(''h'', cxMongo)])"
  obtain res w' where run: "mckReconcile mck_ref (ref_admin ''h'') (''c1'', ''db'') ?w = (res, w')"
    by (metis prod.collapse)
  have "fst (mckReconcile mck_ref (ref_admin ''h'') (''c1'', ''db'') ?w) = Inr ()" by code_simp
  with run have ok: "res = Inr ()" by simp
  have g: "mk_get mck_ref (ref_admin ''h'') (''c1'', ''db'') ?w = (Inr cxMongo, ?w)"
    by (simp add: mck_ref_def mck_get_def cxMongo_def ref_admin_def)
  have h: "mck_store (snd ?w) (rc_host (ref_admin ''h''), (''c1'', ''db'')) = Some cxMongo"
    by (simp add: mck_store_def cxMongo_def ref_admin_def)
  from mongodb_reported_running [OF mck.mongodb_server_axioms run g] ok h
  have "mck_store (snd w') = (mck_store (snd ?w))((rc_host (ref_admin ''h''), (''c1'', ''db'')) \<mapsto>
      cxMongo\<lparr>mdb_status := runningStatus mck_ref cxMongo\<rparr>)" by blast
  then show ?thesis
    using run ok by (simp add: ref_admin_def runningStatus_def mck_ref_def cxMongo_def)
qed

end
