(* ===== verification/Go_Process.thy ===== *)
theory Go_Process
  imports Dbaas_Prelude
begin

text \<open>
  Processes with several goroutines: a state, the events that its threads and the outside can
  cause, and a scheduler that offers events in any order.  An event whose thread cannot move is
  skipped.
\<close>

text \<open>
  An HTTP server, by what \<open>ListenAndServe\<close> is doing, and a goroutine that waits for a cancelled
  context and then calls \<open>Shutdown\<close>, which makes \<open>ListenAndServe\<close> return \<open>http.ErrServerClosed\<close> at once.
\<close>

datatype listen_state = Listening | ServerClosed | ListenFailed go_error

datatype drain_state = AwaitingSignal | Draining | ShutdownOver

text \<open>The state after the first \<open>n\<close> offers of a schedule.\<close>

primrec exec :: "('e \<Rightarrow> 's \<Rightarrow> 's option) \<Rightarrow> (nat \<Rightarrow> 'e) \<Rightarrow> 's \<Rightarrow> nat \<Rightarrow> 's" where
  "exec step sched s 0 = s"
| "exec step sched s (Suc n) =
     (case step (sched n) (exec step sched s n) of
        None \<Rightarrow> exec step sched s n | Some s' \<Rightarrow> s')"

text \<open>An event that is offered again and again.\<close>

definition offered :: "(nat \<Rightarrow> 'e) \<Rightarrow> 'e \<Rightarrow> bool" where
  "offered sched e \<longleftrightarrow> (\<forall>n. \<exists>m \<ge> n. sched m = e)"

definition some_step :: "('e \<Rightarrow> 's \<Rightarrow> 's option) \<Rightarrow> 's \<Rightarrow> 's \<Rightarrow> bool" where
  "some_step step s s' \<longleftrightarrow> (\<exists>e. step e s = Some s')"

lemma exec_reachable: "(some_step step)\<^sup>*\<^sup>* s (exec step sched s n)"
proof (induction n)
  case (Suc n)
  show ?case
  proof (cases "step (sched n) (exec step sched s n)")
    case None
    with Suc show ?thesis by simp
  next
    case (Some s')
    then have "some_step step (exec step sched s n) s'" by (auto simp: some_step_def)
    with Suc Some show ?thesis by simp
  qed
qed simp

text \<open>
  A process that passes through stages: a stage, once reached, is not left but by an end, and the
  event of a stage, whenever it is offered, leads to the next one, or finds it reached.
\<close>

locale staged_process =
  fixes step :: "'e \<Rightarrow> 's \<Rightarrow> 's option"
    and ended :: "'s \<Rightarrow> bool"
    and stage :: "nat \<Rightarrow> 's \<Rightarrow> bool"
    and advance :: "nat \<Rightarrow> 'e"
    and top :: nat
  assumes ended_final: "ended s \<Longrightarrow> step e s = None"
    and stage_stable: "stage i s \<Longrightarrow> step e s = Some s' \<Longrightarrow> stage i s'"
    and stage_moves: "stage i s \<Longrightarrow> i < top \<Longrightarrow> step (advance i) s = Some s' \<Longrightarrow> stage (Suc i) s'"
    and stage_blocked: "stage i s \<Longrightarrow> i < top \<Longrightarrow> step (advance i) s = None \<Longrightarrow>
      ended s \<or> stage (Suc i) s"
    and stage_top: "stage top s \<Longrightarrow> ended s"
begin

lemma ended_stays: "ended (exec step sched s n) \<Longrightarrow> n \<le> m \<Longrightarrow>
    exec step sched s m = exec step sched s n"
proof (induction m)
  case (Suc m)
  then show ?case using ended_final by (cases "n = Suc m") auto
qed simp

lemma stage_kept: "stage i (exec step sched s n) \<Longrightarrow> n \<le> m \<Longrightarrow> stage i (exec step sched s m)"
proof (induction m)
  case (Suc m)
  then show ?case using stage_stable by (cases "n = Suc m") (auto split: option.split)
qed simp

lemma stage_next:
  assumes "stage i (exec step sched s n)" and "i < top" and "offered sched (advance i)"
  shows "\<exists>m \<ge> n. ended (exec step sched s m) \<or> stage (Suc i) (exec step sched s m)"
proof -
  from assms(3) obtain m where m: "m \<ge> n" "sched m = advance i" by (auto simp: offered_def)
  have st: "stage i (exec step sched s m)" by (rule stage_kept [OF assms(1) m(1)])
  show ?thesis
  proof (cases "step (advance i) (exec step sched s m)")
    case None
    from stage_blocked [OF st assms(2) None] m(1) show ?thesis by blast
  next
    case (Some s')
    from stage_moves [OF st assms(2) Some] Some m have "stage (Suc i) (exec step sched s (Suc m))" by simp
    with m(1) show ?thesis using le_Suc_eq by blast
  qed
qed

text \<open>Whenever the events of all stages are offered again and again, the process ends.\<close>

theorem ends:
  assumes "stage 0 (exec step sched s n)" and "\<forall>i < top. offered sched (advance i)"
  shows "\<exists>m \<ge> n. ended (exec step sched s m)"
proof -
  have "i \<le> top \<Longrightarrow> \<exists>m \<ge> n. ended (exec step sched s m) \<or> stage i (exec step sched s m)" for i
  proof (induction i)
    case 0
    with assms(1) show ?case by blast
  next
    case (Suc i)
    then obtain m where m: "m \<ge> n" "ended (exec step sched s m) \<or> stage i (exec step sched s m)" by auto
    show ?case
    proof (cases "ended (exec step sched s m)")
      case False
      with m have "stage i (exec step sched s m)" by simp
      from stage_next [OF this] Suc.prems assms(2) m(1) show ?thesis by (meson Suc_le_lessD order_trans)
    qed (use m in blast)
  qed
  from this [OF order_refl] stage_top show ?thesis by blast
qed

end

end
