(* ===== verification/Prov_Process.thy ===== *)
theory Prov_Process
  imports Prov_Main Go_Process
begin

text \<open>
  The running process of \<open>cmd/provisioner/main.go\<close>: the main goroutine in \<open>ListenAndServe\<close>, the
  goroutine \<open>startHeadlampReconcileLoop\<close> with its \<open>select\<close>, and the goroutine
  \<open>shutdownServerOnSignal\<close>.  Of \<open>net/http\<close> it models what its documentation promises of
  \<open>ListenAndServe\<close> and \<open>Shutdown\<close>.
\<close>

section \<open>The reconcile goroutine\<close>

text \<open>
  \<open>select\<close> takes a case that is ready: \<open>stopped i\<close> says that the \<open>i\<close>-th one takes \<open>ctx.Done()\<close>, and it
  takes a tick otherwise.  \<open>None\<close> is a loop that goes on forever.
\<close>

partial_function (option) headlampSelect ::
  "'w platform \<Rightarrow> provisioner \<Rightarrow> (nat \<Rightarrow> bool) \<Rightarrow> (nat \<Rightarrow> range_orders \<times> string) \<Rightarrow> nat \<Rightarrow> 'w \<Rightarrow>
     ((log \<times> task list) \<times> 'w) option" where
  "headlampSelect E p stopped rn i w =
     (if stopped i then Some (([], []), w)
      else (case reconcileRound E p (rn (Suc i)) w of ((l1, t1), w1) \<Rightarrow>
        Option.bind (headlampSelect E p stopped rn (Suc i) w1)
          (\<lambda>r. case r of ((l2, t2), w2) \<Rightarrow> Some ((l1 @ l2, t1 @ t2), w2))))"

definition headlampGoroutine ::
  "'w platform \<Rightarrow> provisioner \<Rightarrow> (nat \<Rightarrow> bool) \<Rightarrow> (nat \<Rightarrow> range_orders \<times> string) \<Rightarrow> 'w \<Rightarrow>
     ((log \<times> task list) \<times> 'w) option" where
  "headlampGoroutine E p stopped rn w =
     (case reconcileRound E p (rn 0) w of ((l1, t1), w1) \<Rightarrow>
        Option.bind (headlampSelect E p stopped rn 0 w1)
          (\<lambda>r. case r of ((l2, t2), w2) \<Rightarrow> Some ((l1 @ l2, t1 @ t2), w2)))"

text \<open>It returns with the rounds before the first \<open>ctx.Done()\<close> done, and only then.\<close>

lemma headlampSelect_returns:
  assumes "stopped (i + k)" and "\<forall>j < k. \<not> stopped (i + j)"
  shows "headlampSelect E p stopped rn i w =
    Some (startHeadlampReconcileLoop E p (map rn [Suc i..<Suc (i + k)]) w)"
  using assms
proof (induction k arbitrary: i w)
  case 0
  then show ?case by (simp add: headlampSelect.simps)
next
  case (Suc k)
  from Suc.prems(2) have n: "\<not> stopped i" by (metis add_0_right zero_less_Suc)
  have "\<not> stopped (Suc i + j)" if "j < k" for j using Suc.prems(2) that by (metis Suc_less_eq add_Suc_shift)
  with Suc.IH [of "Suc i"] Suc.prems(1)
  have r: "headlampSelect E p stopped rn (Suc i) w1 =
      Some (startHeadlampReconcileLoop E p (map rn [Suc (Suc i)..<Suc (Suc i + k)]) w1)" for w1 by simp
  have u: "[Suc i..<Suc (i + Suc k)] = Suc i # [Suc (Suc i)..<Suc (Suc i + k)]"
    by (simp add: upt_conv_Cons)
  show ?case
    unfolding u headlampSelect.simps [of E p stopped rn i] by (simp add: n r split: prod.split)
qed

lemma headlampSelect_stopped:
  assumes "headlampSelect E p stopped rn i w = Some r"
  shows "\<exists>j. stopped j"
proof (rule headlampSelect.raw_induct [where P = "\<lambda>E p stopped rn i w r. \<exists>j. stopped j", OF _ assms])
  fix f :: "'a platform \<Rightarrow> provisioner \<Rightarrow> (nat \<Rightarrow> bool) \<Rightarrow> (nat \<Rightarrow> range_orders \<times> string) \<Rightarrow> nat \<Rightarrow> 'a \<Rightarrow>
     ((log \<times> task list) \<times> 'a) option"
    and E :: "'a platform" and p stopped rn i w r
  assume IH: "\<And>(E :: 'a platform) p stopped rn i w r. f E p stopped rn i w = Some r \<Longrightarrow> \<exists>j. stopped j"
    and eq: "(if stopped i then Some (([], []), w)
      else case reconcileRound E p (rn (Suc i)) w of ((l1, t1), w1) \<Rightarrow>
        Option.bind (f E p stopped rn (Suc i) w1)
          (\<lambda>r. case r of ((l2, t2), w2) \<Rightarrow> Some ((l1 @ l2, t1 @ t2), w2))) = Some r"
  show "\<exists>j. stopped j"
  proof (cases "stopped i")
    case False
    with eq obtain w1 r' where "f E p stopped rn (Suc i) w1 = Some r'"
      by (auto simp: Option.bind_eq_Some_conv split: prod.splits)
    then show ?thesis by (rule IH)
  qed blast
qed

lemma headlampGoroutine_list:
  "headlampGoroutine E p stopped rn w =
     (if \<exists>i. stopped i
      then Some (startHeadlampReconcileLoop E p (map rn [0..<Suc (LEAST i. stopped i)]) w)
      else None)"
proof (cases "\<exists>i. stopped i")
  case True
  let ?k = "LEAST i. stopped i"
  have k: "stopped (0 + ?k)" unfolding add_0 by (rule LeastI_ex [OF True])
  have b: "\<forall>j < ?k. \<not> stopped (0 + j)" unfolding add_0 using not_less_Least by blast
  have r: "headlampSelect E p stopped rn 0 w1 =
      Some (startHeadlampReconcileLoop E p (map rn [Suc 0..<Suc ?k]) w1)" for w1
    using headlampSelect_returns [OF k b, of E p rn w1] unfolding add_0 .
  have u: "[0..<Suc ?k] = 0 # [Suc 0..<Suc ?k]" by (simp add: upt_conv_Cons del: upt_Suc)
  show ?thesis
    unfolding headlampGoroutine_def u by (simp add: True r del: upt_Suc split: prod.split)
next
  case False
  then have "headlampSelect E p stopped rn 0 w1 = None" for w1
    using headlampSelect_stopped [of E p stopped rn 0 w1]
    by (cases "headlampSelect E p stopped rn 0 w1") simp_all
  with False show ?thesis by (simp add: headlampGoroutine_def split: prod.split)
qed

section \<open>The process\<close>

text \<open>
  The process: whether the context is cancelled, what \<open>ListenAndServe\<close> is doing, the handlers at work,
  what \<open>shutdownServerOnSignal\<close> is doing, the rounds of the reconcile goroutine and where it is, the
  exit status.
\<close>

datatype loop_state = FirstRound | Selecting | LoopReturned

record prov_process =
  pp_cancelled :: bool
  pp_listen :: listen_state
  pp_requests :: nat
  pp_drain :: drain_state
  pp_rounds :: nat
  pp_loop :: loop_state
  pp_exit :: "nat option"

text \<open>
  The events: a signal; the server fails, takes a request, finishes one; \<open>server.Shutdown\<close> is called,
  and returns, when no request is left or after ten seconds; the first round is done, the
  \<open>select\<close> takes a tick, with its round, or \<open>ctx.Done()\<close>; \<open>main\<close> goes on after \<open>ListenAndServe\<close>.
\<close>

datatype prov_event =
    Signal | ServeError go_error | RequestStarts | RequestEnds
  | ShutdownCalled | ShutdownReturns bool
  | FirstRoundDone | TickTaken | DoneTaken | MainReturns

definition started :: prov_process where
  "started =
     \<lparr>pp_cancelled = False, pp_listen = Listening, pp_requests = 0, pp_drain = AwaitingSignal,
      pp_rounds = 0, pp_loop = FirstRound, pp_exit = None\<rparr>"

text \<open>
  The goroutine \<open>shutdownServerOnSignal\<close>: \<open>Shutdown\<close> makes \<open>ListenAndServe\<close> return \<open>http.ErrServerClosed\<close>
  at once, and itself returns when no request is left or after the timeout.
\<close>

definition callShutdown :: "prov_process \<Rightarrow> prov_process option" where
  "callShutdown s =
     (if pp_cancelled s \<and> pp_drain s = AwaitingSignal then
        Some (s\<lparr>pp_drain := Draining,
          pp_listen := (if pp_listen s = Listening then ServerClosed else pp_listen s)\<rparr>)
      else None)"

definition returnShutdown :: "bool \<Rightarrow> prov_process \<Rightarrow> prov_process option" where
  "returnShutdown timeout s =
     (if pp_drain s = Draining \<and> (pp_requests s = 0 \<or> timeout) then Some (s\<lparr>pp_drain := ShutdownOver\<rparr>)
      else None)"

text \<open>
  The reconcile goroutine: the round at the start; then a tick, or \<open>ctx.Done()\<close> when the context is
  cancelled.
\<close>

definition firstRound :: "prov_process \<Rightarrow> prov_process option" where
  "firstRound s =
     (if pp_loop s = FirstRound then Some (s\<lparr>pp_loop := Selecting, pp_rounds := Suc (pp_rounds s)\<rparr>) else None)"

definition takeTick :: "prov_process \<Rightarrow> prov_process option" where
  "takeTick s = (if pp_loop s = Selecting then Some (s\<lparr>pp_rounds := Suc (pp_rounds s)\<rparr>) else None)"

definition takeDone :: "prov_process \<Rightarrow> prov_process option" where
  "takeDone s =
     (if pp_loop s = Selecting \<and> pp_cancelled s then Some (s\<lparr>pp_loop := LoopReturned\<rparr>) else None)"

text \<open>
  The main goroutine after \<open>ListenAndServe\<close>: it returns on \<open>http.ErrServerClosed\<close>, and exits with
  status 1 on any other error.
\<close>

definition mainReturns :: "prov_process \<Rightarrow> prov_process option" where
  "mainReturns s =
     (case pp_listen s of
        Listening \<Rightarrow> None
      | ServerClosed \<Rightarrow> Some (s\<lparr>pp_exit := Some 0\<rparr>)
      | ListenFailed err \<Rightarrow> Some (s\<lparr>pp_exit := Some 1\<rparr>))"

definition provStep :: "prov_event \<Rightarrow> prov_process \<Rightarrow> prov_process option" where
  "provStep e s =
     (if pp_exit s \<noteq> None then None
      else (case e of
        Signal \<Rightarrow> Some (s\<lparr>pp_cancelled := True\<rparr>)
      | ServeError err \<Rightarrow>
          if pp_listen s = Listening then Some (s\<lparr>pp_listen := ListenFailed err\<rparr>) else None
      | RequestStarts \<Rightarrow>
          if pp_listen s = Listening then Some (s\<lparr>pp_requests := Suc (pp_requests s)\<rparr>) else None
      | RequestEnds \<Rightarrow>
          if 0 < pp_requests s then Some (s\<lparr>pp_requests := pp_requests s - 1\<rparr>) else None
      | ShutdownCalled \<Rightarrow> callShutdown s
      | ShutdownReturns timeout \<Rightarrow> returnShutdown timeout s
      | FirstRoundDone \<Rightarrow> firstRound s
      | TickTaken \<Rightarrow> takeTick s
      | DoneTaken \<Rightarrow> takeDone s
      | MainReturns \<Rightarrow> mainReturns s))"

lemmas prov_thread_defs = callShutdown_def returnShutdown_def firstRound_def takeTick_def
  takeDone_def mainReturns_def

text \<open>What holds of the process at every time.\<close>

definition prov_process_inv :: "prov_process \<Rightarrow> bool" where
  "prov_process_inv s \<longleftrightarrow>
     (pp_listen s = ServerClosed \<longrightarrow> pp_drain s \<noteq> AwaitingSignal) \<and>
     (pp_drain s \<noteq> AwaitingSignal \<longrightarrow> pp_cancelled s \<and> pp_listen s \<noteq> Listening) \<and>
     (pp_loop s = LoopReturned \<longrightarrow> pp_cancelled s \<and> 0 < pp_rounds s) \<and>
     (pp_loop s = Selecting \<longrightarrow> 0 < pp_rounds s) \<and>
     (pp_exit s = Some 0 \<longrightarrow> pp_listen s = ServerClosed) \<and>
     (pp_exit s = Some 1 \<longrightarrow> (\<exists>err. pp_listen s = ListenFailed err)) \<and>
     pp_exit s \<in> {None, Some 0, Some 1}"

lemma provStep_inv: "provStep e s = Some s' \<Longrightarrow> prov_process_inv s \<Longrightarrow> prov_process_inv s'"
  by (cases e; cases "pp_listen s"; cases "pp_loop s";
      simp add: provStep_def prov_thread_defs prov_process_inv_def split: if_splits; clarsimp)

lemma prov_reachable_inv: "(some_step provStep)\<^sup>*\<^sup>* started s \<Longrightarrow> prov_process_inv s"
proof (induction rule: rtranclp_induct)
  case base
  show ?case by (simp add: started_def prov_process_inv_def)
next
  case (step s s')
  then show ?case using provStep_inv by (auto simp: some_step_def)
qed

text \<open>The stages of a stop: cancelled; closed; exited.\<close>

fun prov_stage :: "nat \<Rightarrow> prov_process \<Rightarrow> bool" where
  "prov_stage 0 s = (prov_process_inv s \<and> (pp_cancelled s \<or> pp_listen s \<noteq> Listening))"
| "prov_stage (Suc 0) s = (prov_process_inv s \<and> pp_listen s \<noteq> Listening)"
| "prov_stage _ s = (prov_process_inv s \<and> pp_exit s \<noteq> None)"

definition prov_advance :: "nat \<Rightarrow> prov_event" where
  "prov_advance i = (if i = 0 then ShutdownCalled else MainReturns)"

interpretation prov_process: staged_process provStep "\<lambda>s. pp_exit s \<noteq> None" prov_stage prov_advance 2
proof (unfold_locales, goal_cases)
  case (1 s e)
  then show ?case by (simp add: provStep_def)
next
  case (2 i s e s')
  have "pp_cancelled s \<longrightarrow> pp_cancelled s'" "pp_listen s \<noteq> Listening \<longrightarrow> pp_listen s' \<noteq> Listening"
    "pp_exit s = None"
    using 2(2) by (cases e; auto simp: provStep_def prov_thread_defs split: if_splits listen_state.splits)+
  with 2(1) provStep_inv [OF 2(2)] show ?case
    by (cases "(i, s)" rule: prov_stage.cases) auto
next
  case (3 i s s')
  from 3(2) have "i = 0 \<or> i = Suc 0" by auto
  then show ?case
  proof
    assume "i = 0"
    with 3 provStep_inv [OF 3(3)] show ?thesis
      by (auto simp: provStep_def prov_thread_defs prov_advance_def split: if_splits)
  next
    assume "i = Suc 0"
    with 3 provStep_inv [OF 3(3)] show ?thesis
      by (auto simp: provStep_def prov_thread_defs prov_advance_def split: if_splits listen_state.splits)
  qed
next
  case (4 i s)
  from 4(2) have "i = 0 \<or> i = Suc 0" by auto
  with 4(1,3) show ?case
    by (auto simp: provStep_def prov_thread_defs prov_advance_def prov_process_inv_def
        split: if_splits listen_state.splits)
next
  case (5 s)
  then show ?case by (simp add: numeral_2_eq_2)
qed

end
