(* ===== verification/Ctrl_Process.thy ===== *)
theory Ctrl_Process
  imports Ctrl_Main Go_Process
begin

text \<open>
  The running process of \<open>cmd/kubernetes-controller/main.go\<close>: the main goroutine in \<open>mgr.Start\<close>, the
  goroutine that serves the mount proxy and stops the process when that fails, and the goroutine
  that shuts the proxy down once the context is cancelled.
\<close>

text \<open>\<open>mgr.Start\<close> runs, or has returned nil, or an error.\<close>

datatype manager_state = ManagerRuns | ManagerStopped | ManagerFailed go_error

record ctrl_process =
  cq_cancelled :: bool
  cq_proxy :: listen_state
  cq_proxyHandled :: bool \<comment> \<open>the serving goroutine has looked at the error of \<open>ListenAndServe\<close>\<close>
  cq_requests :: nat
  cq_drain :: drain_state
  cq_manager :: manager_state
  cq_exit :: "nat option"

datatype ctrl_event =
    CtrlSignal | ProxyError go_error | ProxyHandled | ProxyRequestStarts | ProxyRequestEnds
  | ProxyShutdownCalled | ProxyShutdownReturns
  | ManagerStops | ManagerFails go_error | CtrlMainReturns

definition ctrlStarted :: ctrl_process where
  "ctrlStarted =
     \<lparr>cq_cancelled = False, cq_proxy = Listening, cq_proxyHandled = False, cq_requests = 0,
      cq_drain = AwaitingSignal, cq_manager = ManagerRuns, cq_exit = None\<rparr>"

text \<open>
  The goroutine that waits for the context and shuts the proxy down, without a time limit.
\<close>

definition proxyShutdown :: "ctrl_process \<Rightarrow> ctrl_process option" where
  "proxyShutdown s =
     (if cq_cancelled s \<and> cq_drain s = AwaitingSignal then
        Some (s\<lparr>cq_drain := Draining,
          cq_proxy := (if cq_proxy s = Listening then ServerClosed else cq_proxy s)\<rparr>)
      else None)"

text \<open>The goroutine that serves the proxy, after \<open>ListenAndServe\<close>: it stops the process on an error.\<close>

definition proxyServed :: "ctrl_process \<Rightarrow> ctrl_process option" where
  "proxyServed s =
     (if cq_proxyHandled s then None
      else (case cq_proxy s of
        Listening \<Rightarrow> None
      | ServerClosed \<Rightarrow> Some (s\<lparr>cq_proxyHandled := True\<rparr>)
      | ListenFailed err \<Rightarrow> Some (s\<lparr>cq_proxyHandled := True, cq_cancelled := True\<rparr>)))"

text \<open>The main goroutine after \<open>mgr.Start\<close>.\<close>

definition managerReturned :: "ctrl_process \<Rightarrow> ctrl_process option" where
  "managerReturned s =
     (case cq_manager s of
        ManagerRuns \<Rightarrow> None
      | ManagerStopped \<Rightarrow> Some (s\<lparr>cq_exit := Some 0\<rparr>)
      | ManagerFailed err \<Rightarrow> Some (s\<lparr>cq_exit := Some 1\<rparr>))"

text \<open>\<open>mgr.Start\<close> returns nil only after the context is cancelled.\<close>

definition ctrlStep :: "ctrl_event \<Rightarrow> ctrl_process \<Rightarrow> ctrl_process option" where
  "ctrlStep e s =
     (if cq_exit s \<noteq> None then None
      else (case e of
        CtrlSignal \<Rightarrow> Some (s\<lparr>cq_cancelled := True\<rparr>)
      | ProxyError err \<Rightarrow>
          if cq_proxy s = Listening then Some (s\<lparr>cq_proxy := ListenFailed err\<rparr>) else None
      | ProxyHandled \<Rightarrow> proxyServed s
      | ProxyRequestStarts \<Rightarrow>
          if cq_proxy s = Listening then Some (s\<lparr>cq_requests := Suc (cq_requests s)\<rparr>) else None
      | ProxyRequestEnds \<Rightarrow>
          if 0 < cq_requests s then Some (s\<lparr>cq_requests := cq_requests s - 1\<rparr>) else None
      | ProxyShutdownCalled \<Rightarrow> proxyShutdown s
      | ProxyShutdownReturns \<Rightarrow>
          if cq_drain s = Draining \<and> cq_requests s = 0 then Some (s\<lparr>cq_drain := ShutdownOver\<rparr>) else None
      | ManagerStops \<Rightarrow>
          if cq_cancelled s \<and> cq_manager s = ManagerRuns then Some (s\<lparr>cq_manager := ManagerStopped\<rparr>) else None
      | ManagerFails err \<Rightarrow>
          if cq_manager s = ManagerRuns then Some (s\<lparr>cq_manager := ManagerFailed err\<rparr>) else None
      | CtrlMainReturns \<Rightarrow> managerReturned s))"

lemmas ctrl_thread_defs = proxyShutdown_def proxyServed_def managerReturned_def

definition proxy_failed :: "ctrl_process \<Rightarrow> bool" where
  "proxy_failed s = (case cq_proxy s of ListenFailed _ \<Rightarrow> True | _ \<Rightarrow> False)"

definition ctrl_process_inv :: "ctrl_process \<Rightarrow> bool" where
  "ctrl_process_inv s \<longleftrightarrow>
     (cq_drain s \<noteq> AwaitingSignal \<longrightarrow> cq_cancelled s \<and> cq_proxy s \<noteq> Listening) \<and>
     (cq_proxyHandled s \<longrightarrow> cq_proxy s \<noteq> Listening \<and> (proxy_failed s \<longrightarrow> cq_cancelled s)) \<and>
     (cq_manager s = ManagerStopped \<longrightarrow> cq_cancelled s) \<and>
     (cq_exit s = Some 0 \<longrightarrow> cq_manager s = ManagerStopped) \<and>
     (cq_exit s = Some 1 \<longrightarrow> (\<exists>err. cq_manager s = ManagerFailed err)) \<and>
     cq_exit s \<in> {None, Some 0, Some 1}"

lemma ctrlStep_inv: "ctrlStep e s = Some s' \<Longrightarrow> ctrl_process_inv s \<Longrightarrow> ctrl_process_inv s'"
  by (cases e; cases "cq_proxy s"; cases "cq_manager s";
      simp add: ctrlStep_def ctrl_thread_defs ctrl_process_inv_def proxy_failed_def split: if_splits; clarsimp)

lemma ctrl_reachable_inv: "(some_step ctrlStep)\<^sup>*\<^sup>* ctrlStarted s \<Longrightarrow> ctrl_process_inv s"
proof (induction rule: rtranclp_induct)
  case base
  show ?case by (simp add: ctrlStarted_def ctrl_process_inv_def)
next
  case (step s s')
  then show ?case using ctrlStep_inv by (auto simp: some_step_def)
qed

text \<open>The stages of a stop: told to, or the proxy failed; cancelled; the manager is down; exited.\<close>

fun ctrl_stage :: "nat \<Rightarrow> ctrl_process \<Rightarrow> bool" where
  "ctrl_stage 0 s = (ctrl_process_inv s \<and> (proxy_failed s \<or> cq_cancelled s \<or> cq_manager s \<noteq> ManagerRuns))"
| "ctrl_stage (Suc 0) s = (ctrl_process_inv s \<and> (cq_cancelled s \<or> cq_manager s \<noteq> ManagerRuns))"
| "ctrl_stage (Suc (Suc 0)) s = (ctrl_process_inv s \<and> cq_manager s \<noteq> ManagerRuns)"
| "ctrl_stage _ s = (ctrl_process_inv s \<and> cq_exit s \<noteq> None)"

fun ctrl_advance :: "nat \<Rightarrow> ctrl_event" where
  "ctrl_advance 0 = ProxyHandled"
| "ctrl_advance (Suc 0) = ManagerStops"
| "ctrl_advance _ = CtrlMainReturns"

lemma ctrlStep_progress:
  assumes "ctrlStep e s = Some s'"
  shows "cq_cancelled s \<Longrightarrow> cq_cancelled s'" "cq_manager s \<noteq> ManagerRuns \<Longrightarrow> cq_manager s' \<noteq> ManagerRuns"
    "proxy_failed s \<Longrightarrow> proxy_failed s'" "cq_exit s = None"
  using assms
  by (cases e; cases "cq_manager s"; cases "cq_proxy s"; auto simp: ctrlStep_def ctrl_thread_defs proxy_failed_def split: if_splits)+

lemma below_3: "i < (3::nat) \<Longrightarrow> i = 0 \<or> i = Suc 0 \<or> i = Suc (Suc 0)"
  by auto

interpretation ctrl_process: staged_process ctrlStep "\<lambda>s. cq_exit s \<noteq> None" ctrl_stage ctrl_advance 3
proof (unfold_locales, goal_cases)
  case (1 s e)
  then show ?case by (simp add: ctrlStep_def ctrl_thread_defs)
next
  case (2 i s e s')
  from 2(1) ctrlStep_inv [OF 2(2)] ctrlStep_progress [OF 2(2)] show ?case
    by (cases "(i, s)" rule: ctrl_stage.cases) auto
next
  case (3 i s s')
  note st = 3(1) and run = 3(3)
  from below_3 [OF 3(2)] show ?case
  proof (elim disjE)
    assume "i = 0"
    with st run ctrlStep_inv [OF run] show ?thesis
      by (auto simp: ctrlStep_def ctrl_thread_defs proxy_failed_def split: if_splits listen_state.splits)
  next
    assume "i = Suc 0"
    with st run ctrlStep_inv [OF run] show ?thesis by (auto simp: ctrlStep_def ctrl_thread_defs split: if_splits)
  next
    assume "i = Suc (Suc 0)"
    with st run ctrlStep_inv [OF run] show ?thesis
      by (auto simp: ctrlStep_def ctrl_thread_defs split: if_splits manager_state.splits)
  qed
next
  case (4 i s)
  from below_3 [OF 4(2)] 4(1,3) show ?case
    by (elim disjE)
      (auto simp: ctrlStep_def ctrl_thread_defs ctrl_process_inv_def proxy_failed_def
        split: if_splits listen_state.splits manager_state.splits)
next
  case (5 s)
  then show ?case by (simp add: numeral_3_eq_3)
qed

end
