(* ===== verification/Mck_Main.thy ===== *)
theory Mck_Main
  imports Ctrl_Main Mck_Controller
begin

text \<open>
  \<open>cmd/mock-mongodb/main.go\<close>: flags, wiring, and how the process ends.  It has one goroutine of its own,
  so its whole run is a function of what the libraries return.
\<close>

record mck_flags =
  mf_metricsAddr :: string
  mf_leaderElect :: bool

definition defaultMckFlags :: mck_flags where
  "defaultMckFlags = \<lparr>mf_metricsAddr = '':8080'', mf_leaderElect = False\<rparr>"

text \<open>What the libraries return: registration of types, the manager, the controller, \<open>mgr.Start\<close>.\<close>

record mck_launcher =
  ml_addClientgo :: "go_error option"
  ml_addMongodb :: "go_error option"
  ml_config :: "rest_config option" \<comment> \<open>\<open>ctrl.GetConfigOrDie\<close>, None when it exits\<close>
  ml_newManager :: "rest_config \<Rightarrow> manager_options \<Rightarrow> go_error option"
  ml_setup :: "rest_config \<Rightarrow> go_error option" \<comment> \<open>\<open>SetupWithManager\<close>\<close>
  ml_start :: "rest_config \<Rightarrow> go_error option"

text \<open>The end of the process: a panic of \<open>utilruntime.Must\<close>, an exit with a logged error, or a return.\<close>

datatype mck_end = MckPanic go_error | MckExit string "go_error option" | MckReturn

definition mckOptions :: "mck_flags \<Rightarrow> manager_options" where
  "mckOptions f =
     \<lparr>mo_metricsAddr = mf_metricsAddr f, mo_leaderElection = mf_leaderElect f,
      mo_leaderElectionID = ''mock-mongodb.dbaas.mongodb.com'', mo_leaderElectionNamespace = ''default''\<rparr>"

definition mckMain :: "mck_launcher \<Rightarrow> mck_flags \<Rightarrow> mck_end" where
  "mckMain L f =
     (case ml_addClientgo L of
        Some err \<Rightarrow> MckPanic err
      | None \<Rightarrow>
          (case ml_addMongodb L of
             Some err \<Rightarrow> MckPanic err
           | None \<Rightarrow>
               (case ml_config L of
                  None \<Rightarrow> MckExit ''unable to get kubeconfig'' None
                | Some c \<Rightarrow>
                    (case ml_newManager L c (mckOptions f) of
                       Some err \<Rightarrow> MckExit ''unable to start manager'' (Some err)
                     | None \<Rightarrow>
                         (case ml_setup L c of
                            Some err \<Rightarrow> MckExit ''unable to create MongoDB controller'' (Some err)
                          | None \<Rightarrow>
                              (case ml_start L c of
                                 Some err \<Rightarrow> MckExit ''problem running manager'' (Some err)
                               | None \<Rightarrow> MckReturn))))))"

definition exit_status :: "mck_end \<Rightarrow> nat" where
  "exit_status r = (case r of MckPanic _ \<Rightarrow> 2 | MckExit _ _ \<Rightarrow> 1 | MckReturn \<Rightarrow> 0)"

text \<open>The process ends without an error exactly when every step of it succeeded.\<close>

lemma mckMain_return:
  "exit_status (mckMain L f) = 0 \<longleftrightarrow>
     (\<exists>c. ml_addClientgo L = None \<and> ml_addMongodb L = None \<and> ml_config L = Some c \<and>
        ml_newManager L c (mckOptions f) = None \<and> ml_setup L c = None \<and> ml_start L c = None)"
  by (auto simp: mckMain_def exit_status_def split: option.splits)

end
