(* ===== verification/Process_Properties.thy ===== *)
theory Process_Properties
  imports Prov_Process Ctrl_Process Mck_Main Prov_Properties
begin

text \<open>
  The properties of the running processes: the background loop of the provisioner returns, and every
  process stops once it is told to, with a known exit status.
\<close>

text \<open>
  C22: the background goroutine of the provisioner returns exactly when a \<open>select\<close> takes
  \<open>ctx.Done()\<close>.  It has then done one round at the start and one for every tick taken before, in
  order, and no more; if \<open>ctx.Done()\<close> is never taken it goes on forever.
\<close>

theorem headlamp_goroutine_returns:
  "((\<exists>r. headlampGoroutine E p stopped rn w = Some r) = (\<exists>i. stopped i)) \<and>
   (\<forall>k. stopped k \<and> (\<forall>j < k. \<not> stopped j) \<longrightarrow>
     headlampGoroutine E p stopped rn w =
       Some (startHeadlampReconcileLoop E p (map rn [0..<Suc k]) w))"
proof -
  have "(LEAST i. stopped i) = k" if "stopped k" "\<forall>j < k. \<not> stopped j" for k
    using that by (metis (full_types) LeastI Least_le le_neq_implies_less)
  then have "headlampGoroutine E p stopped rn w =
       Some (startHeadlampReconcileLoop E p (map rn [0..<Suc k]) w)"
    if "stopped k" "\<forall>j < k. \<not> stopped j" for k
    using that by (auto simp: headlampGoroutine_list simp del: upt_Suc)
  moreover have "(\<exists>r. headlampGoroutine E p stopped rn w = Some r) = (\<exists>i. stopped i)"
    unfolding headlampGoroutine_list by (simp del: upt_Suc split_paired_Ex split: if_split)
  ultimately show ?thesis by blast
qed

theorem headlamp_goroutine_returns_witness:
  "headlampGoroutine ref_platform exProvisioner (\<lambda>i. 2 \<le> i) (\<lambda>_. (exOrders, ''t'')) emptyWorld =
     Some (startHeadlampReconcileLoop ref_platform exProvisioner (replicate 3 (exOrders, ''t'')) emptyWorld)"
proof -
  have m: "map (\<lambda>_. (exOrders, ''t'')) [0..<Suc 2] = replicate 3 (exOrders, ''t'')"
    by (simp add: numeral_3_eq_3 numeral_2_eq_2)
  have "headlampGoroutine ref_platform exProvisioner (\<lambda>i. 2 \<le> i) (\<lambda>_. (exOrders, ''t'')) emptyWorld =
      Some (startHeadlampReconcileLoop ref_platform exProvisioner (map (\<lambda>_. (exOrders, ''t'')) [0..<Suc 2]) emptyWorld)"
    using conjunct2 [OF headlamp_goroutine_returns [of ref_platform exProvisioner "\<lambda>i. 2 \<le> i"
          "\<lambda>_. (exOrders, ''t'')" emptyWorld], THEN spec, of 2] by simp
  then show ?thesis unfolding m .
qed

text \<open>A run of the provisioner in which a request is at work when the signal comes.\<close>

definition exStop :: "nat \<Rightarrow> prov_event" where
  "exStop n = (if n = 0 then RequestStarts else if n = 1 then Signal
     else [ShutdownCalled, MainReturns] ! (n mod 2))"

lemma exStop_state:
  "exec provStep exStop started 4 = started\<lparr>pp_cancelled := True, pp_listen := ServerClosed,
     pp_requests := 1, pp_drain := Draining, pp_exit := Some 0\<rparr>"
  by code_simp

text \<open>
  C21: the processes stop when told to.  However their threads are scheduled, if the scheduler keeps
  offering the steps that remain, the provisioner exits once it has a signal or its server fails, and
  the Kubernetes controller once it has a signal, its proxy fails or its manager returns.  The exit
  status is 0 or 1; the provisioner's is 0 only after a signal with the server closed, and 1 only for
  an error of the server; the controller's is 0 only when the manager stopped after the context was
  cancelled, by a signal or by a failed proxy, and 1 only for an error of the manager.  The mock
  MongoDB process ends with 0 exactly when every step of it succeeded.  But the provisioner does not
  wait for \<open>Shutdown\<close>: it can exit with 0 while the shutdown is still draining a request.
\<close>

theorem processes_stop_when_told:
  assumes "offered sched ShutdownCalled" "offered sched MainReturns"
    and "offered sched2 ProxyHandled" "offered sched2 ManagerStops" "offered sched2 CtrlMainReturns"
  shows
    "(pp_cancelled (exec provStep sched started n) \<or> pp_listen (exec provStep sched started n) \<noteq> Listening \<longrightarrow>
       (\<exists>m \<ge> n. pp_exit (exec provStep sched started m) \<in> {Some 0, Some 1})) \<and>
     (cq_cancelled (exec ctrlStep sched2 ctrlStarted n) \<or> proxy_failed (exec ctrlStep sched2 ctrlStarted n) \<or>
       cq_manager (exec ctrlStep sched2 ctrlStarted n) \<noteq> ManagerRuns \<longrightarrow>
       (\<exists>m \<ge> n. cq_exit (exec ctrlStep sched2 ctrlStarted m) \<in> {Some 0, Some 1})) \<and>
     (\<forall>s. (some_step provStep)\<^sup>*\<^sup>* started s \<longrightarrow>
       (pp_exit s = Some 0 \<longrightarrow> pp_cancelled s \<and> pp_listen s = ServerClosed) \<and>
       (pp_exit s = Some 1 \<longrightarrow> (\<exists>err. pp_listen s = ListenFailed err))) \<and>
     (\<forall>s. (some_step ctrlStep)\<^sup>*\<^sup>* ctrlStarted s \<longrightarrow>
       (cq_exit s = Some 0 \<longrightarrow> cq_cancelled s \<and> cq_manager s = ManagerStopped) \<and>
       (cq_exit s = Some 1 \<longrightarrow> (\<exists>err. cq_manager s = ManagerFailed err))) \<and>
     (exit_status (mckMain L f) = 0 \<longleftrightarrow>
       (\<exists>c. ml_addClientgo L = None \<and> ml_addMongodb L = None \<and> ml_config L = Some c \<and>
          ml_newManager L c (mckOptions f) = None \<and> ml_setup L c = None \<and> ml_start L c = None)) \<and>
     (\<exists>s. (some_step provStep)\<^sup>*\<^sup>* started s \<and> pp_exit s = Some 0 \<and> pp_drain s = Draining \<and> 0 < pp_requests s)"
proof (intro conjI impI)
  let ?s = "exec provStep sched started" and ?c = "exec ctrlStep sched2 ctrlStarted"
  {
    assume a: "pp_cancelled (?s n) \<or> pp_listen (?s n) \<noteq> Listening"
    have "prov_stage 0 (?s n)" using a prov_reachable_inv [OF exec_reachable] by simp
    moreover have "\<forall>i < 2. offered sched (prov_advance i)" using assms(1,2) by (simp add: prov_advance_def)
    ultimately obtain m where "m \<ge> n" "pp_exit (?s m) \<noteq> None" using prov_process.ends by blast
    moreover have "pp_exit (?s m) \<in> {None, Some 0, Some 1}"
      using prov_reachable_inv [OF exec_reachable, of sched m] by (simp add: prov_process_inv_def)
    ultimately show "\<exists>m \<ge> n. pp_exit (?s m) \<in> {Some 0, Some 1}" by auto
  next
    assume a: "cq_cancelled (?c n) \<or> proxy_failed (?c n) \<or> cq_manager (?c n) \<noteq> ManagerRuns"
    have "ctrl_stage 0 (?c n)" using a ctrl_reachable_inv [OF exec_reachable] by auto
    moreover have "\<forall>i < 3. offered sched2 (ctrl_advance i)" 
    proof (intro allI impI)
      fix i :: nat
      assume "i < 3"
      from below_3 [OF this] assms(3-5) show "offered sched2 (ctrl_advance i)" by (elim disjE) simp_all
    qed
    ultimately obtain m where "m \<ge> n" "cq_exit (?c m) \<noteq> None" using ctrl_process.ends by blast
    moreover have "cq_exit (?c m) \<in> {None, Some 0, Some 1}"
      using ctrl_reachable_inv [OF exec_reachable, of sched2 m] by (simp add: ctrl_process_inv_def)
    ultimately show "\<exists>m \<ge> n. cq_exit (?c m) \<in> {Some 0, Some 1}" by auto
  }
  show "\<forall>s. (some_step provStep)\<^sup>*\<^sup>* started s \<longrightarrow>
       (pp_exit s = Some 0 \<longrightarrow> pp_cancelled s \<and> pp_listen s = ServerClosed) \<and>
       (pp_exit s = Some 1 \<longrightarrow> (\<exists>err. pp_listen s = ListenFailed err))"
    using prov_reachable_inv by (auto simp: prov_process_inv_def)
  show "\<forall>s. (some_step ctrlStep)\<^sup>*\<^sup>* ctrlStarted s \<longrightarrow>
       (cq_exit s = Some 0 \<longrightarrow> cq_cancelled s \<and> cq_manager s = ManagerStopped) \<and>
       (cq_exit s = Some 1 \<longrightarrow> (\<exists>err. cq_manager s = ManagerFailed err))"
    using ctrl_reachable_inv by (auto simp: ctrl_process_inv_def)
  show "exit_status (mckMain L f) = 0 \<longleftrightarrow>
       (\<exists>c. ml_addClientgo L = None \<and> ml_addMongodb L = None \<and> ml_config L = Some c \<and>
          ml_newManager L c (mckOptions f) = None \<and> ml_setup L c = None \<and> ml_start L c = None)"
    by (rule mckMain_return)
  show "\<exists>s. (some_step provStep)\<^sup>*\<^sup>* started s \<and> pp_exit s = Some 0 \<and> pp_drain s = Draining \<and> 0 < pp_requests s"
    using exec_reachable [of provStep started exStop 4] unfolding exStop_state by fastforce
qed

text \<open>A round-robin scheduler.\<close>

definition exCtrlStop :: "nat \<Rightarrow> ctrl_event" where
  "exCtrlStop n = (if n = 0 then ProxyError (ApiErr NotFound)
     else [ProxyHandled, ManagerStops, CtrlMainReturns] ! (n mod 3))"

lemma mult_plus_mod: "k < (d :: nat) \<Longrightarrow> (d * Suc n + k) mod d = k"
  by (metis add.commute mod_less mod_mult_self2)

lemma exStop_offers: "offered exStop ShutdownCalled" "offered exStop MainReturns"
proof -
  have o: "offered exStop ([ShutdownCalled, MainReturns] ! k)" if "k < 2" for k
  proof -
    have "2 * Suc n + k \<ge> n \<and> exStop (2 * Suc n + k) = [ShutdownCalled, MainReturns] ! k" for n
      using mult_plus_mod [OF that, of n] by (simp add: exStop_def)
    then show ?thesis unfolding offered_def by blast
  qed
  from o [of 0] o [of 1] show "offered exStop ShutdownCalled" "offered exStop MainReturns" by simp_all
qed

lemma exCtrlStop_offers:
  "offered exCtrlStop ProxyHandled" "offered exCtrlStop ManagerStops" "offered exCtrlStop CtrlMainReturns"
proof -
  have o: "offered exCtrlStop ([ProxyHandled, ManagerStops, CtrlMainReturns] ! k)" if "k < 3" for k
  proof -
    have "3 * Suc n + k \<ge> n \<and> exCtrlStop (3 * Suc n + k) = [ProxyHandled, ManagerStops, CtrlMainReturns] ! k" for n
      using mult_plus_mod [OF that, of n] by (simp add: exCtrlStop_def)
    then show ?thesis unfolding offered_def by blast
  qed
  from o [of 0] o [of 1] o [of 2]
  show "offered exCtrlStop ProxyHandled" "offered exCtrlStop ManagerStops" "offered exCtrlStop CtrlMainReturns"
    by simp_all
qed

theorem processes_stop_when_told_witness:
  "(\<exists>m \<ge> 2. pp_exit (exec provStep exStop started m) \<in> {Some 0, Some 1}) \<and>
   (\<exists>m \<ge> 2. cq_exit (exec ctrlStep exCtrlStop ctrlStarted m) \<in> {Some 0, Some 1})"
proof -
  have p: "pp_cancelled (exec provStep exStop started 2)"
    by (simp add: numeral_2_eq_2 exStop_def provStep_def prov_thread_defs started_def)
  have c: "proxy_failed (exec ctrlStep exCtrlStop ctrlStarted 2)"
    by (simp add: numeral_2_eq_2 exCtrlStop_def ctrlStep_def ctrl_thread_defs ctrlStarted_def proxy_failed_def)
  from processes_stop_when_told [OF exStop_offers exCtrlStop_offers, of 2] p c show ?thesis by blast
qed

end
