(* ===== verification/Deep_Copy.thy ===== *)
theory Deep_Copy
  imports Kube_Types
begin

text \<open>
  \<open>api/v1alpha1/zz_generated.deepcopy.go\<close>: the deep copies of the API types, over a memory with
  addresses.  The controllers hand out pointers to objects of a shared cache and change a copy, so
  what matters is aliasing: a copy has the value of its original, lies in fresh memory, and nothing
  written through one is seen through the other.  The copies of \<open>ObjectMeta\<close> and \<open>ListMeta\<close> are the
  library's, and parameters.
\<close>

section \<open>Memory\<close>

type_synonym addr = nat

text \<open>The part of a backing array that a slice shows.\<close>

record slice =
  sl_array :: addr
  sl_off :: nat
  sl_len :: nat

text \<open>The structs as they lie in memory: a pointer is an address or nil.\<close>

record spec_struct =
  sp_allow :: "addr option"
  sp_machineCount :: machine_count

record 'm kube_struct =
  kp_typeMeta :: "string \<times> string"
  kp_meta :: 'm
  kp_spec :: spec_struct
  kp_status :: kubernetes_status

record 'l list_struct =
  lp_typeMeta :: "string \<times> string"
  lp_meta :: 'l
  lp_items :: "slice option"

text \<open>
  A memory: what lies at an address, by type, and the first free address.  \<open>hp_lib\<close> are the cells
  that the library's metadata point to.
\<close>

record ('m, 'l, 'c) heap =
  hp_next :: addr
  hp_bool :: "addr \<Rightarrow> bool"
  hp_count :: "addr \<Rightarrow> machine_count"
  hp_status :: "addr \<Rightarrow> kubernetes_status"
  hp_spec :: "addr \<Rightarrow> spec_struct"
  hp_kube :: "addr \<Rightarrow> 'm kube_struct"
  hp_items :: "addr \<Rightarrow> 'm kube_struct list"
  hp_list :: "addr \<Rightarrow> 'l list_struct"
  hp_lib :: "addr \<Rightarrow> 'c"

type_synonym ('a, 'm, 'l, 'c) copier = "'a \<Rightarrow> ('m, 'l, 'c) heap \<Rightarrow> 'a \<times> ('m, 'l, 'c) heap"

definition alloc :: "('m, 'l, 'c) heap \<Rightarrow> addr \<times> ('m, 'l, 'c) heap" where
  "alloc h = (hp_next h, h\<lparr>hp_next := Suc (hp_next h)\<rparr>)"

definition put_bool :: "addr \<Rightarrow> bool \<Rightarrow> ('m, 'l, 'c) heap \<Rightarrow> ('m, 'l, 'c) heap" where
  "put_bool a x h = h\<lparr>hp_bool := (hp_bool h)(a := x)\<rparr>"

definition put_count :: "addr \<Rightarrow> machine_count \<Rightarrow> ('m, 'l, 'c) heap \<Rightarrow> ('m, 'l, 'c) heap" where
  "put_count a x h = h\<lparr>hp_count := (hp_count h)(a := x)\<rparr>"

definition put_status :: "addr \<Rightarrow> kubernetes_status \<Rightarrow> ('m, 'l, 'c) heap \<Rightarrow> ('m, 'l, 'c) heap" where
  "put_status a x h = h\<lparr>hp_status := (hp_status h)(a := x)\<rparr>"

definition put_spec :: "addr \<Rightarrow> spec_struct \<Rightarrow> ('m, 'l, 'c) heap \<Rightarrow> ('m, 'l, 'c) heap" where
  "put_spec a x h = h\<lparr>hp_spec := (hp_spec h)(a := x)\<rparr>"

definition put_kube :: "addr \<Rightarrow> 'm kube_struct \<Rightarrow> ('m, 'l, 'c) heap \<Rightarrow> ('m, 'l, 'c) heap" where
  "put_kube a x h = h\<lparr>hp_kube := (hp_kube h)(a := x)\<rparr>"

definition put_items :: "addr \<Rightarrow> 'm kube_struct list \<Rightarrow> ('m, 'l, 'c) heap \<Rightarrow> ('m, 'l, 'c) heap" where
  "put_items a x h = h\<lparr>hp_items := (hp_items h)(a := x)\<rparr>"

definition put_list :: "addr \<Rightarrow> 'l list_struct \<Rightarrow> ('m, 'l, 'c) heap \<Rightarrow> ('m, 'l, 'c) heap" where
  "put_list a x h = h\<lparr>hp_list := (hp_list h)(a := x)\<rparr>"

definition put_lib :: "addr \<Rightarrow> 'c \<Rightarrow> ('m, 'l, 'c) heap \<Rightarrow> ('m, 'l, 'c) heap" where
  "put_lib a x h = h\<lparr>hp_lib := (hp_lib h)(a := x)\<rparr>"

text \<open>What a slice shows of its array.\<close>

definition items_of :: "('m, 'l, 'c) heap \<Rightarrow> slice \<Rightarrow> 'm kube_struct list" where
  "items_of h s = take (sl_len s) (drop (sl_off s) (hp_items h (sl_array s)))"

section \<open>The generated functions\<close>

text \<open>
  \<open>DeepCopyInto\<close> reads all of \<open>*in\<close> and overwrites all of \<open>*out\<close>: it is a function from the struct
  at \<open>in\<close> to the one it leaves at \<open>out\<close>.
\<close>

definition MachineCount_DeepCopyInto :: "(machine_count, 'm, 'l, 'c) copier" where
  "MachineCount_DeepCopyInto x h = (x, h)"

definition KubernetesStatus_DeepCopyInto :: "(kubernetes_status, 'm, 'l, 'c) copier" where
  "KubernetesStatus_DeepCopyInto x h = (x, h)"

definition KubernetesSpec_DeepCopyInto :: "(spec_struct, 'm, 'l, 'c) copier" where
  "KubernetesSpec_DeepCopyInto x h =
     (case sp_allow x of
        None \<Rightarrow> (x\<lparr>sp_machineCount := sp_machineCount x\<rparr>, h)
      | Some p \<Rightarrow>
          (case alloc h of (q, h1) \<Rightarrow>
             (x\<lparr>sp_allow := Some q, sp_machineCount := sp_machineCount x\<rparr>,
              put_bool q (hp_bool h1 p) h1)))"

definition Kubernetes_DeepCopyInto ::
  "('m, 'm, 'l, 'c) copier \<Rightarrow> ('m kube_struct, 'm, 'l, 'c) copier" where
  "Kubernetes_DeepCopyInto copyMeta x h =
     (case copyMeta (kp_meta x) h of (m, h1) \<Rightarrow>
        (case KubernetesSpec_DeepCopyInto (kp_spec x) h1 of (s, h2) \<Rightarrow>
           (x\<lparr>kp_typeMeta := kp_typeMeta x, kp_meta := m, kp_spec := s, kp_status := kp_status x\<rparr>, h2)))"

text \<open>The loop over the items, and the list: a nil slice stays nil.\<close>

fun copyItems :: "('a, 'm, 'l, 'c) copier \<Rightarrow> ('a list, 'm, 'l, 'c) copier" where
  "copyItems copy [] h = ([], h)"
| "copyItems copy (x # xs) h =
     (case copy x h of (y, h1) \<Rightarrow> (case copyItems copy xs h1 of (ys, h2) \<Rightarrow> (y # ys, h2)))"

definition KubernetesList_DeepCopyInto ::
  "('m, 'm, 'l, 'c) copier \<Rightarrow> ('l, 'm, 'l, 'c) copier \<Rightarrow> ('l list_struct, 'm, 'l, 'c) copier" where
  "KubernetesList_DeepCopyInto copyMeta copyListMeta x h =
     (case copyListMeta (lp_meta x) h of (m, h1) \<Rightarrow>
        (case lp_items x of
           None \<Rightarrow> (x\<lparr>lp_typeMeta := lp_typeMeta x, lp_meta := m\<rparr>, h1)
         | Some s \<Rightarrow>
             (case alloc h1 of (arr, h2) \<Rightarrow>
                (case copyItems (Kubernetes_DeepCopyInto copyMeta) (items_of h2 s) h2 of (ys, h3) \<Rightarrow>
                   (x\<lparr>lp_typeMeta := lp_typeMeta x, lp_meta := m,
                      lp_items := Some \<lparr>sl_array = arr, sl_off = 0, sl_len = length ys\<rparr>\<rparr>,
                    put_items arr ys h3)))))"

text \<open>\<open>DeepCopy\<close>: nil for nil, else \<open>new\<close> and \<open>DeepCopyInto\<close>.\<close>

definition newCopy ::
  "(('m, 'l, 'c) heap \<Rightarrow> addr \<Rightarrow> 'a) \<Rightarrow> (addr \<Rightarrow> 'a \<Rightarrow> ('m, 'l, 'c) heap \<Rightarrow> ('m, 'l, 'c) heap) \<Rightarrow>
   ('a, 'm, 'l, 'c) copier \<Rightarrow> (addr option, 'm, 'l, 'c) copier" where
  "newCopy get put copyInto p h =
     (case p of
        None \<Rightarrow> (None, h)
      | Some a \<Rightarrow>
          (case alloc h of (out, h1) \<Rightarrow>
             (case copyInto (get h1 a) h1 of (y, h2) \<Rightarrow> (Some out, put out y h2))))"

definition MachineCount_DeepCopy :: "(addr option, 'm, 'l, 'c) copier" where
  "MachineCount_DeepCopy = newCopy hp_count put_count MachineCount_DeepCopyInto"

definition KubernetesStatus_DeepCopy :: "(addr option, 'm, 'l, 'c) copier" where
  "KubernetesStatus_DeepCopy = newCopy hp_status put_status KubernetesStatus_DeepCopyInto"

definition KubernetesSpec_DeepCopy :: "(addr option, 'm, 'l, 'c) copier" where
  "KubernetesSpec_DeepCopy = newCopy hp_spec put_spec KubernetesSpec_DeepCopyInto"

definition Kubernetes_DeepCopy :: "('m, 'm, 'l, 'c) copier \<Rightarrow> (addr option, 'm, 'l, 'c) copier" where
  "Kubernetes_DeepCopy copyMeta = newCopy hp_kube put_kube (Kubernetes_DeepCopyInto copyMeta)"

definition KubernetesList_DeepCopy ::
  "('m, 'm, 'l, 'c) copier \<Rightarrow> ('l, 'm, 'l, 'c) copier \<Rightarrow> (addr option, 'm, 'l, 'c) copier" where
  "KubernetesList_DeepCopy copyMeta copyListMeta =
     newCopy hp_list put_list (KubernetesList_DeepCopyInto copyMeta copyListMeta)"

text \<open>
  \<open>DeepCopyObject\<close> gives an interface value: a nil interface, not one that holds a nil pointer.
\<close>

datatype runtime_object = NilObject | KubernetesObject "addr option" | KubernetesListObject "addr option"

definition Kubernetes_DeepCopyObject ::
  "('m, 'm, 'l, 'c) copier \<Rightarrow> addr option \<Rightarrow> ('m, 'l, 'c) heap \<Rightarrow> runtime_object \<times> ('m, 'l, 'c) heap" where
  "Kubernetes_DeepCopyObject copyMeta p h =
     (case Kubernetes_DeepCopy copyMeta p h of (c, h') \<Rightarrow>
        (if c \<noteq> None then KubernetesObject c else NilObject, h'))"

definition KubernetesList_DeepCopyObject ::
  "('m, 'm, 'l, 'c) copier \<Rightarrow> ('l, 'm, 'l, 'c) copier \<Rightarrow> addr option \<Rightarrow> ('m, 'l, 'c) heap \<Rightarrow>
     runtime_object \<times> ('m, 'l, 'c) heap" where
  "KubernetesList_DeepCopyObject copyMeta copyListMeta p h =
     (case KubernetesList_DeepCopy copyMeta copyListMeta p h of (c, h') \<Rightarrow>
        (if c \<noteq> None then KubernetesListObject c else NilObject, h'))"

end
