(* ===== verification/Deep_Copy_Laws.thy ===== *)
theory Deep_Copy_Laws
  imports Deep_Copy
begin

text \<open>
  What a deep copy promises, as a locale; that the generated functions of \<open>Deep_Copy\<close> keep the
  promise, given that the library's copies of the metadata do; and what it means for a program that
  writes through the original or through the copy.
\<close>

section \<open>Heaps that agree\<close>

definition agree :: "addr set \<Rightarrow> ('m, 'l, 'c) heap \<Rightarrow> ('m, 'l, 'c) heap \<Rightarrow> bool" where
  "agree A h h' \<longleftrightarrow> (\<forall>a \<in> A. hp_bool h' a = hp_bool h a \<and> hp_count h' a = hp_count h a \<and>
     hp_status h' a = hp_status h a \<and> hp_spec h' a = hp_spec h a \<and> hp_kube h' a = hp_kube h a \<and>
     hp_items h' a = hp_items h a \<and> hp_list h' a = hp_list h a \<and> hp_lib h' a = hp_lib h a)"

definition allocated :: "('m, 'l, 'c) heap \<Rightarrow> addr set" where
  "allocated h = {..<hp_next h}"

text \<open>Memory grows: more is allocated, and what was there is as it was.\<close>

definition grows :: "('m, 'l, 'c) heap \<Rightarrow> ('m, 'l, 'c) heap \<Rightarrow> bool" where
  "grows h h' \<longleftrightarrow> hp_next h \<le> hp_next h' \<and> agree (allocated h) h h'"

lemma agree_refl [simp]: "agree A h h"
  by (simp add: agree_def)

lemma agree_trans: "agree A h h1 \<Longrightarrow> agree A h1 h2 \<Longrightarrow> agree A h h2"
  by (simp add: agree_def)

lemma agree_mono: "agree A h h' \<Longrightarrow> B \<subseteq> A \<Longrightarrow> agree B h h'"
  by (auto simp: agree_def)

lemma grows_refl [simp]: "grows h h"
  by (simp add: grows_def)

lemma grows_trans: "grows h h1 \<Longrightarrow> grows h1 h2 \<Longrightarrow> grows h h2"
  unfolding grows_def allocated_def by (auto intro: agree_trans agree_mono)

lemma grows_allocated: "grows h h' \<Longrightarrow> allocated h \<subseteq> allocated h'"
  by (auto simp: grows_def allocated_def)

lemma grows_agree: "grows h h' \<Longrightarrow> A \<subseteq> allocated h \<Longrightarrow> agree A h h'"
  by (auto simp: grows_def intro: agree_mono)

lemma alloc_run:
  assumes "alloc h = (a, h')"
  shows "a = hp_next h" "hp_next h' = Suc (hp_next h)" "agree A h h'" "grows h h'"
    "a \<in> allocated h' - allocated h"
  using assms by (auto simp: alloc_def agree_def grows_def allocated_def)

section \<open>Typed cells\<close>

locale heap_cell =
  fixes get :: "('m, 'l, 'c) heap \<Rightarrow> addr \<Rightarrow> 'a"
    and put :: "addr \<Rightarrow> 'a \<Rightarrow> ('m, 'l, 'c) heap \<Rightarrow> ('m, 'l, 'c) heap"
  assumes get_put: "get (put a x h) a = x"
    and put_agree: "a \<notin> A \<Longrightarrow> agree A h (put a x h)"
    and put_next: "hp_next (put a x h) = hp_next h"
    and get_agree: "agree A h h' \<Longrightarrow> a \<in> A \<Longrightarrow> get h' a = get h a"
begin

lemma put_fresh: "grows h h' \<Longrightarrow> a \<notin> allocated h \<Longrightarrow> grows h (put a x h')"
  unfolding grows_def by (metis agree_trans put_agree put_next)

lemma put_allocated: "allocated (put a x h) = allocated h"
  by (simp add: allocated_def put_next)

end

interpretation bool_cell: heap_cell hp_bool put_bool
  by unfold_locales (simp_all add: put_bool_def agree_def)

interpretation count_cell: heap_cell hp_count put_count
  by unfold_locales (simp_all add: put_count_def agree_def)

interpretation status_cell: heap_cell hp_status put_status
  by unfold_locales (simp_all add: put_status_def agree_def)

interpretation spec_cell: heap_cell hp_spec put_spec
  by unfold_locales (simp_all add: put_spec_def agree_def)

interpretation kube_cell: heap_cell hp_kube put_kube
  by unfold_locales (simp_all add: put_kube_def agree_def)

interpretation items_cell: heap_cell hp_items put_items
  by unfold_locales (simp_all add: put_items_def agree_def)

interpretation list_cell: heap_cell hp_list put_list
  by unfold_locales (simp_all add: put_list_def agree_def)

interpretation lib_cell: heap_cell hp_lib put_lib
  by unfold_locales (simp_all add: put_lib_def agree_def)

section \<open>The contract of a deep copy\<close>

text \<open>
  \<open>y\<close> is a copy of \<open>x\<close> that nothing written through \<open>x\<close> reaches, nor the other way round: both have
  the value \<open>x\<close> had, and keep it when any of the cells of the other, or any memory allocated later,
  is overwritten.
\<close>

definition independent ::
  "(('m, 'l, 'c) heap \<Rightarrow> 'a \<Rightarrow> addr set) \<Rightarrow> (('m, 'l, 'c) heap \<Rightarrow> 'a \<Rightarrow> 'v) \<Rightarrow>
   ('m, 'l, 'c) heap \<Rightarrow> 'a \<Rightarrow> ('m, 'l, 'c) heap \<Rightarrow> 'a \<Rightarrow> bool" where
  "independent reach val h x h' y \<longleftrightarrow>
     val h' x = val h x \<and> val h' y = val h x \<and> reach h' x \<inter> reach h' y = {} \<and>
     (\<forall>h2. agree (allocated h' - reach h' x) h' h2 \<longrightarrow> val h2 y = val h x) \<and>
     (\<forall>h2. agree (allocated h' - reach h' y) h' h2 \<longrightarrow> val h2 x = val h x)"

text \<open>
  \<open>reach\<close> are the cells behind a value, \<open>val\<close> what it stands for, \<open>copy\<close> copies it.
\<close>

locale deep_copier =
  fixes reach :: "('m, 'l, 'c) heap \<Rightarrow> 'a \<Rightarrow> addr set"
    and val :: "('m, 'l, 'c) heap \<Rightarrow> 'a \<Rightarrow> 'v"
    and copy :: "('a, 'm, 'l, 'c) copier"
  assumes reach_local: "agree (reach h x) h h' \<Longrightarrow> reach h' x = reach h x"
    and val_local: "agree (reach h x) h h' \<Longrightarrow> val h' x = val h x"
    and copy_grows: "reach h x \<subseteq> allocated h \<Longrightarrow> copy x h = (y, h') \<Longrightarrow> grows h h'"
    and copy_val: "reach h x \<subseteq> allocated h \<Longrightarrow> copy x h = (y, h') \<Longrightarrow> val h' y = val h x"
    and copy_fresh: "reach h x \<subseteq> allocated h \<Longrightarrow> copy x h = (y, h') \<Longrightarrow>
      reach h' y \<subseteq> allocated h' - allocated h"
begin

lemma grown:
  assumes "reach h x \<subseteq> allocated h" and "grows h h'"
  shows "reach h' x = reach h x" "val h' x = val h x" "reach h' x \<subseteq> allocated h'"
proof -
  have a: "agree (reach h x) h h'" by (rule grows_agree [OF assms(2,1)])
  show "reach h' x = reach h x" "val h' x = val h x" by (rule reach_local [OF a], rule val_local [OF a])
  with assms grows_allocated [OF assms(2)] show "reach h' x \<subseteq> allocated h'" by auto
qed

theorem copy_independent:
  assumes live: "reach h x \<subseteq> allocated h" and run: "copy x h = (y, h')"
  shows "independent reach val h x h' y"
proof -
  note g = grown [OF live copy_grows [OF live run]]
  note f = copy_fresh [OF live run]
  have disj: "reach h' x \<inter> reach h' y = {}" using g(1) live f by auto
  have "val h2 y = val h x" if h2: "agree (allocated h' - reach h' x) h' h2" for h2
  proof -
    have "agree (reach h' y) h' h2" by (rule agree_mono [OF h2]) (use f disj in blast)
    from val_local [OF this] copy_val [OF live run] show ?thesis by simp
  qed
  moreover have "val h2 x = val h x" if h2: "agree (allocated h' - reach h' y) h' h2" for h2
  proof -
    have "agree (reach h' x) h' h2" by (rule agree_mono [OF h2]) (use g(3) disj in blast)
    from val_local [OF this] g(2) show ?thesis by simp
  qed
  ultimately show ?thesis
    using disj g(2) copy_val [OF live run] by (simp add: independent_def)
qed

text \<open>The loop over a slice copies its elements one by one.\<close>

lemma copy_items:
  assumes "\<forall>x \<in> set xs. reach h x \<subseteq> allocated h" and "copyItems copy xs h = (ys, h')"
  shows "grows h h'" "map (val h') ys = map (val h) xs" "length ys = length xs"
    "\<forall>y \<in> set ys. reach h' y \<subseteq> allocated h' - allocated h"
proof -
  have "grows h h' \<and> map (val h') ys = map (val h) xs \<and> length ys = length xs \<and>
    (\<forall>y \<in> set ys. reach h' y \<subseteq> allocated h' - allocated h)"
    using assms
  proof (induction xs arbitrary: h ys)
    case (Cons x xs)
    from Cons.prems(2) obtain y h1 zs where 1: "copy x h = (y, h1)" and 2: "copyItems copy xs h1 = (zs, h')"
      and ys: "ys = y # zs" by (auto split: prod.splits)
    from Cons.prems(1) have x: "reach h x \<subseteq> allocated h"
      and xs: "\<forall>z \<in> set xs. reach h z \<subseteq> allocated h" by simp_all
    note g = copy_grows [OF x 1]
    have live: "\<forall>z \<in> set xs. reach h1 z \<subseteq> allocated h1" using grown(3) [OF _ g] xs by blast
    note IH = Cons.IH [OF live 2]
    have f: "reach h1 y \<subseteq> allocated h1 - allocated h" by (rule copy_fresh [OF x 1])
    then have f1: "reach h1 y \<subseteq> allocated h1" by blast
    note gy = grown [OF f1 conjunct1 [OF IH]]
    have "map (val h1) xs = map (val h) xs" using grown(2) [OF _ g] xs by simp
    moreover have "reach h' y \<subseteq> allocated h' - allocated h" using gy f by auto
    moreover have "\<forall>z \<in> set zs. reach h' z \<subseteq> allocated h' - allocated h"
      using IH grows_allocated [OF g] by blast
    moreover have "grows h h'" by (rule grows_trans [OF g conjunct1 [OF IH]])
    ultimately show ?case using IH ys gy(2) copy_val [OF x 1] by simp
  qed simp
  then show "grows h h'" "map (val h') ys = map (val h) xs" "length ys = length xs"
    "\<forall>y \<in> set ys. reach h' y \<subseteq> allocated h' - allocated h" by simp_all
qed

end


section \<open>Pointers\<close>

text \<open>\<open>DeepCopy\<close> of a pointer keeps the promise when \<open>DeepCopyInto\<close> of the struct does.\<close>

definition ptr_reach ::
  "(('m, 'l, 'c) heap \<Rightarrow> addr \<Rightarrow> 'a) \<Rightarrow> (('m, 'l, 'c) heap \<Rightarrow> 'a \<Rightarrow> addr set) \<Rightarrow>
   ('m, 'l, 'c) heap \<Rightarrow> addr option \<Rightarrow> addr set" where
  "ptr_reach get reach h p = (case p of None \<Rightarrow> {} | Some a \<Rightarrow> insert a (reach h (get h a)))"

definition ptr_val ::
  "(('m, 'l, 'c) heap \<Rightarrow> addr \<Rightarrow> 'a) \<Rightarrow> (('m, 'l, 'c) heap \<Rightarrow> 'a \<Rightarrow> 'v) \<Rightarrow>
   ('m, 'l, 'c) heap \<Rightarrow> addr option \<Rightarrow> 'v option" where
  "ptr_val get val h p = map_option (\<lambda>a. val h (get h a)) p"

locale pointed = heap_cell get put + deep_copier reach val copy
  for get :: "('m, 'l, 'c) heap \<Rightarrow> addr \<Rightarrow> 'a"
    and put :: "addr \<Rightarrow> 'a \<Rightarrow> ('m, 'l, 'c) heap \<Rightarrow> ('m, 'l, 'c) heap"
    and reach :: "('m, 'l, 'c) heap \<Rightarrow> 'a \<Rightarrow> addr set"
    and val :: "('m, 'l, 'c) heap \<Rightarrow> 'a \<Rightarrow> 'v"
    and copy :: "('a, 'm, 'l, 'c) copier"
begin

lemma new_copy:
  assumes live: "ptr_reach get reach h p \<subseteq> allocated h" and run: "newCopy get put copy p h = (q, h')"
  shows "grows h h' \<and> ptr_val get val h' q = ptr_val get val h p \<and>
    ptr_reach get reach h' q \<subseteq> allocated h' - allocated h"
proof (cases p)
  case None
  with run show ?thesis by (simp add: newCopy_def ptr_val_def ptr_reach_def)
next
  case (Some a)
  obtain new h1 where al: "alloc h = (new, h1)" by fastforce
  obtain y h2 where cp: "copy (get h1 a) h1 = (y, h2)" by fastforce
  from run Some al cp have q: "q = Some new" "h' = put new y h2" by (simp_all add: newCopy_def)
  note new = alloc_run [OF al]
  have x: "get h1 a = get h a" using get_agree [OF new(3) [of "{a}"]] by simp
  have lx: "reach h (get h a) \<subseteq> allocated h" using live Some by (simp add: ptr_reach_def)
  note g1 = grown [OF lx new(4)]
  note cp = cp [unfolded x]
  have live1: "reach h1 (get h a) \<subseteq> allocated h1" by (rule g1(3))
  note f = copy_fresh [OF live1 cp] and g2 = copy_grows [OF live1 cp]
  have "new \<notin> reach h2 y" using f new(5) by blast
  then have ag: "agree (reach h2 y) h2 h'" unfolding q(2) by (rule put_agree)
  have "new \<notin> allocated h" using new(5) by blast
  then have "grows h h'" unfolding q(2) by (intro put_fresh grows_trans [OF new(4) g2])
  moreover have "ptr_val get val h' q = ptr_val get val h p"
    using val_local [OF ag] copy_val [OF live1 cp] g1(2) Some q
    by (simp add: ptr_val_def get_put)
  moreover have "ptr_reach get reach h' q \<subseteq> allocated h' - allocated h"
    using reach_local [OF ag] f new(5) grows_allocated [OF g2] grows_allocated [OF new(4)] q
    by (auto simp: ptr_reach_def get_put put_allocated)
  ultimately show ?thesis by blast
qed

end

sublocale pointed \<subseteq> ptr: deep_copier "ptr_reach get reach" "ptr_val get val" "newCopy get put copy"
proof (unfold_locales, goal_cases)
  case (1 h x h')
  show ?case
  proof (cases x)
    case (Some a)
    note ag = 1 [unfolded Some ptr_reach_def option.case]
    have "get h' a = get h a" by (rule get_agree [OF ag]) simp
    moreover have "reach h' (get h a) = reach h (get h a)"
      by (rule reach_local) (rule agree_mono [OF ag], blast)
    ultimately show ?thesis by (simp add: ptr_reach_def Some)
  qed (simp add: ptr_reach_def)
next
  case (2 h x h')
  show ?case
  proof (cases x)
    case (Some a)
    note ag = 2 [unfolded Some ptr_reach_def option.case]
    have "get h' a = get h a" by (rule get_agree [OF ag]) simp
    moreover have "val h' (get h a) = val h (get h a)"
      by (rule val_local) (rule agree_mono [OF ag], blast)
    ultimately show ?thesis by (simp add: ptr_val_def Some)
  qed (simp add: ptr_val_def)
next
  case (3 h x y h')
  then show ?case by (rule conjunct1 [OF new_copy])
next
  case (4 h x y h')
  then show ?case using new_copy [OF 4] by simp
next
  case (5 h x y h')
  then show ?case using new_copy [OF 5] by simp
qed

section \<open>The generated functions keep the promise\<close>

definition spec_reach :: "('m, 'l, 'c) heap \<Rightarrow> spec_struct \<Rightarrow> addr set" where
  "spec_reach h x = set_option (sp_allow x)"

text \<open>The values are those of \<open>Kube_Types\<close>, in which the controllers are modelled.\<close>

definition spec_val :: "('m, 'l, 'c) heap \<Rightarrow> spec_struct \<Rightarrow> kubernetes_spec" where
  "spec_val h x = \<lparr>ks_allowScheduling = map_option (hp_bool h) (sp_allow x),
     ks_machineCount = sp_machineCount x\<rparr>"

definition no_reach :: "('m, 'l, 'c) heap \<Rightarrow> 'a \<Rightarrow> addr set" where
  "no_reach h x = {}"

definition plain_val :: "('m, 'l, 'c) heap \<Rightarrow> 'a \<Rightarrow> 'a" where
  "plain_val h x = x"

interpretation count_copy: pointed hp_count put_count no_reach plain_val MachineCount_DeepCopyInto
  by unfold_locales (simp_all add: no_reach_def plain_val_def MachineCount_DeepCopyInto_def)

interpretation status_copy: pointed hp_status put_status no_reach plain_val KubernetesStatus_DeepCopyInto
  by unfold_locales (simp_all add: no_reach_def plain_val_def KubernetesStatus_DeepCopyInto_def)

lemma spec_copy_run:
  assumes live: "spec_reach h x \<subseteq> allocated h" and run: "KubernetesSpec_DeepCopyInto x h = (y, h')"
  shows "grows h h' \<and> spec_val h' y = spec_val h x \<and> spec_reach h' y \<subseteq> allocated h' - allocated h"
proof (cases "sp_allow x")
  case None
  with run show ?thesis by (auto simp: KubernetesSpec_DeepCopyInto_def spec_val_def spec_reach_def)
next
  case (Some p)
  obtain q h1 where al: "alloc h = (q, h1)" by fastforce
  note new = alloc_run [OF al]
  have b: "hp_bool h1 p = hp_bool h p" by (rule bool_cell.get_agree [OF new(3) [of "{p}"]]) simp
  from run Some al have "y = x\<lparr>sp_allow := Some q\<rparr> \<and> h' = put_bool q (hp_bool h1 p) h1"
    by (auto simp: KubernetesSpec_DeepCopyInto_def)
  then have y: "y = x\<lparr>sp_allow := Some q\<rparr>" and h': "h' = put_bool q (hp_bool h1 p) h1" by simp_all
  have "grows h h'" unfolding h' by (rule bool_cell.put_fresh [OF new(4)]) (use new(5) in simp)
  moreover have "spec_val h' y = spec_val h x"
    by (simp add: spec_val_def y h' Some b bool_cell.get_put)
  moreover have "spec_reach h' y \<subseteq> allocated h' - allocated h"
    using new(5) by (simp add: spec_reach_def y h' bool_cell.put_allocated)
  ultimately show ?thesis by blast
qed

interpretation spec_copy: pointed hp_spec put_spec spec_reach spec_val KubernetesSpec_DeepCopyInto
proof (unfold_locales, goal_cases)
  case (2 h x h')
  then show ?case by (cases "sp_allow x") (simp_all add: spec_val_def spec_reach_def agree_def)
next
  case (3 h x y h')
  then show ?case using spec_copy_run [OF 3] by simp
next
  case (4 h x y h')
  then show ?case using spec_copy_run [OF 4] by simp
next
  case (5 h x y h')
  then show ?case using spec_copy_run [OF 5] by simp
qed (simp add: spec_reach_def)


record 'v kube_value =
  kv_typeMeta :: "string \<times> string"
  kv_meta :: 'v
  kv_spec :: kubernetes_spec
  kv_status :: kubernetes_status

record ('v, 'u) kube_list_value =
  lv_typeMeta :: "string \<times> string"
  lv_meta :: 'u
  lv_items :: "'v kube_value list option"

definition kube_reach ::
  "(('m, 'l, 'c) heap \<Rightarrow> 'm \<Rightarrow> addr set) \<Rightarrow> ('m, 'l, 'c) heap \<Rightarrow> 'm kube_struct \<Rightarrow> addr set" where
  "kube_reach om_reach h x = om_reach h (kp_meta x) \<union> spec_reach h (kp_spec x)"

definition kube_val ::
  "(('m, 'l, 'c) heap \<Rightarrow> 'm \<Rightarrow> 'v) \<Rightarrow> ('m, 'l, 'c) heap \<Rightarrow> 'm kube_struct \<Rightarrow> 'v kube_value" where
  "kube_val om_val h x =
     \<lparr>kv_typeMeta = kp_typeMeta x, kv_meta = om_val h (kp_meta x), kv_spec = spec_val h (kp_spec x),
      kv_status = kp_status x\<rparr>"

definition list_reach ::
  "(('m, 'l, 'c) heap \<Rightarrow> 'm \<Rightarrow> addr set) \<Rightarrow> (('m, 'l, 'c) heap \<Rightarrow> 'l \<Rightarrow> addr set) \<Rightarrow>
   ('m, 'l, 'c) heap \<Rightarrow> 'l list_struct \<Rightarrow> addr set" where
  "list_reach om_reach lm_reach h x = lm_reach h (lp_meta x) \<union>
     (case lp_items x of
        None \<Rightarrow> {}
      | Some s \<Rightarrow> insert (sl_array s) (\<Union>i \<in> set (items_of h s). kube_reach om_reach h i))"

definition list_val ::
  "(('m, 'l, 'c) heap \<Rightarrow> 'm \<Rightarrow> 'v) \<Rightarrow> (('m, 'l, 'c) heap \<Rightarrow> 'l \<Rightarrow> 'u) \<Rightarrow>
   ('m, 'l, 'c) heap \<Rightarrow> 'l list_struct \<Rightarrow> ('v, 'u) kube_list_value" where
  "list_val om_val lm_val h x =
     \<lparr>lv_typeMeta = lp_typeMeta x, lv_meta = lm_val h (lp_meta x),
      lv_items = map_option (\<lambda>s. map (kube_val om_val h) (items_of h s)) (lp_items x)\<rparr>"

text \<open>The library's copies of \<open>ObjectMeta\<close> and \<open>ListMeta\<close>.\<close>

locale meta_library =
  om: deep_copier om_reach om_val om_copy + lm: deep_copier lm_reach lm_val lm_copy
  for om_reach :: "('m, 'l, 'c) heap \<Rightarrow> 'm \<Rightarrow> addr set"
    and om_val :: "('m, 'l, 'c) heap \<Rightarrow> 'm \<Rightarrow> 'v"
    and om_copy :: "('m, 'm, 'l, 'c) copier"
    and lm_reach :: "('m, 'l, 'c) heap \<Rightarrow> 'l \<Rightarrow> addr set"
    and lm_val :: "('m, 'l, 'c) heap \<Rightarrow> 'l \<Rightarrow> 'u"
    and lm_copy :: "('l, 'm, 'l, 'c) copier"
begin

lemma kube_local:
  assumes "agree (kube_reach om_reach h x) h h'"
  shows "kube_reach om_reach h' x = kube_reach om_reach h x" "kube_val om_val h' x = kube_val om_val h x"
proof -
  have m: "agree (om_reach h (kp_meta x)) h h'" and s: "agree (spec_reach h (kp_spec x)) h h'"
    using assms by (auto simp: kube_reach_def intro: agree_mono)
  show "kube_reach om_reach h' x = kube_reach om_reach h x" "kube_val om_val h' x = kube_val om_val h x"
    using om.reach_local [OF m] spec_copy.reach_local [OF s] om.val_local [OF m] spec_copy.val_local [OF s]
    by (simp_all add: kube_reach_def kube_val_def)
qed

lemma kube_copy_run:
  assumes live: "kube_reach om_reach h x \<subseteq> allocated h"
    and run: "Kubernetes_DeepCopyInto om_copy x h = (y, h')"
  shows "grows h h' \<and> kube_val om_val h' y = kube_val om_val h x \<and>
    kube_reach om_reach h' y \<subseteq> allocated h' - allocated h"
proof -
  obtain m h1 where 1: "om_copy (kp_meta x) h = (m, h1)" by fastforce
  obtain s h2 where 2: "KubernetesSpec_DeepCopyInto (kp_spec x) h1 = (s, h2)" by fastforce
  from run 1 2 have y: "kp_typeMeta y = kp_typeMeta x" "kp_meta y = m" "kp_spec y = s" "kp_status y = kp_status x"
    and h': "h' = h2" by (auto simp: Kubernetes_DeepCopyInto_def)
  from live have lm1: "om_reach h (kp_meta x) \<subseteq> allocated h"
    and ls: "spec_reach h (kp_spec x) \<subseteq> allocated h" by (simp_all add: kube_reach_def)
  note g1 = om.copy_grows [OF lm1 1] and f1 = om.copy_fresh [OF lm1 1] and v1 = om.copy_val [OF lm1 1]
  note sp = spec_copy.grown [OF ls g1]
  note g2 = spec_copy.copy_grows [OF sp(3) 2] and f2 = spec_copy.copy_fresh [OF sp(3) 2]
  from f1 have "om_reach h1 m \<subseteq> allocated h1" by blast
  note mt = om.grown [OF this g2]
  have "kube_val om_val h' y = kube_val om_val h x"
    using mt(2) v1 spec_copy.copy_val [OF sp(3) 2] sp(2) by (simp add: kube_val_def y h')
  moreover have "kube_reach om_reach h' y \<subseteq> allocated h' - allocated h"
    using mt(1) f1 f2 grows_allocated [OF g1] grows_allocated [OF g2]
    by (auto simp: kube_reach_def y h')
  ultimately show ?thesis using grows_trans [OF g1 g2] by (simp add: h')
qed

end

sublocale meta_library \<subseteq> kube: pointed hp_kube put_kube "kube_reach om_reach" "kube_val om_val"
  "Kubernetes_DeepCopyInto om_copy"
proof (unfold_locales, goal_cases)
  case (1 h x h')
  then show ?case by (rule kube_local)
next
  case (2 h x h')
  then show ?case by (rule kube_local)
next
  case (3 h x y h')
  then show ?case using kube_copy_run [OF 3] by simp
next
  case (4 h x y h')
  then show ?case using kube_copy_run [OF 4] by simp
next
  case (5 h x y h')
  then show ?case using kube_copy_run [OF 5] by simp
qed

lemma items_of_agree:
  assumes "agree A h h'" and "sl_array s \<in> A"
  shows "items_of h' s = items_of h s"
  using items_cell.get_agree [OF assms] by (simp add: items_of_def)

context meta_library
begin

lemma list_local:
  assumes ag: "agree (list_reach om_reach lm_reach h x) h h'"
  shows "list_reach om_reach lm_reach h' x = list_reach om_reach lm_reach h x \<and>
    list_val om_val lm_val h' x = list_val om_val lm_val h x"
proof -
  have m: "agree (lm_reach h (lp_meta x)) h h'"
    by (rule agree_mono [OF ag]) (simp add: list_reach_def)
  note lm = lm.reach_local [OF m] lm.val_local [OF m]
  show ?thesis
  proof (cases "lp_items x")
    case None
    with lm show ?thesis by (simp add: list_reach_def list_val_def)
  next
    case (Some s)
    have it: "items_of h' s = items_of h s"
      by (rule items_of_agree [OF ag]) (simp add: list_reach_def Some)
    have "agree (kube_reach om_reach h i) h h'" if "i \<in> set (items_of h s)" for i
      by (rule agree_mono [OF ag]) (use that Some in \<open>auto simp: list_reach_def\<close>)
    then have k: "\<forall>i \<in> set (items_of h s). kube_reach om_reach h' i = kube_reach om_reach h i \<and>
        kube_val om_val h' i = kube_val om_val h i"
      using kube_local by blast
    with lm it Some show ?thesis by (simp add: list_reach_def list_val_def)
  qed
qed

lemma list_copy_run:
  assumes live: "list_reach om_reach lm_reach h x \<subseteq> allocated h"
    and run: "KubernetesList_DeepCopyInto om_copy lm_copy x h = (y, h')"
  shows "grows h h' \<and> list_val om_val lm_val h' y = list_val om_val lm_val h x \<and>
    list_reach om_reach lm_reach h' y \<subseteq> allocated h' - allocated h"
proof -
  obtain m h1 where 1: "lm_copy (lp_meta x) h = (m, h1)" by fastforce
  have lm0: "lm_reach h (lp_meta x) \<subseteq> allocated h" using live by (simp add: list_reach_def)
  note g1 = lm.copy_grows [OF lm0 1] and f1 = lm.copy_fresh [OF lm0 1] and v1 = lm.copy_val [OF lm0 1]
  show ?thesis
  proof (cases "lp_items x")
    case None
    with run 1 have "y = x\<lparr>lp_meta := m\<rparr>" "h' = h1" by (simp_all add: KubernetesList_DeepCopyInto_def)
    with None g1 f1 v1 show ?thesis by (simp add: list_val_def list_reach_def)
  next
    case (Some s)
    obtain arr h2 where 2: "alloc h1 = (arr, h2)" by fastforce
    obtain ys h3 where 3: "copyItems (Kubernetes_DeepCopyInto om_copy) (items_of h2 s) h2 = (ys, h3)"
      by fastforce
    let ?sl = "\<lparr>sl_array = arr, sl_off = 0, sl_len = length ys\<rparr>"
    from run 1 2 3 Some have y: "lp_typeMeta y = lp_typeMeta x" "lp_meta y = m" "lp_items y = Some ?sl"
      and h': "h' = put_items arr ys h3" by (auto simp: KubernetesList_DeepCopyInto_def)
    note new = alloc_run [OF 2]
    have g2: "grows h h2" by (rule grows_trans [OF g1 new(4)])
    have "sl_array s \<in> allocated h" using live Some by (simp add: list_reach_def)
    then have it: "items_of h2 s = items_of h s"
      by (rule items_of_agree [OF grows_agree [OF g2 subset_refl]])
    have li: "\<forall>i \<in> set (items_of h s). kube_reach om_reach h i \<subseteq> allocated h"
      using live Some by (auto simp: list_reach_def)
    then have li2: "\<forall>i \<in> set (items_of h2 s). kube_reach om_reach h2 i \<subseteq> allocated h2"
      unfolding it using kube.grown(3) [OF _ g2] by blast
    note cp = kube.copy_items [OF li2 3]
    have "arr \<notin> allocated h" using new(5) grows_allocated [OF g1] by blast
    then have g: "grows h h'" unfolding h' by (intro items_cell.put_fresh grows_trans [OF g2 cp(1)])
    have ag: "agree A h3 h'" if "arr \<notin> A" for A using that unfolding h' by (rule items_cell.put_agree)
    have ys: "kube_reach om_reach h' i = kube_reach om_reach h3 i \<and> kube_val om_val h' i = kube_val om_val h3 i"
      if "i \<in> set ys" for i
      using kube_local [OF ag] cp(4) that new(5) by blast
    have m1: "lm_reach h1 m \<subseteq> allocated h1" using f1 by blast
    have g13: "grows h1 h3" by (rule grows_trans [OF new(4) cp(1)])
    note mt = lm.grown [OF m1 g13]
    have "arr \<notin> lm_reach h3 m" using mt(1) f1 new(5) by auto
    note am = ag [OF this]
    have its: "items_of h' ?sl = ys" by (simp add: items_of_def h' items_cell.get_put)
    have "map (kube_val om_val h') ys = map (kube_val om_val h3) ys" using ys by simp
    moreover have "map (kube_val om_val h2) (items_of h s) = map (kube_val om_val h) (items_of h s)"
      using li kube.grown(2) [OF _ g2] by (intro map_cong refl) blast
    ultimately have "map (kube_val om_val h') ys = map (kube_val om_val h) (items_of h s)"
      using cp(2) it by simp
    then have "list_val om_val lm_val h' y = list_val om_val lm_val h x"
      using lm.val_local [OF am] mt(2) v1 Some by (simp add: list_val_def y its)
    moreover have "list_reach om_reach lm_reach h' y \<subseteq> allocated h' - allocated h"
    proof -
      have all: "allocated h' = allocated h3" by (simp add: h' items_cell.put_allocated)
      note sub = grows_allocated [OF g1] grows_allocated [OF new(4)] grows_allocated [OF cp(1)]
      have "lm_reach h' m \<subseteq> allocated h' - allocated h"
        using lm.reach_local [OF am] mt(1) f1 sub all by auto
      moreover have "arr \<in> allocated h' - allocated h" using new(5) sub all by blast
      moreover have "kube_reach om_reach h' i \<subseteq> allocated h' - allocated h" if "i \<in> set ys" for i
        using ys [OF that] cp(4) that sub all by blast
      ultimately show ?thesis by (auto simp: list_reach_def y its)
    qed
    ultimately show ?thesis using g by blast
  qed
qed

end

sublocale meta_library \<subseteq> klist: pointed hp_list put_list "list_reach om_reach lm_reach"
  "list_val om_val lm_val" "KubernetesList_DeepCopyInto om_copy lm_copy"
proof (unfold_locales, goal_cases)
  case (1 h x h')
  then show ?case using list_local [OF 1] by simp
next
  case (2 h x h')
  then show ?case using list_local [OF 2] by simp
next
  case (3 h x y h')
  then show ?case using list_copy_run [OF 3] by simp
next
  case (4 h x y h')
  then show ?case using list_copy_run [OF 4] by simp
next
  case (5 h x y h')
  then show ?case using list_copy_run [OF 5] by simp
qed


section \<open>A reference library\<close>

text \<open>
  Metadata with a name and pointers to what else it holds (labels, annotations, finalizers, the
  deletion timestamp), each copied into a new cell; \<open>ListMeta\<close> has no pointer.
\<close>

datatype meta_cell = StringMap "string gomap" | Strings "string list" | Time timestamp

record ref_meta =
  rm_namespace :: string
  rm_name :: string
  rm_cells :: "addr option list"

type_synonym ref_heap = "(ref_meta, string, meta_cell) heap"

definition copyCell :: "(addr option, ref_meta, string, meta_cell) copier" where
  "copyCell p h =
     (case p of
        None \<Rightarrow> (None, h)
      | Some a \<Rightarrow> (case alloc h of (q, h1) \<Rightarrow> (Some q, put_lib q (hp_lib h1 a) h1)))"

definition copyMeta :: "(ref_meta, ref_meta, string, meta_cell) copier" where
  "copyMeta x h = (case copyItems copyCell (rm_cells x) h of (cs, h') \<Rightarrow> (x\<lparr>rm_cells := cs\<rparr>, h'))"

definition copyListMeta :: "(string, ref_meta, string, meta_cell) copier" where
  "copyListMeta x h = (x, h)"

definition cell_reach :: "ref_heap \<Rightarrow> addr option \<Rightarrow> addr set" where
  "cell_reach h p = set_option p"

definition cell_val :: "ref_heap \<Rightarrow> addr option \<Rightarrow> meta_cell option" where
  "cell_val h p = map_option (hp_lib h) p"

definition ref_meta_reach :: "ref_heap \<Rightarrow> ref_meta \<Rightarrow> addr set" where
  "ref_meta_reach h x = (\<Union>p \<in> set (rm_cells x). cell_reach h p)"

definition ref_meta_val :: "ref_heap \<Rightarrow> ref_meta \<Rightarrow> string \<times> string \<times> meta_cell option list" where
  "ref_meta_val h x = (rm_namespace x, rm_name x, map (cell_val h) (rm_cells x))"

lemma copyCell_run:
  assumes "copyCell p h = (q, h')"
  shows "grows h h' \<and> cell_val h' q = cell_val h p \<and> cell_reach h' q \<subseteq> allocated h' - allocated h"
proof (cases p)
  case (Some a)
  obtain n h1 where al: "alloc h = (n, h1)" by fastforce
  note new = alloc_run [OF al]
  have l: "hp_lib h1 a = hp_lib h a" by (rule lib_cell.get_agree [OF new(3) [of "{a}"]]) simp
  from assms Some al have q: "q = Some n" "h' = put_lib n (hp_lib h1 a) h1" by (simp_all add: copyCell_def)
  have "n \<notin> allocated h" using new(5) by simp
  then have "grows h h'" unfolding q(2) by (rule lib_cell.put_fresh [OF new(4)])
  with q Some l new(5) show ?thesis
    by (simp add: cell_val_def cell_reach_def lib_cell.get_put lib_cell.put_allocated)
qed (use assms in \<open>simp add: copyCell_def cell_val_def cell_reach_def\<close>)

interpretation cell_copy: deep_copier cell_reach cell_val copyCell
proof (unfold_locales, goal_cases)
  case (2 h p h')
  then show ?case by (cases p) (simp_all add: cell_val_def cell_reach_def agree_def)
next
  case (3 h x y h')
  then show ?case using copyCell_run [OF 3(2)] by simp
next
  case (4 h x y h')
  then show ?case using copyCell_run [OF 4(2)] by simp
next
  case (5 h x y h')
  then show ?case using copyCell_run [OF 5(2)] by simp
qed (simp add: cell_reach_def)

lemma copyMeta_run:
  assumes live: "ref_meta_reach h x \<subseteq> allocated h" and run: "copyMeta x h = (y, h')"
  shows "grows h h' \<and> ref_meta_val h' y = ref_meta_val h x \<and> ref_meta_reach h' y \<subseteq> allocated h' - allocated h"
proof -
  obtain cs h1 where c: "copyItems copyCell (rm_cells x) h = (cs, h1)" by fastforce
  from live have "\<forall>p \<in> set (rm_cells x). cell_reach h p \<subseteq> allocated h" by (auto simp: ref_meta_reach_def)
  from cell_copy.copy_items [OF this c] run c show ?thesis
    by (auto simp: copyMeta_def ref_meta_val_def ref_meta_reach_def)
qed

interpretation ref_library: meta_library ref_meta_reach ref_meta_val copyMeta no_reach plain_val copyListMeta
proof (unfold_locales, goal_cases)
  case (1 h x h')
  then show ?case by (simp add: ref_meta_reach_def cell_reach_def)
next
  case (2 h x h')
  have "agree (cell_reach h p) h h'" if "p \<in> set (rm_cells x)" for p
    by (rule agree_mono [OF 2]) (use that in \<open>auto simp: ref_meta_reach_def\<close>)
  then show ?case using cell_copy.val_local by (simp add: ref_meta_val_def)
next
  case (3 h x y h')
  then show ?case using copyMeta_run [OF 3] by simp
next
  case (4 h x y h')
  then show ?case using copyMeta_run [OF 4] by simp
next
  case (5 h x y h')
  then show ?case using copyMeta_run [OF 5] by simp
qed (simp_all add: no_reach_def plain_val_def copyListMeta_def)


section \<open>The property\<close>

text \<open>A function that copies what a pointer of any object points to, soundly.\<close>

definition copies_soundly ::
  "(('m, 'l, 'c) heap \<Rightarrow> addr option \<Rightarrow> addr set) \<Rightarrow> (('m, 'l, 'c) heap \<Rightarrow> addr option \<Rightarrow> 'v) \<Rightarrow>
   (addr option, 'm, 'l, 'c) copier \<Rightarrow> bool" where
  "copies_soundly reach val copy \<longleftrightarrow>
     (\<forall>h p q h'. reach h p \<subseteq> allocated h \<and> copy p h = (q, h') \<longrightarrow>
        independent reach val h p h' q \<and> grows h h' \<and> (q = None) = (p = None))"

lemma newCopy_None: "newCopy get put copy p h = (q, h') \<Longrightarrow> (q = None) = (p = None)"
  by (auto simp: newCopy_def split: option.splits prod.splits)

context pointed
begin

lemma new_copy_sound: "copies_soundly (ptr_reach get reach) (ptr_val get val) (newCopy get put copy)"
  unfolding copies_soundly_def using ptr.copy_independent ptr.copy_grows newCopy_None by blast

end

lemma object_results:
  "Kubernetes_DeepCopyObject om_copy p h = (case Kubernetes_DeepCopy om_copy p h of (q, h') \<Rightarrow>
      (if p = None then NilObject else KubernetesObject q, h'))"
  "KubernetesList_DeepCopyObject om_copy lm_copy p h =
      (case KubernetesList_DeepCopy om_copy lm_copy p h of (q, h') \<Rightarrow>
        (if p = None then NilObject else KubernetesListObject q, h'))"
proof -
  have nil: "(fst (newCopy get put copy p h) \<noteq> None) = (p \<noteq> None)" for get put copy
    using newCopy_None [where get = get and put = put and copy = copy, OF prod.collapse [symmetric]] by simp
  show "Kubernetes_DeepCopyObject om_copy p h = (case Kubernetes_DeepCopy om_copy p h of (q, h') \<Rightarrow>
      (if p = None then NilObject else KubernetesObject q, h'))"
    "KubernetesList_DeepCopyObject om_copy lm_copy p h =
      (case KubernetesList_DeepCopy om_copy lm_copy p h of (q, h') \<Rightarrow>
        (if p = None then NilObject else KubernetesListObject q, h'))"
    unfolding Kubernetes_DeepCopyObject_def KubernetesList_DeepCopyObject_def Kubernetes_DeepCopy_def
      KubernetesList_DeepCopy_def split_beta nil by simp_all
qed

context meta_library
begin

lemmas kube_sound = kube.new_copy_sound
lemmas list_sound = klist.new_copy_sound

end

text \<open>
  C29: the generated deep copies are deep.  Whenever the library copies metadata soundly, each
  \<open>DeepCopy\<close> of the API types gives a pointer to an object of equal value whose memory is new: what
  was allocated is as it was, and afterwards nothing written through the original or into later
  memory changes the copy, nor the other way round.  This holds with shared pointers and slices, for
  every item of a list, and a nil slice, pointer or receiver stays nil; \<open>DeepCopyObject\<close> returns a
  nil interface exactly for a nil receiver.
\<close>

theorem deep_copies_are_independent:
  assumes lib: "meta_library om_reach om_val om_copy lm_reach lm_val lm_copy"
  shows "copies_soundly (ptr_reach hp_kube (kube_reach om_reach)) (ptr_val hp_kube (kube_val om_val))
      (Kubernetes_DeepCopy om_copy) \<and>
    copies_soundly (ptr_reach hp_list (list_reach om_reach lm_reach)) (ptr_val hp_list (list_val om_val lm_val))
      (KubernetesList_DeepCopy om_copy lm_copy) \<and>
    copies_soundly (ptr_reach hp_spec spec_reach) (ptr_val hp_spec spec_val) KubernetesSpec_DeepCopy \<and>
    copies_soundly (ptr_reach hp_status no_reach) (ptr_val hp_status plain_val) KubernetesStatus_DeepCopy \<and>
    copies_soundly (ptr_reach hp_count no_reach) (ptr_val hp_count plain_val) MachineCount_DeepCopy \<and>
    Kubernetes_DeepCopyObject om_copy p h = (case Kubernetes_DeepCopy om_copy p h of (q, h') \<Rightarrow>
      (if p = None then NilObject else KubernetesObject q, h')) \<and>
    KubernetesList_DeepCopyObject om_copy lm_copy p h =
      (case KubernetesList_DeepCopy om_copy lm_copy p h of (q, h') \<Rightarrow>
        (if p = None then NilObject else KubernetesListObject q, h'))"
  using meta_library.kube_sound [OF lib] meta_library.list_sound [OF lib] spec_copy.new_copy_sound
    status_copy.new_copy_sound count_copy.new_copy_sound object_results
  unfolding Kubernetes_DeepCopy_def KubernetesList_DeepCopy_def KubernetesSpec_DeepCopy_def
    KubernetesStatus_DeepCopy_def MachineCount_DeepCopy_def
  by (intro conjI)

text \<open>
  An object whose scheduling flag and annotations lie behind pointers: when the original is changed
  through them, the copy still has the old ones.
\<close>

definition exHeap :: ref_heap where
  "exHeap =
     \<lparr>hp_next = 3, hp_bool = (\<lambda>_. True), hp_count = (\<lambda>_. \<lparr>mc_controlPlane = 0, mc_worker = 0\<rparr>),
      hp_status = (\<lambda>_. \<lparr>kst_phase = [], kst_ready = False, kst_url = [], kst_mountedWorkspace = []\<rparr>),
      hp_spec = (\<lambda>_. \<lparr>sp_allow = None, sp_machineCount = \<lparr>mc_controlPlane = 0, mc_worker = 0\<rparr>\<rparr>),
      hp_kube = (\<lambda>_. \<lparr>kp_typeMeta = (''kro.run/v1alpha1'', ''Kubernetes''),
        kp_meta = \<lparr>rm_namespace = ''ns'', rm_name = ''demo'', rm_cells = [Some 1, None]\<rparr>,
        kp_spec = \<lparr>sp_allow = Some 0, sp_machineCount = \<lparr>mc_controlPlane = 1, mc_worker = 2\<rparr>\<rparr>,
        kp_status = \<lparr>kst_phase = [], kst_ready = False, kst_url = [], kst_mountedWorkspace = []\<rparr>\<rparr>),
      hp_items = (\<lambda>_. []), hp_list = (\<lambda>_. \<lparr>lp_typeMeta = ([], []), lp_meta = [], lp_items = None\<rparr>),
      hp_lib = (\<lambda>_. StringMap [(''a'', ''b'')])\<rparr>"

theorem deep_copies_are_independent_witness:
  "case Kubernetes_DeepCopy copyMeta (Some 2) exHeap of (q, h) \<Rightarrow>
     ptr_val hp_kube (kube_val ref_meta_val) (put_lib 1 (Strings []) (put_bool 0 False h)) q =
       ptr_val hp_kube (kube_val ref_meta_val) exHeap (Some 2) \<and>
     ptr_val hp_kube (kube_val ref_meta_val) (put_lib 1 (Strings []) (put_bool 0 False h)) (Some 2) \<noteq>
       ptr_val hp_kube (kube_val ref_meta_val) exHeap (Some 2)"
proof -
  let ?reach = "ptr_reach hp_kube (kube_reach ref_meta_reach)"
    and ?val = "ptr_val hp_kube (kube_val ref_meta_val)"
  obtain q h where run: "Kubernetes_DeepCopy copyMeta (Some 2) exHeap = (q, h)" by fastforce
  have r: "?reach exHeap (Some 2) = {0, 1, 2}"
    by (auto simp: ptr_reach_def kube_reach_def spec_reach_def ref_meta_reach_def cell_reach_def exHeap_def)
  have live: "?reach exHeap (Some 2) \<subseteq> allocated exHeap"
    unfolding r by (simp add: allocated_def exHeap_def)
  have "copies_soundly ?reach ?val (Kubernetes_DeepCopy copyMeta)"
    using deep_copies_are_independent [OF ref_library.meta_library_axioms] by blast
  then have i: "independent ?reach ?val exHeap (Some 2) h q" and g: "grows exHeap h"
    using live run unfolding copies_soundly_def by blast+
  let ?h2 = "put_lib 1 (Strings []) (put_bool 0 False h)"
  have "?reach h (Some 2) = {0, 1, 2}"
    using ref_library.kube.ptr.grown(1) [OF live g] r by simp
  then have "agree (allocated h - ?reach h (Some 2)) h ?h2"
    by (simp add: agree_def put_lib_def put_bool_def)
  with i have 1: "?val ?h2 q = ?val exHeap (Some 2)" unfolding independent_def by blast
  have "2 \<in> allocated exHeap" by (simp add: allocated_def exHeap_def)
  with g have "hp_kube h 2 = hp_kube exHeap 2" by (simp add: grows_def agree_def)
  then have "?val ?h2 (Some 2) \<noteq> ?val exHeap (Some 2)"
    by (simp add: ptr_val_def kube_val_def spec_val_def put_lib_def put_bool_def exHeap_def)
  with 1 run show ?thesis by simp
qed

end
