(* ===== verification/Api_Scheme.thy ===== *)
theory Api_Scheme
  imports Ctrl_Reconcile
begin

text \<open>
  \<open>api/v1alpha1/groupversion_info.go\<close> and the schemes of the processes: which kinds a client knows.
  A kind is given by group, version and name; what the other packages register is a parameter.
\<close>

type_synonym gvk = "string \<times> string \<times> string"

definition groupVersion :: "string \<times> string" where
  "groupVersion = (''kro.run'', ''v1alpha1'')"

text \<open>\<open>SchemeBuilder.Register\<close> in \<open>init\<close>, and \<open>AddToScheme\<close>.\<close>

definition registeredTypes :: "gvk list" where
  "registeredTypes =
     [(fst groupVersion, snd groupVersion, ''Kubernetes''),
      (fst groupVersion, snd groupVersion, ''KubernetesList'')]"

definition AddToScheme :: "gvk list \<Rightarrow> gvk list" where
  "AddToScheme scheme = scheme @ registeredTypes"

text \<open>The scheme of the Kubernetes controller, on those of client-go and of Cluster API.\<close>

definition controllerScheme :: "gvk list \<Rightarrow> gvk list \<Rightarrow> gvk list" where
  "controllerScheme clientgo capi = AddToScheme (clientgo @ capi)"

text \<open>
  The reference in a mounted workspace, which has group and version as one string, names a kind that
  the API package registers, so the controller that made it can read what it names.
\<close>

definition api_version :: "string \<times> string \<Rightarrow> string" where
  "api_version gv = fst gv @ ''/'' @ snd gv"

lemma mount_reference_registered:
  assumes "ws_mount (mountedWorkspaceObject m n ns) = Some ref"
  shows "mr_apiVersion ref = api_version groupVersion"
    and "(fst groupVersion, snd groupVersion, mr_kind ref) \<in> set (controllerScheme clientgo capi)"
  using assms
  by (auto simp: mountedWorkspaceObject_def api_version_def groupVersion_def controllerScheme_def
      AddToScheme_def registeredTypes_def)

end
