(* ===== verification/Spec2Isabelle.thy ===== *)
theory Spec2Isabelle
  imports Http_Properties Proxy_Properties Process_Properties Deep_Copy_Laws Api_Scheme
begin

text \<open>
  A model of the Go programs of this repository: a database-as-a-service front end over kcp.  The
  \<^emph>\<open>provisioner\<close> (\<open>cmd/provisioner\<close>, \<open>internal/provisioner\<close>) is an HTTP server that creates, sets up,
  lists and deletes the workspaces of consumers in kcp, hands out kubeconfigs and keeps a kubeconfig
  Secret for the Headlamp UI in step.  The \<^emph>\<open>Kubernetes controller\<close>
  (\<open>cmd/kubernetes-controller\<close>, \<open>internal/controller/kubernetes\<close>) watches \<open>Kubernetes\<close> objects that are
  synced from the workspaces, prepares the Cluster API clusters behind them and mounts each cluster
  back as a workspace, reached through its \<^emph>\<open>mount proxy\<close>.  The \<^emph>\<open>mock MongoDB controller\<close>
  (\<open>cmd/mock-mongodb\<close>, \<open>internal/controller/mck\<close>) reports MongoDB resources as running.

  \<^bold>\<open>How the code is modelled.\<close>  A Go function that calls a server is a state-passing function over
  the type of the outside world, which stays a parameter; its result is a sum with \<open>Inl\<close> the error.
  Every early return, wrapped error and tolerated error of the code is a branch of the model; an
  error value keeps its format, its arguments and what it wraps.  Structs are records, pointers
  options, maps association lists, and the iteration order of a Go map is an argument.  A goroutine
  the code starts is a task in the result.  API servers and client libraries are not under \<open>src/\<close>:
  the records \<open>platform\<close>, \<open>ctrl_platform\<close> and \<open>mck_platform\<close> hold the calls the code makes, and the
  locales below state what is assumed of them.  A call may fail at any point, and a failed write may
  or may not have happened.

  \<^bold>\<open>Theories.\<close>
  \<^item> \<open>Dbaas_Prelude\<close>: errors, calls and their sequencing, programs that only read (\<open>keeps\<close>) or preserve
    a property, the contract \<open>ensure_step\<close> of an idempotent step, Go maps.
  \<^item> \<open>Go_Strings\<close>, \<open>Go_Net\<close>, \<open>Go_Url\<close>, \<open>Go_Sha1\<close>, \<open>Go_Json\<close>: what the code uses of Go's standard library
    (\<open>strings\<close>, \<open>net\<close>, \<open>net/url\<close>, \<open>crypto/sha1\<close>, \<open>encoding/json\<close>), with round-trip and shape lemmas.
  \<^item> \<open>Kube_Types\<close>: \<open>api/v1alpha1/types.go\<close> and the library objects; \<open>Kube_Api\<close>: clients, the locale
    \<open>resource_laws\<close> for one kind of object and \<open>api_server\<close> for all kinds over one view.
  \<^item> \<open>Prov_Core\<close>, \<open>Prov_Credentials\<close>, \<open>Prov_Bindings\<close>, \<open>Prov_Workspace\<close>, \<open>Prov_Kubeconfig\<close>,
    \<open>Prov_Headlamp\<close>: the files of \<open>internal/provisioner\<close>, definitions first, then the lemmas about them
    in \<open>api_server\<close>; \<open>Prov_Typing\<close>: well-typed kubeconfigs.
  \<^item> \<open>Prov_System\<close>: the provisioner as a step relation \<open>prov_step\<close> whose steps are its operations, run
    by any number of requests and background tasks, and of the environment; invariants by rule
    induction.  \<open>Prov_Http\<close> and \<open>Prov_Main\<close>: \<open>cmd/provisioner/main.go\<close>, its handlers, routes, loop and
    start-up.  \<open>Prov_Process\<close>: the running process, its reconcile goroutine as a \<open>select\<close> loop that may go
    on forever, and its threads and their shutdown as a state machine.
  \<^item> \<open>Ctrl_Types\<close>, \<open>Ctrl_Naming\<close>, \<open>Ctrl_Reconcile\<close>: \<open>controller.go\<close>, its pure parts and its reconcile;
    \<open>Ctrl_Laws\<close>: the locale \<open>controller_server\<close> (\<open>api_server\<close> with a second view of management and
    workload clusters) and the lemmas on mounted workspaces; \<open>Ctrl_Workload\<close>: taints and manifests;
    \<open>Ctrl_Protocol\<close>: the finalizer protocol and the published status of one run; \<open>Ctrl_System\<close>: runs over
    time, between the steps of other clients, as the step relation \<open>ctrl_step\<close>.
  \<^item> \<open>Mount_Proxy\<close>: \<open>mount_proxy.go\<close>; \<open>Ctrl_Main\<close>: \<open>cmd/kubernetes-controller/main.go\<close> and the way from the
    published URL to the proxy, \<open>Ctrl_Process\<close>: its running process; \<open>Mck_Controller\<close>: the mock MongoDB
    controller, \<open>Mck_Main\<close>: \<open>cmd/mock-mongodb/main.go\<close>.  \<open>Go_Process\<close>: schedules, and the locale
    \<open>staged_process\<close> of a process that ends through stages, interpreted for both running processes.
  \<^item> \<open>Deep_Copy\<close>: \<open>api/v1alpha1/zz_generated.deepcopy.go\<close> over a memory with addresses; \<open>Deep_Copy_Laws\<close>:
    the locales \<open>heap_cell\<close> and \<open>deep_copier\<close>, the contract of a deep copy, \<open>pointed\<close> for \<open>DeepCopy\<close> of
    pointers, and \<open>meta_library\<close> for the copies of \<open>ObjectMeta\<close> and \<open>ListMeta\<close>, with their interpretations.
    \<open>Api_Scheme\<close>: \<open>groupversion_info.go\<close> and the scheme of the controller.
  \<^item> \<open>Reference_Cluster\<close>, \<open>Reference_Controller\<close>: executable servers with refused requests and lost
    answers that interpret the locales; the examples run on them.
  \<^item> \<open>Prov_Properties\<close>, \<open>Http_Properties\<close>, \<open>Controller_Properties\<close>, \<open>Proxy_Properties\<close>,
    \<open>Process_Properties\<close>: the properties C1 to C40 (C29 is in \<open>Deep_Copy_Laws\<close>, C10 here), each with an application to a concrete run where it has hypotheses.

  \<^bold>\<open>State and views.\<close>  \<open>cluster_view\<close> is what all servers store, by host, namespace and name:
  workspaces, logical clusters, bindings, namespaces, accounts, secrets and role bindings, and the
  last patch of each deployment.  \<open>ctrl_view\<close> adds Kubernetes objects, Cluster API clusters, nodes and
  applied manifests.  The programs themselves keep no state between calls.

  \<^bold>\<open>What is shown.\<close>  For the provisioner: a workspace is marked for scoped credentials only when they
  are in place, in every reachable state and through every request (C1, C16, C19); setup reaches its
  goal, is monotone and idempotent (C2, C13 to C15); kubeconfigs carry only the credentials and the
  address they should (C4, C18, C34 to C37) and are well typed (C20); the Headlamp kubeconfig follows
  the live workspaces whatever the order of iteration (C3), with one exception the code has (C39);
  listing is faithful (C11); every eligible workspace is served in a round although others fail (C12);
  creating and deleting touch one workspace (C32, C33); handlers report their outcome exactly (C17).
  For the Kubernetes controller: over time no mounted workspace is orphaned (C5), since the finalizer
  guards it in every run (C6, C8); a published status is true (C7); mounting never touches other
  workspaces (C9), while deleting does (C40); taints and manifests reach their specifications and
  settle (C25 to C28); names, their bounds, and encodings (C30, C31).  For the proxy: confinement and
  routing (C23, C24).  The two programs mean the same workspaces (C10).  The mock MongoDB controller:
  C38.  The processes: they stop when told to, with a known exit status (C21), and the background loop
  returns exactly when it is cancelled (C22).  The API types: deep copies share nothing (C29), which is
  what lets the controllers be modelled with objects as values.

  \<^bold>\<open>Bounds and termination.\<close>  All recursion is structural or has a proved measure, but for the \<open>select\<close>
  loop, a \<open>partial_function\<close> whose result says whether it returns; the model has no fuel, but for the
  reference text format of kubeconfigs, whose fuel is its length.  \<open>startHeadlampReconcileLoop\<close> takes
  the list of its rounds, of any length; C22 says which rounds these are.  That a process ends assumes
  a scheduler that offers each remaining step again and again; no order of the steps is assumed.

  \<^bold>\<open>Reads of the controller.\<close>  The manager's client reads from a cache; the contract says of such a
  read only that it returns an object of the name asked for.  Results about what a run found speak of
  the object read.

  \<^bold>\<open>Memory.\<close>  Objects are values everywhere but in the deep copies.  There a pointer is an address, a
  slice a part of an array, and what a program may do to a copy or its original is any change to the
  cells they reach.

  \<^bold>\<open>Not modelled.\<close>  The rendering of the HTML page and logging (input and output of libraries); what the
  servers do inside a connection; the round trip of the reverse proxy and what it does to headers
  other than the forwarding ones; \<open>SetupWithManager\<close>, which registers a controller with the library;
  concurrency within one call, since every function of the code is a sequence of requests:
  interleaving is between the steps of \<open>prov_step\<close>, \<open>ctrl_step\<close> and of the processes; YAML decoding and
  server-side apply, which are parameters; the TypeScript plugin, the manifests and the scripts, which
  are in other languages.
\<close>

section \<open>The two programs together\<close>

text \<open>A server URL without its path, query and fragment, with its trailing slash cut.\<close>

lemma kcpHost_server:
  assumes "rc_host (re_kcp r) = s @ ''://'' @ h @ q" "scheme_ok s" "host_ok h" "path_ok q"
  shows "kcpHost r path = s @ ''://'' @ h @ ''/clusters/'' @ path"
proof -
  have "(server_url s h q)\<lparr>u_path := [], u_raw_query := [], u_fragment := []\<rparr> = server_url s h []"
    by (simp add: server_url_def empty_url_def)
  moreover have "url_string (server_url s h []) = s @ ''://'' @ h"
    using string_server_url [OF assms(2,3), of "[]"] by (simp add: path_ok_def)
  moreover have "\<not> has_suffix (s @ ''://'' @ h) ''/''"
  proof -
    have "h \<noteq> []" "CHR ''/'' \<notin> set h" using assms(3) host_ok_chars_absent by (auto simp: host_ok_def)
    then have "last h \<noteq> CHR ''/''" by (metis last_in_set)
    with \<open>h \<noteq> []\<close> show ?thesis by (simp add: has_suffix_single)
  qed
  ultimately show ?thesis
    using parse_server_url [OF assms(2-4)] assms(1) by (simp add: kcpHost_def trim_suffix_other)
qed



end
